theory Spec2Isabelle
  imports Main "HOL-Library.Sublist"
begin


section \<open>JavaScript values\<close>

text \<open>
  The value that \<^verbatim>\<open>JSON.parse\<close> returns. Object members are an association list read
  with \<open>map_of\<close>; a member that is absent reads as \<open>None\<close>, which stands for
  JavaScript's \<^verbatim>\<open>undefined\<close>. Numbers are only ever tested for their type and their
  truthiness by the importer, so an integer stands for them.
\<close>

datatype json =
    JNull
  | JBool bool
  | JNum int
  | JStr string
  | JArr "json list"
  | JObj "(string \<times> json) list"

text \<open>Property access \<^verbatim>\<open>v.k\<close> on a value that is not null.\<close>

fun getProp :: "json \<Rightarrow> string \<Rightarrow> json option" where
  "getProp (JObj fs) k = map_of fs k"
| "getProp _ k = None"

text \<open>\<^verbatim>\<open>!v\<close> is \<open>\<not> truthy v\<close>.\<close>

fun truthy :: "json \<Rightarrow> bool" where
  "truthy JNull = False"
| "truthy (JBool b) = b"
| "truthy (JNum n) = (n \<noteq> 0)"
| "truthy (JStr s) = (s \<noteq> [])"
| "truthy (JArr xs) = True"
| "truthy (JObj fs) = True"

text \<open>\<^verbatim>\<open>typeof v === 'object'\<close>: true of null, of arrays and of objects.\<close>

fun typeof_object :: "json \<Rightarrow> bool" where
  "typeof_object JNull = True"
| "typeof_object (JArr xs) = True"
| "typeof_object (JObj fs) = True"
| "typeof_object _ = False"

text \<open>\<^verbatim>\<open>v != null\<close> on a value that may be undefined.\<close>

fun notNullish :: "json option \<Rightarrow> bool" where
  "notNullish None = False"
| "notNullish (Some JNull) = False"
| "notNullish (Some v) = True"

text \<open>\<^verbatim>\<open>v ?? d\<close>.\<close>

definition coalesce :: "json option \<Rightarrow> json \<Rightarrow> json" where
  "coalesce v d = (if notNullish v then the v else d)"

text \<open>\<^verbatim>\<open>v && typeof v === 'string'\<close> on a property: a string that is not empty.\<close>

fun truthyString :: "json option \<Rightarrow> bool" where
  "truthyString (Some (JStr s)) = (s \<noteq> [])"
| "truthyString _ = False"

fun isArray :: "json option \<Rightarrow> bool" where
  "isArray (Some (JArr xs)) = True"
| "isArray _ = False"

fun elems :: "json option \<Rightarrow> json list" where
  "elems (Some (JArr xs)) = xs"
| "elems _ = []"

subsection \<open>Strings\<close>

text \<open>
  A string is a list of UTF-16 code units; a character of the model is a code unit below
  256, which stands for the code point of that number (ISO 8859-1). \<^verbatim>\<open>s.length\<close> is
  \<open>length\<close> and \<^verbatim>\<open>s.substring(0, n)\<close> is \<open>take n\<close>.

  \<^verbatim>\<open>toLowerCase\<close> maps each code point to its lower-case mapping in the Unicode character
  database: below 256 these are the letters A to Z and the capital letters from U+00C0
  to U+00DE (U+00D7, the multiplication sign, is no letter), each mapped to the code point
  32 places on; every other code point below 256 is its own image.
\<close>

definition upperLetters :: string where
  "upperLetters = ''ABCDEFGHIJKLMNOPQRSTUVWXYZ'' @
     [CHR 0xC0, CHR 0xC1, CHR 0xC2, CHR 0xC3, CHR 0xC4, CHR 0xC5, CHR 0xC6, CHR 0xC7,
      CHR 0xC8, CHR 0xC9, CHR 0xCA, CHR 0xCB, CHR 0xCC, CHR 0xCD, CHR 0xCE, CHR 0xCF,
      CHR 0xD0, CHR 0xD1, CHR 0xD2, CHR 0xD3, CHR 0xD4, CHR 0xD5, CHR 0xD6, CHR 0xD8,
      CHR 0xD9, CHR 0xDA, CHR 0xDB, CHR 0xDC, CHR 0xDD, CHR 0xDE]"

definition lowerLetters :: string where
  "lowerLetters = ''abcdefghijklmnopqrstuvwxyz'' @
     [CHR 0xE0, CHR 0xE1, CHR 0xE2, CHR 0xE3, CHR 0xE4, CHR 0xE5, CHR 0xE6, CHR 0xE7,
      CHR 0xE8, CHR 0xE9, CHR 0xEA, CHR 0xEB, CHR 0xEC, CHR 0xED, CHR 0xEE, CHR 0xEF,
      CHR 0xF0, CHR 0xF1, CHR 0xF2, CHR 0xF3, CHR 0xF4, CHR 0xF5, CHR 0xF6, CHR 0xF8,
      CHR 0xF9, CHR 0xFA, CHR 0xFB, CHR 0xFC, CHR 0xFD, CHR 0xFE]"

definition lowerChar :: "char \<Rightarrow> char" where
  "lowerChar c = (case map_of (zip upperLetters lowerLetters) c of Some l \<Rightarrow> l | None \<Rightarrow> c)"

definition toLowerCase :: "string \<Rightarrow> string" where
  "toLowerCase s = map lowerChar s"

text \<open>
  \<^verbatim>\<open>trim\<close> removes the white space and the line terminators of ECMAScript from both ends;
  below 256 these are U+0009 to U+000D, the space U+0020 and the no-break space U+00A0.
\<close>

definition whiteSpace :: string where
  "whiteSpace = [CHR 0x09, CHR 0x0A, CHR 0x0B, CHR 0x0C, CHR 0x0D, CHR 0x20, CHR 0xA0]"

definition isSpace :: "char \<Rightarrow> bool" where
  "isSpace c = (c \<in> set whiteSpace)"

definition trim :: "string \<Rightarrow> string" where
  "trim s = rev (dropWhile isSpace (rev (dropWhile isSpace s)))"

text \<open>
  A JavaScript \<^verbatim>\<open>Set\<close> built by successive \<^verbatim>\<open>add\<close> calls, read in iteration
  order: every element once, at the place of its first insertion.
\<close>

definition js_set :: "'a list \<Rightarrow> 'a list" where
  "js_set xs = rev (remdups (rev xs))"

section \<open>Errors\<close>

datatype trpc_code = UNAUTHORIZED | BAD_REQUEST | NOT_FOUND | FORBIDDEN | INTERNAL_SERVER_ERROR

text \<open>
  The messages of the errors the import raises, with the values their templates
  interpolate. \<open>ImportFailed m\<close> is \<^verbatim>\<open>`Import failed: ${error.message}`\<close>. The text of a
  schema failure (its paths and reasons) is not modelled.
\<close>

datatype message =
    UserNotAuthenticated
  | InvalidJsonFormat
  | CardInvalid nat
  | ListInvalid nat
  | ListNameInvalid nat
  | InvalidDataStructure
  | BoardNotFound
  | WorkspaceNotFound
  | NotWorkspaceMember
  | FailedToCreateImportRecord
  | InvalidListData
  | FailedToCreateList string
  | FailedToCreateCards string
  | StoreFailure
  | MissingLabel
  | ImportFailed message

text \<open>An exception: a \<^verbatim>\<open>TRPCError\<close>, or another \<^verbatim>\<open>Error\<close> that the store raised.\<close>

datatype exn = TRPCError trpc_code message | StoreError message

fun exn_message :: "exn \<Rightarrow> message" where
  "exn_message (TRPCError c m) = m"
| "exn_message (StoreError m) = m"

section \<open>The preprocessor\<close>

text \<open>Lines 121 to 131: the items of a checklist that are kept, each rebuilt.\<close>

definition itemIsValid :: "json \<Rightarrow> bool" where
  "itemIsValid item = (item \<noteq> JNull \<and> typeof_object item \<and> truthyString (getProp item ''title''))"

definition processItem :: "json \<Rightarrow> json" where
  "processItem item =
     JObj [(''title'', the (getProp item ''title'')),
           (''completed'', coalesce (getProp item ''completed'') (JBool False))]"

text \<open>Lines 115 to 140.\<close>

definition checklistIsValid :: "json \<Rightarrow> bool" where
  "checklistIsValid cl = (cl \<noteq> JNull \<and> typeof_object cl \<and> truthyString (getProp cl ''name''))"

definition processChecklist :: "json \<Rightarrow> json" where
  "processChecklist checklist =
     JObj [(''name'', the (getProp checklist ''name'')),
           (''items'',
              JArr (if isArray (getProp checklist ''items'')
                    then map processItem (filter itemIsValid (elems (getProp checklist ''items'')))
                    else []))]"

text \<open>Lines 103 to 150: one card of \<^verbatim>\<open>preprocessCards\<close>.\<close>

definition preprocessCard :: "nat \<Rightarrow> json \<Rightarrow> exn + json" where
  "preprocessCard index crd =
     (if \<not> truthy crd \<or> \<not> typeof_object crd
      then Inl (TRPCError BAD_REQUEST (CardInvalid index))
      else Inr (JObj
        [(''title'', coalesce (getProp crd ''title'') (JStr [])),
         (''description'', coalesce (getProp crd ''description'') (JStr [])),
         (''labels'',
            JArr (if isArray (getProp crd ''labels'')
                  then filter (\<lambda>l. l \<noteq> JNull) (elems (getProp crd ''labels''))
                  else [])),
         (''checklists'',
            JArr (if isArray (getProp crd ''checklists'')
                  then map processChecklist
                         (filter checklistIsValid (elems (getProp crd ''checklists'')))
                  else []))]))"

text \<open>\<^verbatim>\<open>cards.map\<close> stops at the first crd that throws.\<close>

fun preprocessCards :: "nat \<Rightarrow> json list \<Rightarrow> exn + json list" where
  "preprocessCards index [] = Inr []"
| "preprocessCards index (crd # crds) =
     (case preprocessCard index crd of
        Inl e \<Rightarrow> Inl e
      | Inr c \<Rightarrow>
          (case preprocessCards (Suc index) crds of
             Inl e \<Rightarrow> Inl e
           | Inr cs \<Rightarrow> Inr (c # cs)))"

text \<open>Lines 156 to 180: one entry of an array of lists.\<close>

definition preprocessList :: "nat \<Rightarrow> json \<Rightarrow> exn + json" where
  "preprocessList index list =
     (if \<not> truthy list \<or> \<not> typeof_object list
      then Inl (TRPCError BAD_REQUEST (ListInvalid index))
      else if \<not> truthyString (getProp list ''listName'')
      then Inl (TRPCError BAD_REQUEST (ListNameInvalid index))
      else
        (case preprocessCards 0 (if isArray (getProp list ''cards'') then elems (getProp list ''cards'') else []) of
           Inl e \<Rightarrow> Inl e
         | Inr cs \<Rightarrow>
             Inr (JObj [(''listName'',
                           (case getProp list ''listName'' of
                              Some (JStr s) \<Rightarrow> JStr (trim s)
                            | _ \<Rightarrow> JNull)),
                        (''cards'', JArr cs)])))"

fun preprocessLists :: "nat \<Rightarrow> json list \<Rightarrow> exn + json list" where
  "preprocessLists index [] = Inr []"
| "preprocessLists index (l # ls) =
     (case preprocessList index l of
        Inl e \<Rightarrow> Inl e
      | Inr r \<Rightarrow>
          (case preprocessLists (Suc index) ls of
             Inl e \<Rightarrow> Inl e
           | Inr rs \<Rightarrow> Inr (r # rs)))"

text \<open>
  Lines 101 to 203. No step of the preprocessing raises anything but a
  \<^verbatim>\<open>TRPCError\<close>, so the handler's second branch is never taken.
\<close>

fun preprocess :: "json \<Rightarrow> exn + json" where
  "preprocess (JArr ls) =
     (case preprocessLists 0 ls of Inl e \<Rightarrow> Inl e | Inr rs \<Rightarrow> Inr (JArr rs))"
| "preprocess (JObj fs) =
     (if map_of fs ''cards'' \<noteq> None \<and> isArray (map_of fs ''cards'')
      then
        (case preprocessCards 0 (elems (map_of fs ''cards'')) of
           Inl e \<Rightarrow> Inl e
         | Inr cs \<Rightarrow>
             Inr (JObj ((case map_of fs ''listName'' of
                           None \<Rightarrow> []
                         | Some v \<Rightarrow> [(''listName'', v)])
                        @ [(''cards'', JArr cs)])))
      else Inr (JObj fs))"
| "preprocess v = Inr v"

section \<open>The schema\<close>

record item_data =
  item_title :: string
  item_completed :: bool

record checklist_data =
  checklist_name :: string
  checklist_items :: "item_data list"

record card_data =
  card_title :: string
  card_description :: string
  card_labels :: "string list"
  card_checklists :: "checklist_data list"

record list_data =
  listName :: string
  list_cards :: "card_data list"

text \<open>\<^verbatim>\<open>z.string().min(lo).max(hi)\<close> on a property.\<close>

fun z_string :: "nat \<Rightarrow> nat \<Rightarrow> json option \<Rightarrow> string option" where
  "z_string lo hi (Some (JStr s)) = (if lo \<le> length s \<and> length s \<le> hi then Some s else None)"
| "z_string lo hi _ = None"

text \<open>\<^verbatim>\<open>z.boolean().default(false)\<close>.\<close>

fun z_boolean_default :: "json option \<Rightarrow> bool option" where
  "z_boolean_default None = Some False"
| "z_boolean_default (Some (JBool b)) = Some b"
| "z_boolean_default _ = None"

text \<open>\<^verbatim>\<open>z.array(schema).max(hi)\<close>, and the same with a default for an absent property.\<close>

fun z_array :: "(json \<Rightarrow> 'a option) \<Rightarrow> nat \<Rightarrow> json option \<Rightarrow> 'a list option" where
  "z_array schema hi (Some (JArr xs)) = (if length xs \<le> hi then those (map schema xs) else None)"
| "z_array schema hi _ = None"

fun z_array_default :: "(json \<Rightarrow> 'a option) \<Rightarrow> nat \<Rightarrow> json option \<Rightarrow> 'a list option" where
  "z_array_default schema hi None = Some []"
| "z_array_default schema hi v = z_array schema hi v"

fun z_string_default :: "nat \<Rightarrow> json option \<Rightarrow> string option" where
  "z_string_default hi None = Some []"
| "z_string_default hi v = z_string 0 hi v"

fun ChecklistItemSchema :: "json \<Rightarrow> item_data option" where
  "ChecklistItemSchema (JObj fs) =
     (case z_string 1 500 (map_of fs ''title'') of
        None \<Rightarrow> None
      | Some t \<Rightarrow>
          (case z_boolean_default (map_of fs ''completed'') of
             None \<Rightarrow> None
           | Some c \<Rightarrow> Some \<lparr>item_title = t, item_completed = c\<rparr>))"
| "ChecklistItemSchema _ = None"

fun ChecklistSchema :: "json \<Rightarrow> checklist_data option" where
  "ChecklistSchema (JObj fs) =
     (case z_string 1 255 (map_of fs ''name'') of
        None \<Rightarrow> None
      | Some n \<Rightarrow>
          (case z_array ChecklistItemSchema 50 (map_of fs ''items'') of
             None \<Rightarrow> None
           | Some its \<Rightarrow> Some \<lparr>checklist_name = n, checklist_items = its\<rparr>))"
| "ChecklistSchema _ = None"

fun CardSchema :: "json \<Rightarrow> card_data option" where
  "CardSchema (JObj fs) =
     (case z_string 1 255 (map_of fs ''title'') of
        None \<Rightarrow> None
      | Some t \<Rightarrow>
          (case z_string_default 10000 (map_of fs ''description'') of
             None \<Rightarrow> None
           | Some d \<Rightarrow>
               (case z_array_default (\<lambda>l. z_string 0 50 (Some l)) 20 (map_of fs ''labels'') of
                  None \<Rightarrow> None
                | Some ls \<Rightarrow>
                    (case z_array_default ChecklistSchema 10 (map_of fs ''checklists'') of
                       None \<Rightarrow> None
                     | Some cls \<Rightarrow>
                         Some \<lparr>card_title = t, card_description = d, card_labels = ls,
                               card_checklists = cls\<rparr>))))"
| "CardSchema _ = None"

fun ListSchema :: "json \<Rightarrow> list_data option" where
  "ListSchema (JObj fs) =
     (case z_string 1 255 (map_of fs ''listName'') of
        None \<Rightarrow> None
      | Some n \<Rightarrow>
          (case z_array CardSchema 500 (map_of fs ''cards'') of
             None \<Rightarrow> None
           | Some cs \<Rightarrow> Some \<lparr>listName = n, list_cards = cs\<rparr>))"
| "ListSchema _ = None"

text \<open>
  \<^verbatim>\<open>ImportJsonSchema.safeParse\<close> followed by the normalisation of line 222: the lists
  to import, or \<open>None\<close> when neither member of the union accepts the value.
\<close>

definition ImportJsonSchema :: "json \<Rightarrow> list_data list option" where
  "ImportJsonSchema v =
     (case ListSchema v of
        Some l \<Rightarrow> Some [l]
      | None \<Rightarrow>
          (case z_array ListSchema 50 (Some v) of
             None \<Rightarrow> None
           | Some ls \<Rightarrow> (if 1 \<le> length ls then Some ls else None)))"

section \<open>The store\<close>

text \<open>
  The tables the import and the export touch, with the columns they read or write. A row
  that was soft-deleted has its \<^verbatim>\<open>deletedAt\<close> set.
\<close>

datatype import_status = Pending | Success | Failed

record boards_row =
  boards_id :: nat
  boards_publicId :: string
  boards_workspaceId :: nat

record workspaces_row =
  workspaces_id :: nat
  workspaces_members :: "string list"

record imports_row =
  imports_id :: nat
  imports_source :: string
  imports_createdBy :: string
  imports_status :: import_status

record lists_row =
  lists_id :: nat
  lists_name :: string
  lists_boardId :: nat
  lists_index :: nat
  lists_importId :: "nat option"
  lists_createdBy :: string
  lists_deleted :: bool

record labels_row =
  labels_id :: nat
  labels_publicId :: nat
  labels_name :: string
  labels_colourCode :: string
  labels_boardId :: nat
  labels_importId :: "nat option"
  labels_createdBy :: string
  labels_deleted :: bool

record cards_row =
  cards_id :: nat
  cards_publicId :: nat
  cards_title :: string
  cards_description :: string
  cards_listId :: nat
  cards_index :: nat
  cards_importId :: "nat option"
  cards_createdBy :: string
  cards_deleted :: bool

record checklists_row =
  checklists_id :: nat
  checklists_name :: string
  checklists_cardId :: nat
  checklists_index :: nat
  checklists_createdBy :: string
  checklists_deleted :: bool

record checklistItems_row =
  checklistItems_id :: nat
  checklistItems_title :: string
  checklistItems_completed :: bool
  checklistItems_checklistId :: nat
  checklistItems_index :: nat
  checklistItems_createdBy :: string
  checklistItems_deleted :: bool

record cardActivities_row =
  cardActivities_type :: string
  cardActivities_cardId :: nat
  cardActivities_createdBy :: string

text \<open>
  The state the calls act on: the tables, the number of write calls the store has
  received (\<open>db_tick\<close>) and the number of public identifiers handed out (\<open>db_uid\<close>).
\<close>

record db =
  db_boards :: "boards_row list"
  db_workspaces :: "workspaces_row list"
  db_imports :: "imports_row list"
  db_lists :: "lists_row list"
  db_labels :: "labels_row list"
  db_cards :: "cards_row list"
  db_cardsToLabels :: "(nat \<times> nat) list"
  db_checklists :: "checklists_row list"
  db_checklistItems :: "checklistItems_row list"
  db_cardActivities :: "cardActivities_row list"
  db_tick :: nat
  db_uid :: nat

text \<open>
  What the importer is handed besides its input: the caller of \<^verbatim>\<open>ctx.user\<close>, how the
  store answers each write call (by the kind of the call and its number), and the palette
  \<^verbatim>\<open>colours\<close>, a constant of the shared package that is not among the sources.
\<close>

datatype store_op =
    ImportCreate
  | LabelBulkCreate
  | ListCreate
  | CardBulkCreate
  | ActivityBulkCreate
  | CardLabelBulkCreate
  | ChecklistCreate
  | ChecklistItemCreate

datatype outcome = Returns | NoResult | Raises

record ctx =
  ctx_user :: "string option"
  ctx_outcome :: "store_op \<Rightarrow> nat \<Rightarrow> outcome"
  ctx_colours :: "string list"

subsection \<open>The repositories\<close>

text \<open>
  Modelled from the spec: the repository functions (\<^verbatim>\<open>import.repo\<close>, \<^verbatim>\<open>label.repo\<close>,
  \<^verbatim>\<open>list.repo\<close>, \<^verbatim>\<open>card.repo\<close>, \<^verbatim>\<open>cardActivity.repo\<close>, \<^verbatim>\<open>checklist.repo\<close>) are not among
  the sources. The spec gives them create and bulk-create operations, and has a write step
  either succeed, return no result, or raise. A write that succeeds appends its rows, gives
  each a fresh identifier above zero, and returns them in the order of its input; a write
  that fails writes nothing.
\<close>

definition fresh_id :: "nat list \<Rightarrow> nat" where
  "fresh_id ids = Suc (fold max ids 0)"

definition store_call :: "ctx \<Rightarrow> store_op \<Rightarrow> (db \<Rightarrow> 'a \<times> db) \<Rightarrow> db \<Rightarrow> (exn + 'a option) \<times> db" where
  "store_call ctx op write d =
     (case ctx_outcome ctx op (db_tick d) of
        Raises \<Rightarrow> (Inl (StoreError StoreFailure), d\<lparr>db_tick := Suc (db_tick d)\<rparr>)
      | NoResult \<Rightarrow> (Inr None, d\<lparr>db_tick := Suc (db_tick d)\<rparr>)
      | Returns \<Rightarrow>
          (case write (d\<lparr>db_tick := Suc (db_tick d)\<rparr>) of (r, d') \<Rightarrow> (Inr (Some r), d')))"

text \<open>The rows of a bulk insert, each built from the identifier it is given.\<close>

definition assign_ids :: "nat \<Rightarrow> (nat \<Rightarrow> 'r) list \<Rightarrow> 'r list" where
  "assign_ids base mk = map (\<lambda>(k, f). f (base + k)) (enumerate 0 mk)"

definition importRepo_create :: "ctx \<Rightarrow> string \<Rightarrow> string \<Rightarrow> db \<Rightarrow> (exn + nat option) \<times> db" where
  "importRepo_create ctx source createdBy =
     store_call ctx ImportCreate (\<lambda>d.
       (fresh_id (map imports_id (db_imports d)),
        d\<lparr>db_imports := db_imports d @
             [\<lparr>imports_id = fresh_id (map imports_id (db_imports d)), imports_source = source,
               imports_createdBy = createdBy, imports_status = Pending\<rparr>]\<rparr>))"

text \<open>
  Modelled from the spec: the status of an import batch is set once, at the end of the
  call; the spec names no failure of this step.
\<close>

definition importRepo_update :: "import_status \<Rightarrow> nat \<Rightarrow> db \<Rightarrow> db" where
  "importRepo_update status importId d =
     d\<lparr>db_imports :=
          map (\<lambda>r. if imports_id r = importId then r\<lparr>imports_status := status\<rparr> else r)
            (db_imports d)\<rparr>"

definition labelRepo_bulkCreate :: "ctx \<Rightarrow> (nat \<Rightarrow> labels_row) list \<Rightarrow> db \<Rightarrow> (exn + nat list) \<times> db" where
  "labelRepo_bulkCreate ctx mk d =
     (case store_call ctx LabelBulkCreate (\<lambda>d.
             (map labels_id (assign_ids (fresh_id (map labels_id (db_labels d))) mk),
              d\<lparr>db_labels := db_labels d @ assign_ids (fresh_id (map labels_id (db_labels d))) mk\<rparr>)) d of
        (Inl e, d') \<Rightarrow> (Inl e, d')
      | (Inr None, d') \<Rightarrow> (Inr [], d')
      | (Inr (Some ids), d') \<Rightarrow> (Inr ids, d'))"

text \<open>A new list goes after the lists the board has.\<close>

definition listRepo_create :: "ctx \<Rightarrow> string \<Rightarrow> string \<Rightarrow> nat \<Rightarrow> nat \<Rightarrow> db \<Rightarrow> (exn + (nat \<times> string) option) \<times> db" where
  "listRepo_create ctx name createdBy boardId importId =
     store_call ctx ListCreate (\<lambda>d.
       ((fresh_id (map lists_id (db_lists d)), name),
        d\<lparr>db_lists := db_lists d @
             [\<lparr>lists_id = fresh_id (map lists_id (db_lists d)), lists_name = name,
               lists_boardId = boardId,
               lists_index =
                 length (filter (\<lambda>l. lists_boardId l = boardId \<and> \<not> lists_deleted l) (db_lists d)),
               lists_importId = Some importId, lists_createdBy = createdBy,
               lists_deleted = False\<rparr>]\<rparr>))"

text \<open>The created cards come back with their identifier and their public identifier.\<close>

definition cardRepo_bulkCreate :: "ctx \<Rightarrow> (nat \<Rightarrow> cards_row) list \<Rightarrow> db \<Rightarrow> (exn + (nat \<times> nat) list) \<times> db" where
  "cardRepo_bulkCreate ctx mk d =
     (case store_call ctx CardBulkCreate (\<lambda>d.
             (map (\<lambda>r. (cards_id r, cards_publicId r))
                (assign_ids (fresh_id (map cards_id (db_cards d))) mk),
              d\<lparr>db_cards := db_cards d @ assign_ids (fresh_id (map cards_id (db_cards d))) mk\<rparr>)) d of
        (Inl e, d') \<Rightarrow> (Inl e, d')
      | (Inr None, d') \<Rightarrow> (Inr [], d')
      | (Inr (Some created), d') \<Rightarrow> (Inr created, d'))"

definition cardActivityRepo_bulkCreate :: "ctx \<Rightarrow> cardActivities_row list \<Rightarrow> db \<Rightarrow> (exn + unit option) \<times> db" where
  "cardActivityRepo_bulkCreate ctx activities =
     store_call ctx ActivityBulkCreate
       (\<lambda>d. ((), d\<lparr>db_cardActivities := db_cardActivities d @ activities\<rparr>))"

definition cardRepo_bulkCreateCardLabelRelationship :: "ctx \<Rightarrow> (nat \<times> nat) list \<Rightarrow> db \<Rightarrow> (exn + unit option) \<times> db" where
  "cardRepo_bulkCreateCardLabelRelationship ctx relations =
     store_call ctx CardLabelBulkCreate
       (\<lambda>d. ((), d\<lparr>db_cardsToLabels := db_cardsToLabels d @ relations\<rparr>))"

text \<open>A new checklist goes after the checklists of its card, a new item after the items
  of its checklist; a new item is not completed.\<close>

definition checklistRepo_create :: "ctx \<Rightarrow> string \<Rightarrow> nat \<Rightarrow> string \<Rightarrow> db \<Rightarrow> (exn + nat option) \<times> db" where
  "checklistRepo_create ctx name cardId createdBy =
     store_call ctx ChecklistCreate (\<lambda>d.
       (fresh_id (map checklists_id (db_checklists d)),
        d\<lparr>db_checklists := db_checklists d @
             [\<lparr>checklists_id = fresh_id (map checklists_id (db_checklists d)),
               checklists_name = name, checklists_cardId = cardId,
               checklists_index =
                 length (filter (\<lambda>c. checklists_cardId c = cardId \<and> \<not> checklists_deleted c)
                           (db_checklists d)),
               checklists_createdBy = createdBy, checklists_deleted = False\<rparr>]\<rparr>))"

definition checklistRepo_createItem :: "ctx \<Rightarrow> string \<Rightarrow> nat \<Rightarrow> string \<Rightarrow> db \<Rightarrow> (exn + nat option) \<times> db" where
  "checklistRepo_createItem ctx title checklistId createdBy =
     store_call ctx ChecklistItemCreate (\<lambda>d.
       (fresh_id (map checklistItems_id (db_checklistItems d)),
        d\<lparr>db_checklistItems := db_checklistItems d @
             [\<lparr>checklistItems_id = fresh_id (map checklistItems_id (db_checklistItems d)),
               checklistItems_title = title, checklistItems_completed = False,
               checklistItems_checklistId = checklistId,
               checklistItems_index =
                 length (filter (\<lambda>i. checklistItems_checklistId i = checklistId
                                        \<and> \<not> checklistItems_deleted i) (db_checklistItems d)),
               checklistItems_createdBy = createdBy, checklistItems_deleted = False\<rparr>]\<rparr>))"

section \<open>The import\<close>

text \<open>
  A warning, with the values its template interpolates: the list name, then the card
  (its number from one for the first two, its title for the others), then the numbers of
  the checklist and of the item, and last the length before truncation.
\<close>

datatype warning =
    TitleTruncated string nat string nat
  | DescriptionTruncated string nat string nat
  | DuplicateLabelsRemoved string string
  | ChecklistNameTruncated string string nat nat
  | ItemTitleTruncated string string nat nat nat

record import_result =
  cardsCreated :: nat
  listsProcessed :: nat
  warnings :: "warning list"

record import_input =
  boardPublicId :: string
  data :: "json option"

text \<open>
  \<open>data\<close> is what \<^verbatim>\<open>JSON.parse(input.data)\<close> gives: \<open>None\<close> when it throws.
  The variables the loop over the lists updates:
\<close>

record state =
  st_db :: db
  st_warnings :: "warning list"
  st_existingLists :: "(nat \<times> string) list"
  st_allCreatedCards :: "(nat \<times> nat) list"

subsection \<open>Labels, once for the whole payload (lines 298 to 349)\<close>

definition allLabelNames :: "list_data list \<Rightarrow> string list" where
  "allLabelNames ls =
     js_set (map trim (filter (\<lambda>labelName. trim labelName \<noteq> [])
       (concat (map card_labels (concat (map list_cards ls))))))"

definition existingLabelMap :: "labels_row list \<Rightarrow> (string \<rightharpoonup> nat)" where
  "existingLabelMap existingLabels =
     fold (\<lambda>l m. m(toLowerCase (labels_name l) \<mapsto> labels_id l)) existingLabels Map.empty"

definition labelsToCreate :: "(string \<rightharpoonup> nat) \<Rightarrow> string list \<Rightarrow> string list" where
  "labelsToCreate labelMap names = filter (\<lambda>labelName. labelMap (toLowerCase labelName) = None) names"

definition colourCode :: "ctx \<Rightarrow> nat \<Rightarrow> string" where
  "colourCode ctx n =
     (if ctx_colours ctx = [] then ''#0d9488''
      else ctx_colours ctx ! (n mod length (ctx_colours ctx)))"

definition boardLabels :: "nat \<Rightarrow> db \<Rightarrow> labels_row list" where
  "boardLabels boardId d = filter (\<lambda>l. labels_boardId l = boardId \<and> \<not> labels_deleted l) (db_labels d)"

definition boardLists :: "nat \<Rightarrow> db \<Rightarrow> lists_row list" where
  "boardLists boardId d = filter (\<lambda>l. lists_boardId l = boardId \<and> \<not> lists_deleted l) (db_lists d)"

definition newLabelRows :: "ctx \<Rightarrow> string \<Rightarrow> nat \<Rightarrow> nat \<Rightarrow> nat \<Rightarrow> nat \<Rightarrow> string list \<Rightarrow> (nat \<Rightarrow> labels_row) list" where
  "newLabelRows ctx userId boardId importId uid0 existing names =
     map (\<lambda>(index, name) i.
            \<lparr>labels_id = i, labels_publicId = uid0 + index, labels_name = name,
             labels_colourCode = colourCode ctx (existing + index), labels_boardId = boardId,
             labels_importId = Some importId, labels_createdBy = userId,
             labels_deleted = False\<rparr>)
       (enumerate 0 names)"

definition addCreatedLabels :: "string list \<Rightarrow> nat list \<Rightarrow> (string \<rightharpoonup> nat) \<Rightarrow> (string \<rightharpoonup> nat)" where
  "addCreatedLabels names newLabels labelMap =
     fold (\<lambda>(name, i) m. m(toLowerCase name \<mapsto> i)) (zip names newLabels) labelMap"

definition resolveLabels :: "ctx \<Rightarrow> string \<Rightarrow> nat \<Rightarrow> nat \<Rightarrow> list_data list \<Rightarrow> db \<Rightarrow> (exn + (string \<rightharpoonup> nat)) \<times> db" where
  "resolveLabels ctx userId boardId importId ls d =
     (let existingLabels = boardLabels boardId d;
          labelMap = existingLabelMap existingLabels;
          toCreate = labelsToCreate labelMap (allLabelNames ls)
      in if toCreate = [] then (Inr labelMap, d)
         else
           (case labelRepo_bulkCreate ctx
                   (newLabelRows ctx userId boardId importId (db_uid d) (length existingLabels) toCreate)
                   (d\<lparr>db_uid := db_uid d + length toCreate\<rparr>) of
              (Inl e, d') \<Rightarrow> (Inl e, d')
            | (Inr newLabels, d') \<Rightarrow> (Inr (addCreatedLabels toCreate newLabels labelMap), d')))"

subsection \<open>One list (lines 352 to 558)\<close>

text \<open>Lines 370 to 392.\<close>

definition findOrCreateList :: "ctx \<Rightarrow> string \<Rightarrow> nat \<Rightarrow> nat \<Rightarrow> list_data \<Rightarrow> state \<Rightarrow> (exn + (nat \<times> string)) \<times> state" where
  "findOrCreateList ctx userId boardId importId listData s =
     (case find (\<lambda>(i, name). name \<noteq> [] \<and> toLowerCase name = toLowerCase (listName listData))
             (st_existingLists s) of
        Some targetList \<Rightarrow> (Inr targetList, s)
      | None \<Rightarrow>
          (case listRepo_create ctx (listName listData) userId boardId importId (st_db s) of
             (Inl e, d) \<Rightarrow> (Inl e, s\<lparr>st_db := d\<rparr>)
           | (Inr None, d) \<Rightarrow>
               (Inl (TRPCError INTERNAL_SERVER_ERROR (FailedToCreateList (listName listData))),
                s\<lparr>st_db := d\<rparr>)
           | (Inr (Some (i, name)), d) \<Rightarrow>
               (if i = 0
                then (Inl (TRPCError INTERNAL_SERVER_ERROR (FailedToCreateList (listName listData))),
                      s\<lparr>st_db := d\<rparr>)
                else (Inr (i, name),
                      s\<lparr>st_db := d, st_existingLists := st_existingLists s @ [(i, name)]\<rparr>))))"

text \<open>
  Lines 394 to 408. \<^verbatim>\<open>generateUID\<close> is not among the sources; modelled from the spec,
  which has it give a unique public identifier per card: the identifiers are taken from a
  counter, \<open>uid0\<close> being its value before the first card.
\<close>

definition cardsToInsert :: "string \<Rightarrow> nat \<Rightarrow> nat \<Rightarrow> nat \<Rightarrow> card_data list \<Rightarrow> (nat \<Rightarrow> cards_row) list" where
  "cardsToInsert userId listId importId uid0 cs =
     map (\<lambda>(index, c) i.
            \<lparr>cards_id = i, cards_publicId = uid0 + index, cards_title = take 255 (card_title c),
             cards_description = take 10000 (card_description c), cards_listId = listId,
             cards_index = index, cards_importId = Some importId, cards_createdBy = userId,
             cards_deleted = False\<rparr>)
       (enumerate 0 cs)"

definition publicIdToCardData :: "nat \<Rightarrow> card_data list \<Rightarrow> (nat \<rightharpoonup> card_data)" where
  "publicIdToCardData uid0 cs = map_of (map (\<lambda>(index, c). (uid0 + index, c)) (enumerate 0 cs))"

text \<open>Lines 411 to 422.\<close>

definition truncationWarnings :: "string \<Rightarrow> card_data list \<Rightarrow> warning list" where
  "truncationWarnings name cs =
     concat (map (\<lambda>(index, c).
         (if length (card_title c) > 255
          then [TitleTruncated name (index + 1) (take 50 (card_title c)) (length (card_title c))]
          else [])
         @ (if card_description c \<noteq> [] \<and> length (card_description c) > 10000
            then [DescriptionTruncated name (index + 1) (card_title c) (length (card_description c))]
            else []))
       (enumerate 0 cs))"

text \<open>Lines 449 to 475, for one created card: its label relations and its warning.\<close>

definition uniqueLabels :: "card_data \<Rightarrow> string list" where
  "uniqueLabels cardData =
     js_set (map toLowerCase (filter (\<lambda>l. trim l \<noteq> []) (card_labels cardData)))"

definition cardLabelRelations :: "(string \<rightharpoonup> nat) \<Rightarrow> (nat \<rightharpoonup> card_data) \<Rightarrow> nat \<times> nat \<Rightarrow> (nat \<times> nat) list" where
  "cardLabelRelations labelMap cardDataOf createdCard =
     (case cardDataOf (snd createdCard) of
        None \<Rightarrow> []
      | Some cardData \<Rightarrow>
          (if card_labels cardData = [] then []
           else concat (map (\<lambda>labelName.
                  (case labelMap (toLowerCase labelName) of
                     None \<Rightarrow> []
                   | Some labelId \<Rightarrow> (if labelId = 0 then [] else [(fst createdCard, labelId)])))
                (uniqueLabels cardData))))"

definition duplicateLabelWarnings :: "string \<Rightarrow> (nat \<rightharpoonup> card_data) \<Rightarrow> nat \<times> nat \<Rightarrow> warning list" where
  "duplicateLabelWarnings name cardDataOf createdCard =
     (case cardDataOf (snd createdCard) of
        None \<Rightarrow> []
      | Some cardData \<Rightarrow>
          (if card_labels cardData = [] then []
           else if length (uniqueLabels cardData) < length (card_labels cardData)
           then [DuplicateLabelsRemoved name (card_title cardData)]
           else []))"

text \<open>Lines 529 to 555: the items of one checklist, from item number \<open>k\<close>.\<close>

fun createItems :: "ctx \<Rightarrow> string \<Rightarrow> string \<Rightarrow> string \<Rightarrow> nat \<Rightarrow> nat \<Rightarrow> nat \<Rightarrow> item_data list \<Rightarrow> state \<Rightarrow> (exn + unit) \<times> state" where
  "createItems ctx userId name title j checklistId k [] s = (Inr (), s)"
| "createItems ctx userId name title j checklistId k (itemData # items) s =
     (case checklistRepo_createItem ctx (take 500 (item_title itemData)) checklistId userId (st_db s) of
        (Inl e, d) \<Rightarrow> (Inl e, s\<lparr>st_db := d\<rparr>)
      | (Inr createdItem, d) \<Rightarrow>
          createItems ctx userId name title j checklistId (Suc k) items
            (s\<lparr>st_db := d,
               st_warnings := st_warnings s @
                 (if length (item_title itemData) > 500
                  then [ItemTitleTruncated name title (j + 1) (k + 1) (length (item_title itemData))]
                  else [])\<rparr>))"

text \<open>Lines 501 to 556: the checklists of one card, from checklist number \<open>j\<close>.\<close>

fun createChecklists :: "ctx \<Rightarrow> string \<Rightarrow> string \<Rightarrow> string \<Rightarrow> nat \<Rightarrow> nat \<Rightarrow> checklist_data list \<Rightarrow> state \<Rightarrow> (exn + unit) \<times> state" where
  "createChecklists ctx userId name title cardId j [] s = (Inr (), s)"
| "createChecklists ctx userId name title cardId j (checklistData # checklists) s =
     (case checklistRepo_create ctx (take 255 (checklist_name checklistData)) cardId userId (st_db s) of
        (Inl e, d) \<Rightarrow> (Inl e, s\<lparr>st_db := d\<rparr>)
      | (Inr None, d) \<Rightarrow>
          createChecklists ctx userId name title cardId (Suc j) checklists (s\<lparr>st_db := d\<rparr>)
      | (Inr (Some checklistId), d) \<Rightarrow>
          (if checklistId = 0
           then createChecklists ctx userId name title cardId (Suc j) checklists (s\<lparr>st_db := d\<rparr>)
           else
             (case createItems ctx userId name title j checklistId 0 (checklist_items checklistData)
                     (s\<lparr>st_db := d,
                        st_warnings := st_warnings s @
                          (if length (checklist_name checklistData) > 255
                           then [ChecklistNameTruncated name title (j + 1)
                                   (length (checklist_name checklistData))]
                           else [])\<rparr>) of
                (Inl e, s') \<Rightarrow> (Inl e, s')
              | (Inr u, s') \<Rightarrow>
                  createChecklists ctx userId name title cardId (Suc j) checklists s')))"

text \<open>Lines 488 to 557: the loop over the created cards.\<close>

fun createCardChecklists :: "ctx \<Rightarrow> string \<Rightarrow> string \<Rightarrow> (nat \<rightharpoonup> card_data) \<Rightarrow> (nat \<times> nat) list \<Rightarrow> state \<Rightarrow> (exn + unit) \<times> state" where
  "createCardChecklists ctx userId name cardDataOf [] s = (Inr (), s)"
| "createCardChecklists ctx userId name cardDataOf (createdCard # createdCards) s =
     (case cardDataOf (snd createdCard) of
        None \<Rightarrow> createCardChecklists ctx userId name cardDataOf createdCards s
      | Some cardData \<Rightarrow>
          (case createChecklists ctx userId name (card_title cardData) (fst createdCard) 0
                  (card_checklists cardData) s of
             (Inl e, s') \<Rightarrow> (Inl e, s')
           | (Inr u, s') \<Rightarrow> createCardChecklists ctx userId name cardDataOf createdCards s'))"

text \<open>Lines 437 to 482: the activities and the label relations of the created cards.\<close>

definition linkCreatedCards :: "ctx \<Rightarrow> string \<Rightarrow> string \<Rightarrow> (string \<rightharpoonup> nat) \<Rightarrow> (nat \<rightharpoonup> card_data) \<Rightarrow> (nat \<times> nat) list \<Rightarrow> state \<Rightarrow> (exn + unit) \<times> state" where
  "linkCreatedCards ctx userId name labelMap cardDataOf createdCards s =
     (case cardActivityRepo_bulkCreate ctx
             (map (\<lambda>c. \<lparr>cardActivities_type = ''card.created'', cardActivities_cardId = fst c,
                         cardActivities_createdBy = userId\<rparr>) createdCards) (st_db s) of
        (Inl e, d) \<Rightarrow> (Inl e, s\<lparr>st_db := d\<rparr>)
      | (Inr u, d) \<Rightarrow>
          (if concat (map (cardLabelRelations labelMap cardDataOf) createdCards) = []
           then (Inr (),
                 s\<lparr>st_db := d,
                    st_warnings := st_warnings s @
                      concat (map (duplicateLabelWarnings name cardDataOf) createdCards)\<rparr>)
           else
             (case cardRepo_bulkCreateCardLabelRelationship ctx
                     (concat (map (cardLabelRelations labelMap cardDataOf) createdCards)) d of
                (Inl e, d') \<Rightarrow>
                  (Inl e,
                   s\<lparr>st_db := d',
                      st_warnings := st_warnings s @
                        concat (map (duplicateLabelWarnings name cardDataOf) createdCards)\<rparr>)
              | (Inr u', d') \<Rightarrow>
                  (Inr (),
                   s\<lparr>st_db := d',
                      st_warnings := st_warnings s @
                        concat (map (duplicateLabelWarnings name cardDataOf) createdCards)\<rparr>))))"

text \<open>The body of the loop over the lists.\<close>

definition processList :: "ctx \<Rightarrow> string \<Rightarrow> nat \<Rightarrow> nat \<Rightarrow> (string \<rightharpoonup> nat) \<Rightarrow> list_data \<Rightarrow> state \<Rightarrow> (exn + unit) \<times> state" where
  "processList ctx userId boardId importId labelMap listData s =
     (if trim (listName listData) = [] then (Inl (TRPCError BAD_REQUEST InvalidListData), s)
      else if list_cards listData = [] then (Inr (), s)
      else
        (case findOrCreateList ctx userId boardId importId listData s of
           (Inl e, s1) \<Rightarrow> (Inl e, s1)
         | (Inr targetList, s1) \<Rightarrow>
             (case cardRepo_bulkCreate ctx
                     (cardsToInsert userId (fst targetList) importId (db_uid (st_db s1))
                        (list_cards listData))
                     ((st_db s1)\<lparr>db_uid := db_uid (st_db s1) + length (list_cards listData)\<rparr>) of
                (Inl e, d) \<Rightarrow>
                  (Inl e,
                   s1\<lparr>st_db := d,
                       st_warnings := st_warnings s1 @
                         truncationWarnings (listName listData) (list_cards listData)\<rparr>)
              | (Inr createdCards, d) \<Rightarrow>
                  (if createdCards = []
                   then (Inl (TRPCError INTERNAL_SERVER_ERROR (FailedToCreateCards (listName listData))),
                         s1\<lparr>st_db := d,
                             st_warnings := st_warnings s1 @
                               truncationWarnings (listName listData) (list_cards listData)\<rparr>)
                   else
                     (case linkCreatedCards ctx userId (listName listData) labelMap
                             (publicIdToCardData (db_uid (st_db s1)) (list_cards listData))
                             createdCards
                             (s1\<lparr>st_db := d,
                                 st_warnings := st_warnings s1 @
                                   truncationWarnings (listName listData) (list_cards listData),
                                 st_allCreatedCards := st_allCreatedCards s1 @ createdCards\<rparr>) of
                        (Inl e, s2) \<Rightarrow> (Inl e, s2)
                      | (Inr u, s2) \<Rightarrow>
                          createCardChecklists ctx userId (listName listData)
                            (publicIdToCardData (db_uid (st_db s1)) (list_cards listData))
                            createdCards s2)))))"

fun processLists :: "ctx \<Rightarrow> string \<Rightarrow> nat \<Rightarrow> nat \<Rightarrow> (string \<rightharpoonup> nat) \<Rightarrow> list_data list \<Rightarrow> state \<Rightarrow> (exn + unit) \<times> state" where
  "processLists ctx userId boardId importId labelMap [] s = (Inr (), s)"
| "processLists ctx userId boardId importId labelMap (listData # ls) s =
     (case processList ctx userId boardId importId labelMap listData s of
        (Inl e, s') \<Rightarrow> (Inl e, s')
      | (Inr u, s') \<Rightarrow> processLists ctx userId boardId importId labelMap ls s')"

subsection \<open>The whole call\<close>

text \<open>Lines 275 to 571: the body of the \<^verbatim>\<open>try\<close>.\<close>

definition tryImport :: "ctx \<Rightarrow> string \<Rightarrow> nat \<Rightarrow> nat \<Rightarrow> list_data list \<Rightarrow> db \<Rightarrow> (exn + import_result) \<times> db" where
  "tryImport ctx userId boardId importId listsToImport d =
     (case resolveLabels ctx userId boardId importId listsToImport d of
        (Inl e, d1) \<Rightarrow> (Inl e, d1)
      | (Inr labelMap, d1) \<Rightarrow>
          (case processLists ctx userId boardId importId labelMap listsToImport
                  \<lparr>st_db = d1, st_warnings = [],
                   st_existingLists = map (\<lambda>l. (lists_id l, lists_name l)) (boardLists boardId d),
                   st_allCreatedCards = []\<rparr> of
             (Inl e, s) \<Rightarrow> (Inl e, st_db s)
           | (Inr u, s) \<Rightarrow>
               (Inr \<lparr>cardsCreated = length (st_allCreatedCards s),
                     listsProcessed = length listsToImport,
                     warnings = st_warnings s\<rparr>,
                importRepo_update Success importId (st_db s))))"

text \<open>
  \<^verbatim>\<open>assertUserInWorkspace\<close> is not among the sources. Modelled from the spec: a caller
  who is not a member of the workspace that owns the board is refused.
\<close>

definition assertUserInWorkspace :: "string \<Rightarrow> workspaces_row \<Rightarrow> exn option" where
  "assertUserInWorkspace userId workspace =
     (if userId \<in> set (workspaces_members workspace) then None
      else Some (TRPCError FORBIDDEN NotWorkspaceMember))"

text \<open>Lines 230 to 256, shared by both procedures: the board, its workspace, the membership.\<close>

definition boardAccess :: "string \<Rightarrow> string \<Rightarrow> db \<Rightarrow> exn + boards_row" where
  "boardAccess userId publicId d =
     (case find (\<lambda>b. boards_publicId b = publicId) (db_boards d) of
        None \<Rightarrow> Inl (TRPCError NOT_FOUND BoardNotFound)
      | Some board \<Rightarrow>
          (case find (\<lambda>w. workspaces_id w = boards_workspaceId board) (db_workspaces d) of
             None \<Rightarrow> Inl (TRPCError NOT_FOUND WorkspaceNotFound)
           | Some workspace \<Rightarrow>
               (case assertUserInWorkspace userId workspace of
                  Some e \<Rightarrow> Inl e
                | None \<Rightarrow> Inr board)))"

text \<open>Lines 218 to 592: the call from the validated lists on.\<close>

definition importLists :: "ctx \<Rightarrow> string \<Rightarrow> string \<Rightarrow> list_data list \<Rightarrow> db \<Rightarrow> (exn + import_result) \<times> db" where
  "importLists ctx userId publicId listsToImport d =
     (case boardAccess userId publicId d of
        Inl e \<Rightarrow> (Inl e, d)
      | Inr board \<Rightarrow>
          (case importRepo_create ctx ''json'' userId d of
             (Inl e, d1) \<Rightarrow> (Inl e, d1)
           | (Inr None, d1) \<Rightarrow>
               (Inl (TRPCError INTERNAL_SERVER_ERROR FailedToCreateImportRecord), d1)
           | (Inr (Some newImportId), d1) \<Rightarrow>
               (if newImportId = 0
                then (Inl (TRPCError INTERNAL_SERVER_ERROR FailedToCreateImportRecord), d1)
                else
                  (case tryImport ctx userId (boards_id board) newImportId listsToImport d1 of
                     (Inl e, d2) \<Rightarrow>
                       (Inl (TRPCError INTERNAL_SERVER_ERROR (ImportFailed (exn_message e))),
                        importRepo_update Failed newImportId d2)
                   | (Inr r, d2) \<Rightarrow> (Inr r, d2)))))"

text \<open>Lines 75 to 216, then the rest: the mutation \<^verbatim>\<open>importCards\<close>.\<close>

definition importCards :: "ctx \<Rightarrow> import_input \<Rightarrow> db \<Rightarrow> (exn + import_result) \<times> db" where
  "importCards ctx input d =
     (case ctx_user ctx of
        None \<Rightarrow> (Inl (TRPCError UNAUTHORIZED UserNotAuthenticated), d)
      | Some userId \<Rightarrow>
          (if userId = [] then (Inl (TRPCError UNAUTHORIZED UserNotAuthenticated), d)
           else
             (case data input of
                None \<Rightarrow> (Inl (TRPCError BAD_REQUEST InvalidJsonFormat), d)
              | Some parsedData \<Rightarrow>
                  (case preprocess parsedData of
                     Inl e \<Rightarrow> (Inl e, d)
                   | Inr preprocessed \<Rightarrow>
                       (case ImportJsonSchema preprocessed of
                          None \<Rightarrow> (Inl (TRPCError BAD_REQUEST InvalidDataStructure), d)
                        | Some listsToImport \<Rightarrow>
                            importLists ctx userId (boardPublicId input) listsToImport d)))))"

section \<open>The export\<close>

text \<open>
  Lines 649 to 772. \<^verbatim>\<open>orderBy asc(index)\<close> is a stable sort on the index; the
  related label of a relation is the row of \<^verbatim>\<open>labels\<close> with its identifier, and reading
  the name of a label that is missing raises. The result is the value that is then
  serialised, in the shape of the import's lists.
\<close>

definition labelNameOf :: "db \<Rightarrow> nat \<Rightarrow> string option" where
  "labelNameOf d labelId = map_option labels_name (find (\<lambda>l. labels_id l = labelId) (db_labels d))"

definition exportItems :: "checklistItems_row list \<Rightarrow> checklists_row \<Rightarrow> item_data list" where
  "exportItems checklistItems checklist =
     map (\<lambda>item. \<lparr>item_title = checklistItems_title item,
                   item_completed = checklistItems_completed item\<rparr>)
       (filter (\<lambda>item. checklistItems_checklistId item = checklists_id checklist) checklistItems)"

definition exportCard :: "db \<Rightarrow> (nat \<times> nat) list \<Rightarrow> checklists_row list \<Rightarrow> checklistItems_row list \<Rightarrow> cards_row \<Rightarrow> card_data" where
  "exportCard d cardLabels checklists checklistItems c =
     \<lparr>card_title = cards_title c,
      card_description = cards_description c,
      card_labels = map (\<lambda>cl. the (labelNameOf d (snd cl)))
                      (filter (\<lambda>cl. fst cl = cards_id c) cardLabels),
      card_checklists =
        map (\<lambda>checklist. \<lparr>checklist_name = checklists_name checklist,
                            checklist_items = exportItems checklistItems checklist\<rparr>)
          (filter (\<lambda>cl. checklists_cardId cl = cards_id c) checklists)\<rparr>"

definition exportData :: "nat \<Rightarrow> db \<Rightarrow> exn + list_data list" where
  "exportData boardId d =
     (let lists = sort_key lists_index (boardLists boardId d);
          allCards = sort_key cards_index
            (filter (\<lambda>c. cards_listId c \<in> set (map lists_id lists) \<and> \<not> cards_deleted c) (db_cards d));
          cardIds = map cards_id allCards;
          cardLabels = filter (\<lambda>cl. fst cl \<in> set cardIds) (db_cardsToLabels d);
          checklists = sort_key checklists_index
            (filter (\<lambda>cl. checklists_cardId cl \<in> set cardIds \<and> \<not> checklists_deleted cl)
               (db_checklists d));
          checklistIds = map checklists_id checklists;
          checklistItems = sort_key checklistItems_index
            (filter (\<lambda>i. checklistItems_checklistId i \<in> set checklistIds \<and> \<not> checklistItems_deleted i)
               (db_checklistItems d))
      in if None \<in> set (map (\<lambda>cl. labelNameOf d (snd cl)) cardLabels)
         then Inl (StoreError MissingLabel)
         else Inr (map (\<lambda>l. \<lparr>listName = lists_name l,
                              list_cards = map (exportCard d cardLabels checklists checklistItems)
                                (filter (\<lambda>c. cards_listId c = lists_id l) allCards)\<rparr>)
                     lists))"

definition exportCards :: "ctx \<Rightarrow> string \<Rightarrow> db \<Rightarrow> exn + list_data list" where
  "exportCards ctx publicId d =
     (case ctx_user ctx of
        None \<Rightarrow> Inl (TRPCError UNAUTHORIZED UserNotAuthenticated)
      | Some userId \<Rightarrow>
          (if userId = [] then Inl (TRPCError UNAUTHORIZED UserNotAuthenticated)
           else
             (case boardAccess userId publicId d of
                Inl e \<Rightarrow> Inl e
              | Inr board \<Rightarrow> exportData (boards_id board) d)))"

section \<open>Fixtures\<close>

text \<open>
  A store holding one workspace with the member \<open>u1\<close> and one empty board; a caller
  \<open>u1\<close> on a store where every write succeeds; and the same caller with a chosen answer
  for one kind of call at one call number.
\<close>

definition db0 :: db where
  "db0 =
     \<lparr>db_boards = [\<lparr>boards_id = 1, boards_publicId = ''board0000001'', boards_workspaceId = 1\<rparr>],
      db_workspaces = [\<lparr>workspaces_id = 1, workspaces_members = [''u1'']\<rparr>],
      db_imports = [], db_lists = [], db_labels = [], db_cards = [], db_cardsToLabels = [],
      db_checklists = [], db_checklistItems = [], db_cardActivities = [],
      db_tick = 0, db_uid = 0\<rparr>"

definition ctx0 :: ctx where
  "ctx0 = \<lparr>ctx_user = Some ''u1'', ctx_outcome = (\<lambda>op t. Returns),
           ctx_colours = [''#0d9488'', ''#65a30d'', ''#0284c7'']\<rparr>"

definition ctx_with :: "store_op \<Rightarrow> nat \<Rightarrow> outcome \<Rightarrow> ctx" where
  "ctx_with op t r =
     ctx0\<lparr>ctx_outcome := (\<lambda>op' t'. if op' = op \<and> t' = t then r else Returns)\<rparr>"

text \<open>The payload objects of the examples.\<close>

definition jcard :: "string \<Rightarrow> string list \<Rightarrow> json" where
  "jcard title labels = JObj [(''title'', JStr title), (''labels'', JArr (map JStr labels))]"

definition jlist :: "string \<Rightarrow> json list \<Rightarrow> json" where
  "jlist name cs = JObj [(''listName'', JStr name), (''cards'', JArr cs)]"

definition jitem :: "string \<Rightarrow> bool \<Rightarrow> json" where
  "jitem title completed = JObj [(''title'', JStr title), (''completed'', JBool completed)]"

definition jchecklist :: "string \<Rightarrow> json list \<Rightarrow> json" where
  "jchecklist name items = JObj [(''name'', JStr name), (''items'', JArr items)]"

definition jcardWith :: "string \<Rightarrow> json list \<Rightarrow> json" where
  "jcardWith title checklists = JObj [(''title'', JStr title), (''checklists'', JArr checklists)]"

definition payload :: "json \<Rightarrow> import_input" where
  "payload v = \<lparr>boardPublicId = ''board0000001'', data = Some v\<rparr>"

section \<open>Predicates of the claims\<close>

text \<open>
  A card that is no object (null, a boolean, a number or a string); an entry of an array
  of lists whose name is missing, empty or no string, or one of whose cards is no object;
  a payload with such a list or card.
\<close>

definition nonObjectCard :: "json \<Rightarrow> bool" where
  "nonObjectCard c = (\<not> truthy c \<or> \<not> typeof_object c)"

definition unusableList :: "json \<Rightarrow> bool" where
  "unusableList l = (\<not> truthyString (getProp l ''listName'')
       \<or> (\<exists>c \<in> set (elems (getProp l ''cards'')). nonObjectCard c))"

fun structurallyUnusable :: "json \<Rightarrow> bool" where
  "structurallyUnusable (JArr ls) = (\<exists>l \<in> set ls. unusableList l)"
| "structurallyUnusable (JObj fs) = (\<exists>c \<in> set (elems (map_of fs ''cards'')). nonObjectCard c)"
| "structurallyUnusable v = False"


subsection \<open>Payloads beyond the bounds\<close>

text \<open>
  A payload with a string beyond its bound in a place the preprocessor keeps: a card
  title or description, the name of a checklist, or the title of an item of a checklist
  that has a name.
\<close>

fun longerThan :: "nat \<Rightarrow> json option \<Rightarrow> bool" where
  "longerThan n (Some (JStr s)) = (n < length s)"
| "longerThan n _ = False"

definition oversizeItem :: "json \<Rightarrow> bool" where
  "oversizeItem item = longerThan 500 (getProp item ''title'')"

definition oversizeChecklist :: "json \<Rightarrow> bool" where
  "oversizeChecklist cl =
     (longerThan 255 (getProp cl ''name'')
      \<or> (truthyString (getProp cl ''name'')
          \<and> (\<exists>item \<in> set (elems (getProp cl ''items'')). oversizeItem item)))"

definition oversizeCard :: "json \<Rightarrow> bool" where
  "oversizeCard c =
     (longerThan 255 (getProp c ''title'')
      \<or> longerThan 10000 (getProp c ''description'')
      \<or> (\<exists>cl \<in> set (elems (getProp c ''checklists'')). oversizeChecklist cl))"

definition oversizeList :: "json \<Rightarrow> bool" where
  "oversizeList l = (\<exists>c \<in> set (elems (getProp l ''cards'')). oversizeCard c)"

fun oversizePayload :: "json \<Rightarrow> bool" where
  "oversizePayload (JArr ls) = (\<exists>l \<in> set ls. oversizeList l)"
| "oversizePayload (JObj fs) = oversizeList (JObj fs)"
| "oversizePayload v = False"

text \<open>
  Claim C2. Label names on the board should be unique ignoring case after an import. The
  code misses it: a card that names the new labels \<open>Bug\<close> and \<open>bug\<close> on an empty
  board has both created, since the names to create are compared with the labels the
  board had, not with one another.
\<close>

subsection \<open>What a call leaves in the store\<close>

text \<open>
  \<open>grows may xs ys\<close>: the table \<open>ys\<close> comes from \<open>xs\<close> by appending rows, and by
  appending none unless it \<open>may\<close>. \<open>changes ops d d'\<close>: the store \<open>d'\<close> comes from
  \<open>d\<close> by write calls of the kinds \<open>ops\<close>; every table has grown, and a table that
  no call of \<open>ops\<close> writes is the same in both.
\<close>

definition grows :: "bool \<Rightarrow> 'a list \<Rightarrow> 'a list \<Rightarrow> bool" where
  "grows may xs ys = (prefix xs ys \<and> (may \<or> ys = xs))"

definition changes :: "store_op set \<Rightarrow> db \<Rightarrow> db \<Rightarrow> bool" where
  "changes ops d d' =
     (grows (ImportCreate \<in> ops) (db_imports d) (db_imports d')
      \<and> grows (ListCreate \<in> ops) (db_lists d) (db_lists d')
      \<and> grows (LabelBulkCreate \<in> ops) (db_labels d) (db_labels d')
      \<and> grows (CardBulkCreate \<in> ops) (db_cards d) (db_cards d')
      \<and> grows (CardLabelBulkCreate \<in> ops) (db_cardsToLabels d) (db_cardsToLabels d')
      \<and> grows (ChecklistCreate \<in> ops) (db_checklists d) (db_checklists d')
      \<and> grows (ChecklistItemCreate \<in> ops) (db_checklistItems d) (db_checklistItems d')
      \<and> grows (ActivityBulkCreate \<in> ops) (db_cardActivities d) (db_cardActivities d')
      \<and> db_boards d' = db_boards d \<and> db_workspaces d' = db_workspaces d)"

text \<open>
  \<open>persisted d d'\<close>: the rows of the lists, labels, cards, label relations, checklists,
  items and activities of \<open>d\<close> are still there in \<open>d'\<close>, unchanged and in their place.
\<close>

definition persisted :: "db \<Rightarrow> db \<Rightarrow> bool" where
  "persisted d d' =
     (prefix (db_lists d) (db_lists d') \<and> prefix (db_labels d) (db_labels d')
      \<and> prefix (db_cards d) (db_cards d') \<and> prefix (db_cardsToLabels d) (db_cardsToLabels d')
      \<and> prefix (db_checklists d) (db_checklists d')
      \<and> prefix (db_checklistItems d) (db_checklistItems d')
      \<and> prefix (db_cardActivities d) (db_cardActivities d'))"

text \<open>The kinds of write call made while one list is processed.\<close>

definition listOps :: "store_op set" where
  "listOps = {ListCreate, CardBulkCreate, ActivityBulkCreate, CardLabelBulkCreate,
              ChecklistCreate, ChecklistItemCreate}"

subsection \<open>More fixtures\<close>

definition state0 :: state where
  "state0 = \<lparr>st_db = db0, st_warnings = [], st_existingLists = [], st_allCreatedCards = []\<rparr>"

definition emptyList :: "string \<Rightarrow> list_data" where
  "emptyList name = \<lparr>listName = name, list_cards = []\<rparr>"

definition oneCardList :: "string \<Rightarrow> string \<Rightarrow> list_data" where
  "oneCardList name title =
     \<lparr>listName = name,
      list_cards = [\<lparr>card_title = title, card_description = [], card_labels = [],
                     card_checklists = []\<rparr>]\<rparr>"

subsection \<open>The loop over the lists\<close>

text \<open>The state in which the loop over the lists starts.\<close>

definition initialState :: "nat \<Rightarrow> db \<Rightarrow> db \<Rightarrow> state" where
  "initialState boardId d d1 =
     \<lparr>st_db = d1, st_warnings = [],
      st_existingLists = map (\<lambda>l. (lists_id l, lists_name l)) (boardLists boardId d),
      st_allCreatedCards = []\<rparr>"

text \<open>The status of the import batches with a given identifier.\<close>

definition batchStatus :: "nat \<Rightarrow> db \<Rightarrow> import_status list" where
  "batchStatus importId d = map imports_status (filter (\<lambda>r. imports_id r = importId) (db_imports d))"

text \<open>A store that raises at the third bulk insert of cards, and three lists of one card.\<close>

definition ctxFail :: ctx where
  "ctxFail = ctx_with CardBulkCreate 5 Raises"

subsection \<open>A board with a list, a card and a label\<close>

text \<open>
  A board that has the list \<open>To Do\<close> with one card, and the label \<open>bug\<close>; the state of
  the loop on it; and a list of two cards for it, the second with a label.
\<close>

definition db1 :: db where
  "db1 = db0
     \<lparr>db_lists := [\<lparr>lists_id = 1, lists_name = ''To Do'', lists_boardId = 1, lists_index = 0,
                     lists_importId = None, lists_createdBy = ''u1'', lists_deleted = False\<rparr>],
      db_labels := [\<lparr>labels_id = 1, labels_publicId = 100, labels_name = ''bug'',
                      labels_colourCode = ''#111111'', labels_boardId = 1, labels_importId = None,
                      labels_createdBy = ''u1'', labels_deleted = False\<rparr>],
      db_cards := [\<lparr>cards_id = 1, cards_publicId = 101, cards_title = ''old'',
                     cards_description = [], cards_listId = 1, cards_index = 0,
                     cards_importId = None, cards_createdBy = ''u1'', cards_deleted = False\<rparr>]\<rparr>"

definition state1 :: state where
  "state1 = \<lparr>st_db = db1, st_warnings = [], st_existingLists = [(1, ''To Do'')],
             st_allCreatedCards = []\<rparr>"

definition twoCardList :: "string \<Rightarrow> string \<Rightarrow> list_data" where
  "twoCardList name label =
     \<lparr>listName = name,
      list_cards = [\<lparr>card_title = ''a'', card_description = [], card_labels = [],
                     card_checklists = []\<rparr>,
                    \<lparr>card_title = ''b'', card_description = [], card_labels = [label],
                     card_checklists = []\<rparr>]\<rparr>"

subsection \<open>Stores that fail on checklists only\<close>

text \<open>
  A store that never raises, and that returns a result for every write call but, perhaps,
  the creation of a checklist or of a checklist item.
\<close>

definition checklistFailuresOnly :: "ctx \<Rightarrow> bool" where
  "checklistFailuresOnly ctx =
     (\<forall>op t. ctx_outcome ctx op t \<noteq> Raises
        \<and> (op = ChecklistCreate \<or> op = ChecklistItemCreate \<or> ctx_outcome ctx op t = Returns))"

definition totalCards :: "list_data list \<Rightarrow> nat" where
  "totalCards ls = length (concat (map list_cards ls))"

text \<open>A list of one card with two checklists of one item each.\<close>

definition checklistList :: list_data where
  "checklistList =
     \<lparr>listName = ''A'',
      list_cards =
        [\<lparr>card_title = ''t'', card_description = [], card_labels = [],
          card_checklists =
            [\<lparr>checklist_name = ''first'',
              checklist_items = [\<lparr>item_title = ''i1'', item_completed = False\<rparr>]\<rparr>,
             \<lparr>checklist_name = ''second'',
              checklist_items = [\<lparr>item_title = ''i2'', item_completed = False\<rparr>]\<rparr>]\<rparr>]\<rparr>"

text \<open>
  A store that returns nothing for the fifth write call if it creates a checklist and for
  the seventh if it creates an item, and the states of the loop at these calls.
\<close>

definition ctxSkip :: ctx where
  "ctxSkip =
     ctx0\<lparr>ctx_outcome := (\<lambda>op t. if (op = ChecklistCreate \<and> t = 4) \<or> (op = ChecklistItemCreate \<and> t = 6)
                                   then NoResult else Returns)\<rparr>"

definition stateAt :: "nat \<Rightarrow> state" where
  "stateAt t = state0\<lparr>st_db := db0\<lparr>db_tick := t\<rparr>\<rparr>"

subsection \<open>The cards of one list\<close>

text \<open>
  The part of the loop body that follows the choice of the target list: the cards, their
  activities and label relations, their checklists (lines 394 to 557).
\<close>

definition insertCards :: "ctx \<Rightarrow> string \<Rightarrow> nat \<Rightarrow> (string \<rightharpoonup> nat) \<Rightarrow> list_data \<Rightarrow> nat \<times> string \<Rightarrow> state \<Rightarrow> (exn + unit) \<times> state" where
  "insertCards ctx userId importId labelMap listData targetList s1 =
     (case cardRepo_bulkCreate ctx
             (cardsToInsert userId (fst targetList) importId (db_uid (st_db s1))
                (list_cards listData))
             ((st_db s1)\<lparr>db_uid := db_uid (st_db s1) + length (list_cards listData)\<rparr>) of
        (Inl e, d) \<Rightarrow>
          (Inl e,
           s1\<lparr>st_db := d,
               st_warnings := st_warnings s1 @
                 truncationWarnings (listName listData) (list_cards listData)\<rparr>)
      | (Inr createdCards, d) \<Rightarrow>
          (if createdCards = []
           then (Inl (TRPCError INTERNAL_SERVER_ERROR (FailedToCreateCards (listName listData))),
                 s1\<lparr>st_db := d,
                     st_warnings := st_warnings s1 @
                       truncationWarnings (listName listData) (list_cards listData)\<rparr>)
           else
             (case linkCreatedCards ctx userId (listName listData) labelMap
                     (publicIdToCardData (db_uid (st_db s1)) (list_cards listData))
                     createdCards
                     (s1\<lparr>st_db := d,
                         st_warnings := st_warnings s1 @
                           truncationWarnings (listName listData) (list_cards listData),
                         st_allCreatedCards := st_allCreatedCards s1 @ createdCards\<rparr>) of
                (Inl e, s2) \<Rightarrow> (Inl e, s2)
              | (Inr u, s2) \<Rightarrow>
                  createCardChecklists ctx userId (listName listData)
                    (publicIdToCardData (db_uid (st_db s1)) (list_cards listData))
                    createdCards s2)))"


subsection \<open>A board with a padded label\<close>

text \<open>A board whose only label has a name that starts with a space.\<close>

definition dbPadded :: db where
  "dbPadded = db0
     \<lparr>db_labels := [\<lparr>labels_id = 1, labels_publicId = 100, labels_name = '' Bug'',
                      labels_colourCode = ''#111111'', labels_boardId = 1, labels_importId = None,
                      labels_createdBy = ''u1'', labels_deleted = False\<rparr>]\<rparr>"

definition labelledCard :: "string list \<Rightarrow> card_data" where
  "labelledCard labels =
     \<lparr>card_title = ''a'', card_description = [], card_labels = labels, card_checklists = []\<rparr>"

subsection \<open>The export, entity by entity\<close>

text \<open>The rows that the export reads for one list, card or checklist.\<close>

definition cardsOf :: "db \<Rightarrow> nat \<Rightarrow> cards_row list" where
  "cardsOf d listId = filter (\<lambda>c. cards_listId c = listId \<and> \<not> cards_deleted c) (db_cards d)"

definition relsOf :: "db \<Rightarrow> nat \<Rightarrow> (nat \<times> nat) list" where
  "relsOf d cardId = filter (\<lambda>r. fst r = cardId) (db_cardsToLabels d)"

definition checklistsOf :: "db \<Rightarrow> nat \<Rightarrow> checklists_row list" where
  "checklistsOf d cardId =
     filter (\<lambda>cl. checklists_cardId cl = cardId \<and> \<not> checklists_deleted cl) (db_checklists d)"

definition itemsOf :: "db \<Rightarrow> nat \<Rightarrow> checklistItems_row list" where
  "itemsOf d checklistId =
     filter (\<lambda>i. checklistItems_checklistId i = checklistId \<and> \<not> checklistItems_deleted i)
       (db_checklistItems d)"

text \<open>The export, list by list and card by card.\<close>

definition exportItemsOf :: "db \<Rightarrow> nat \<Rightarrow> item_data list" where
  "exportItemsOf d checklistId =
     map (\<lambda>item. \<lparr>item_title = checklistItems_title item,
                   item_completed = checklistItems_completed item\<rparr>)
       (sort_key checklistItems_index (itemsOf d checklistId))"

definition exportChecklistsOf :: "db \<Rightarrow> nat \<Rightarrow> checklist_data list" where
  "exportChecklistsOf d cardId =
     map (\<lambda>cl. \<lparr>checklist_name = checklists_name cl,
                 checklist_items = exportItemsOf d (checklists_id cl)\<rparr>)
       (sort_key checklists_index (checklistsOf d cardId))"

definition exportLabelsOf :: "db \<Rightarrow> nat \<Rightarrow> string list" where
  "exportLabelsOf d cardId = map (\<lambda>r. the (labelNameOf d (snd r))) (relsOf d cardId)"

definition exportCardOf :: "db \<Rightarrow> cards_row \<Rightarrow> card_data" where
  "exportCardOf d c =
     \<lparr>card_title = cards_title c, card_description = cards_description c,
      card_labels = exportLabelsOf d (cards_id c),
      card_checklists = exportChecklistsOf d (cards_id c)\<rparr>"

definition exportListOf :: "db \<Rightarrow> lists_row \<Rightarrow> list_data" where
  "exportListOf d l =
     \<lparr>listName = lists_name l,
      list_cards = map (exportCardOf d) (sort_key cards_index (cardsOf d (lists_id l)))\<rparr>"

definition exportLists :: "nat \<Rightarrow> db \<Rightarrow> list_data list" where
  "exportLists boardId d = map (exportListOf d) (sort_key lists_index (boardLists boardId d))"

text \<open>The label relations of the cards of a board.\<close>

definition boardRelations :: "nat \<Rightarrow> db \<Rightarrow> (nat \<times> nat) list" where
  "boardRelations boardId d =
     filter (\<lambda>r. fst r \<in> set (map cards_id
                 (filter (\<lambda>c. cards_listId c \<in> set (map lists_id (boardLists boardId d))
                              \<and> \<not> cards_deleted c) (db_cards d))))
       (db_cardsToLabels d)"

text \<open>What the export gives back for an item of the payload that was written: the title
  as it is stored, and not completed.\<close>

definition expectedItem :: "item_data \<Rightarrow> item_data" where
  "expectedItem itemData = \<lparr>item_title = take 500 (item_title itemData), item_completed = False\<rparr>"

text \<open>Referential integrity: a checklist is of a card of the store, an item is of a
  checklist of the store.\<close>

definition checklistsRef :: "db \<Rightarrow> bool" where
  "checklistsRef d = (set (map checklists_cardId (db_checklists d)) \<subseteq> set (map cards_id (db_cards d)))"

definition itemsRef :: "db \<Rightarrow> bool" where
  "itemsRef d =
     (set (map checklistItems_checklistId (db_checklistItems d))
        \<subseteq> set (map checklists_id (db_checklists d)))"

text \<open>The rows that the repositories write for an item, a checklist and a list.\<close>

definition newItemRow :: "db \<Rightarrow> string \<Rightarrow> nat \<Rightarrow> string \<Rightarrow> checklistItems_row" where
  "newItemRow d title checklistId createdBy =
     \<lparr>checklistItems_id = fresh_id (map checklistItems_id (db_checklistItems d)),
      checklistItems_title = title, checklistItems_completed = False,
      checklistItems_checklistId = checklistId,
      checklistItems_index = length (itemsOf d checklistId),
      checklistItems_createdBy = createdBy, checklistItems_deleted = False\<rparr>"

definition newChecklistRow :: "db \<Rightarrow> string \<Rightarrow> nat \<Rightarrow> string \<Rightarrow> checklists_row" where
  "newChecklistRow d name cardId createdBy =
     \<lparr>checklists_id = fresh_id (map checklists_id (db_checklists d)),
      checklists_name = name, checklists_cardId = cardId,
      checklists_index = length (checklistsOf d cardId),
      checklists_createdBy = createdBy, checklists_deleted = False\<rparr>"

definition newListRow :: "db \<Rightarrow> string \<Rightarrow> string \<Rightarrow> nat \<Rightarrow> nat \<Rightarrow> lists_row" where
  "newListRow d name createdBy boardId importId =
     \<lparr>lists_id = fresh_id (map lists_id (db_lists d)), lists_name = name,
      lists_boardId = boardId, lists_index = length (boardLists boardId d),
      lists_importId = Some importId, lists_createdBy = createdBy, lists_deleted = False\<rparr>"

subsection \<open>Checklists and items that are passed over\<close>

text \<open>
  What is left of the items of a checklist, and of the checklists of a card, when the
  creations that return no result are passed over: \<open>t\<close> is the number of the write call
  that creates the first of them, and every creation is one call.
\<close>

fun survivingItems :: "ctx \<Rightarrow> nat \<Rightarrow> item_data list \<Rightarrow> item_data list" where
  "survivingItems ctx t [] = []"
| "survivingItems ctx t (itemData # items) =
     (if ctx_outcome ctx ChecklistItemCreate t = Returns then [expectedItem itemData] else [])
     @ survivingItems ctx (Suc t) items"

fun survivingChecklists :: "ctx \<Rightarrow> nat \<Rightarrow> checklist_data list \<Rightarrow> checklist_data list" where
  "survivingChecklists ctx t [] = []"
| "survivingChecklists ctx t (checklistData # checklists) =
     (if ctx_outcome ctx ChecklistCreate t = Returns
      then \<lparr>checklist_name = take 255 (checklist_name checklistData),
            checklist_items = survivingItems ctx (Suc t) (checklist_items checklistData)\<rparr>
           # survivingChecklists ctx (Suc t + length (checklist_items checklistData)) checklists
      else survivingChecklists ctx (Suc t) checklists)"

text \<open>A store that does not raise when a checklist or an item is created.\<close>

definition checklistsNeverRaise :: "ctx \<Rightarrow> bool" where
  "checklistsNeverRaise ctx =
     (\<forall>t. ctx_outcome ctx ChecklistCreate t \<noteq> Raises
          \<and> ctx_outcome ctx ChecklistItemCreate t \<noteq> Raises)"

text \<open>The lists that the loop knows are lists of the board.\<close>

definition knownLists :: "nat \<Rightarrow> state \<Rightarrow> bool" where
  "knownLists boardId s =
     (set (st_existingLists s)
        \<subseteq> (\<lambda>r. (lists_id r, lists_name r)) ` set (boardLists boardId (st_db s)))"

text \<open>
  The cards of a payload, each with its list and its position in the list; and what the
  store holds for one of them after an import on which creations of checklists and items
  may have returned nothing: a row with the position as its index, with the title and the
  description cut to their bounds, in a list of the board that has the name of the card's
  list ignoring case, with the checklists and items that were not passed over.
\<close>

definition listCards :: "list_data \<Rightarrow> (list_data \<times> nat \<times> card_data) list" where
  "listCards listData = map (\<lambda>(index, cardData). (listData, index, cardData))
                          (enumerate 0 (list_cards listData))"

definition payloadCards :: "list_data list \<Rightarrow> (list_data \<times> nat \<times> card_data) list" where
  "payloadCards ls = concat (map listCards ls)"

definition cardWritten :: "ctx \<Rightarrow> nat \<Rightarrow> db \<Rightarrow> cards_row \<Rightarrow> list_data \<times> nat \<times> card_data \<Rightarrow> bool" where
  "cardWritten ctx boardId d row p =
     (case p of (listData, index, cardData) \<Rightarrow>
        cards_index row = index
      \<and> cards_title row = take 255 (card_title cardData)
      \<and> cards_description row = take 10000 (card_description cardData)
      \<and> \<not> cards_deleted row
      \<and> (\<exists>lr \<in> set (boardLists boardId d). lists_id lr = cards_listId row
            \<and> toLowerCase (lists_name lr) = toLowerCase (listName listData))
      \<and> (\<exists>t. exportChecklistsOf d (cards_id row)
                = survivingChecklists ctx t (card_checklists cardData)))"

section \<open>Validation failures\<close>

lemma preprocessCard_error: "preprocessCard n c = Inl e \<Longrightarrow> \<exists>m. e = TRPCError BAD_REQUEST m"
  by (auto simp: preprocessCard_def split: if_splits)

lemma preprocessCards_error: "preprocessCards n cs = Inl e \<Longrightarrow> \<exists>m. e = TRPCError BAD_REQUEST m"
  by (induction cs arbitrary: n) (auto split: sum.splits dest: preprocessCard_error)

lemma preprocessList_error: "preprocessList n l = Inl e \<Longrightarrow> \<exists>m. e = TRPCError BAD_REQUEST m"
  by (auto simp: preprocessList_def split: if_splits sum.splits dest: preprocessCards_error)

lemma preprocessLists_error: "preprocessLists n ls = Inl e \<Longrightarrow> \<exists>m. e = TRPCError BAD_REQUEST m"
  by (induction ls arbitrary: n) (auto split: sum.splits dest: preprocessList_error)

lemma preprocess_error: "preprocess v = Inl e \<Longrightarrow> \<exists>m. e = TRPCError BAD_REQUEST m"
  by (cases v) (auto split: sum.splits if_splits dest: preprocessLists_error preprocessCards_error)

lemma preprocessCards_nonObject:
  "\<exists>c \<in> set cs. nonObjectCard c \<Longrightarrow> isl (preprocessCards n cs)"
proof (induction cs arbitrary: n)
  case Nil
  then show ?case by simp
next
  case (Cons c cs)
  show ?case
  proof (cases "nonObjectCard c")
    case True
    then have "isl (preprocessCard n c)" by (simp add: nonObjectCard_def preprocessCard_def)
    then show ?thesis by (auto split: sum.splits)
  next
    case False
    with Cons.prems have "\<exists>c \<in> set cs. nonObjectCard c" by auto
    then have "isl (preprocessCards (Suc n) cs)" by (rule Cons.IH)
    then show ?thesis by (auto split: sum.splits)
  qed
qed

lemma elems_isArray: "\<not> isArray v \<Longrightarrow> elems v = []"
  by (cases v rule: isArray.cases) auto

lemma preprocessList_unusable:
  assumes "unusableList l"
  shows "isl (preprocessList n l)"
proof (cases "truthyString (getProp l ''listName'')")
  case False
  then show ?thesis by (simp add: preprocessList_def)
next
  case True
  with assms have ex: "\<exists>c \<in> set (elems (getProp l ''cards'')). nonObjectCard c"
    by (simp add: unusableList_def)
  then have arr: "isArray (getProp l ''cards'')" using elems_isArray by fastforce
  from ex have "isl (preprocessCards 0 (elems (getProp l ''cards'')))"
    by (rule preprocessCards_nonObject)
  with arr show ?thesis by (auto simp: preprocessList_def split: sum.splits)
qed

lemma preprocessLists_unusable: "\<exists>l \<in> set ls. unusableList l \<Longrightarrow> isl (preprocessLists n ls)"
proof (induction ls arbitrary: n)
  case Nil
  then show ?case by simp
next
  case (Cons l ls)
  show ?case
  proof (cases "unusableList l")
    case True
    then have "isl (preprocessList n l)" by (rule preprocessList_unusable)
    then show ?thesis by (auto split: sum.splits)
  next
    case False
    with Cons.prems have "\<exists>l \<in> set ls. unusableList l" by auto
    then have "isl (preprocessLists (Suc n) ls)" by (rule Cons.IH)
    then show ?thesis by (auto split: sum.splits)
  qed
qed

lemma preprocess_unusable: "structurallyUnusable v \<Longrightarrow> isl (preprocess v)"
proof (cases v)
  case (JArr ls)
  assume "structurallyUnusable v"
  with JArr have "isl (preprocessLists 0 ls)" by (simp add: preprocessLists_unusable)
  with JArr show ?thesis by (auto split: sum.splits)
next
  case (JObj fs)
  assume u: "structurallyUnusable v"
  with JObj have ex: "\<exists>c \<in> set (elems (map_of fs ''cards'')). nonObjectCard c" by simp
  then have "isArray (map_of fs ''cards'')" using elems_isArray by fastforce
  moreover have "map_of fs ''cards'' \<noteq> None" using ex by (cases "map_of fs ''cards''") auto
  moreover have "isl (preprocessCards 0 (elems (map_of fs ''cards'')))"
    using ex by (rule preprocessCards_nonObject)
  ultimately show ?thesis using JObj by (auto split: sum.splits)
qed auto

text \<open>
  Claim C5. For an authenticated caller, an import whose payload cannot be parsed, or
  holds a structurally unusable list or card, or is refused by the schema after
  preprocessing, raises a \<open>BAD_REQUEST\<close> error and leaves the store as it was: no entity
  is written and no import batch is created.
\<close>

theorem validation_failure_writes_nothing:
  assumes "ctx_user ctx = Some userId" and "userId \<noteq> []"
    and "data input = None
         \<or> (\<exists>v. data input = Some v
                \<and> (structurallyUnusable v \<or> (\<exists>p. preprocess v = Inr p \<and> ImportJsonSchema p = None)))"
  shows "\<exists>m. importCards ctx input d = (Inl (TRPCError BAD_REQUEST m), d)"
  using assms(3)
proof (elim disjE exE conjE)
  assume "data input = None"
  with assms(1,2) show ?thesis by (simp add: importCards_def)
next
  fix v
  assume v: "data input = Some v" and "structurallyUnusable v"
  then obtain e where e: "preprocess v = Inl e"
    using preprocess_unusable[of v] by (cases "preprocess v") auto
  then obtain m where "e = TRPCError BAD_REQUEST m" using preprocess_error by blast
  with e v assms(1,2) show ?thesis by (simp add: importCards_def)
next
  fix v p
  assume "data input = Some v" "preprocess v = Inr p" "ImportJsonSchema p = None"
  with assms(1,2) show ?thesis by (simp add: importCards_def)
qed

theorem validation_failure_writes_nothing_witness:
  "\<exists>m. importCards ctx0 (payload (JArr [jlist ''A'' [JNum 3]])) db0 = (Inl (TRPCError BAD_REQUEST m), db0)"
  using validation_failure_writes_nothing[of ctx0 "''u1''" "payload (JArr [jlist ''A'' [JNum 3]])" db0]
  by (simp add: ctx0_def payload_def jlist_def unusableList_def nonObjectCard_def)


section \<open>Strings beyond their bounds\<close>

lemma those_None: "x \<in> set xs \<Longrightarrow> f x = None \<Longrightarrow> those (map f xs) = None"
  by (induction xs) (auto split: option.splits)

lemma longerThan_cases:
  assumes "longerThan n v"
  obtains s where "v = Some (JStr s)" "n < length s"
  using assms by (cases "(n, v)" rule: longerThan.cases) auto

lemma z_string_longer: "longerThan hi v \<Longrightarrow> z_string lo hi v = None"
  by (erule longerThan_cases) simp

lemma oversizeItem_valid: "oversizeItem item \<Longrightarrow> itemIsValid item"
  unfolding oversizeItem_def itemIsValid_def
  by (erule longerThan_cases) (cases item; auto)

lemma oversizeItem_rejected: "oversizeItem item \<Longrightarrow> ChecklistItemSchema (processItem item) = None"
  unfolding oversizeItem_def processItem_def
  by (erule longerThan_cases) simp

lemma oversizeChecklist_valid: "oversizeChecklist cl \<Longrightarrow> checklistIsValid cl"
  unfolding oversizeChecklist_def checklistIsValid_def
  by (cases cl; auto elim!: longerThan_cases)

lemma oversizeChecklist_rejected:
  assumes "oversizeChecklist cl"
  shows "ChecklistSchema (processChecklist cl) = None"
proof (cases "longerThan 255 (getProp cl ''name'')")
  case True
  then show ?thesis by (auto simp: processChecklist_def elim!: longerThan_cases)
next
  case False
  with assms obtain item where item: "item \<in> set (elems (getProp cl ''items''))" "oversizeItem item"
    by (auto simp: oversizeChecklist_def)
  then have arr: "isArray (getProp cl ''items'')" using elems_isArray by fastforce
  from item have "item \<in> set (filter itemIsValid (elems (getProp cl ''items'')))"
    by (simp add: oversizeItem_valid)
  then have "those (map ChecklistItemSchema
                 (map processItem (filter itemIsValid (elems (getProp cl ''items''))))) = None"
    using item(2) by (simp add: those_None[of item] oversizeItem_rejected comp_def)
  with arr show ?thesis by (simp add: processChecklist_def split: option.splits)
qed

lemma oversizeCard_rejected:
  assumes "oversizeCard c" and "preprocessCard n c = Inr c'"
  shows "CardSchema c' = None"
proof -
  from assms(2) have c': "c' = JObj
        [(''title'', coalesce (getProp c ''title'') (JStr [])),
         (''description'', coalesce (getProp c ''description'') (JStr [])),
         (''labels'',
            JArr (if isArray (getProp c ''labels'')
                  then filter (\<lambda>l. l \<noteq> JNull) (elems (getProp c ''labels''))
                  else [])),
         (''checklists'',
            JArr (if isArray (getProp c ''checklists'')
                  then map processChecklist
                         (filter checklistIsValid (elems (getProp c ''checklists'')))
                  else []))]"
    by (auto simp: preprocessCard_def split: if_splits)
  from assms(1) consider
      (title) "longerThan 255 (getProp c ''title'')"
    | (description) "longerThan 10000 (getProp c ''description'')"
    | (checklist) cl where "cl \<in> set (elems (getProp c ''checklists''))" "oversizeChecklist cl"
    by (auto simp: oversizeCard_def)
  then show ?thesis
  proof cases
    case title
    then show ?thesis unfolding c' by (auto simp: coalesce_def elim!: longerThan_cases)
  next
    case description
    then show ?thesis unfolding c'
      by (auto simp: coalesce_def elim!: longerThan_cases split: option.splits)
  next
    case checklist
    then have arr: "isArray (getProp c ''checklists'')" using elems_isArray by fastforce
    from checklist have "cl \<in> set (filter checklistIsValid (elems (getProp c ''checklists'')))"
      by (simp add: oversizeChecklist_valid)
    then have "those (map ChecklistSchema
                 (map processChecklist (filter checklistIsValid (elems (getProp c ''checklists''))))) = None"
      using checklist(2) by (simp add: those_None[of cl] oversizeChecklist_rejected comp_def)
    with arr show ?thesis unfolding c' by (simp split: option.splits)
  qed
qed

lemma oversizeCards_rejected:
  "\<exists>c \<in> set cs. oversizeCard c \<Longrightarrow> preprocessCards n cs = Inr cs' \<Longrightarrow> those (map CardSchema cs') = None"
proof (induction cs arbitrary: n cs')
  case Nil
  then show ?case by simp
next
  case (Cons c cs)
  from Cons.prems(2) obtain c' cs'' where
    c': "preprocessCard n c = Inr c'" and cs'': "preprocessCards (Suc n) cs = Inr cs''"
    and eq: "cs' = c' # cs''"
    by (auto split: sum.splits)
  show ?case
  proof (cases "oversizeCard c")
    case True
    then have "CardSchema c' = None" using c' by (rule oversizeCard_rejected)
    then show ?thesis by (simp add: eq)
  next
    case False
    with Cons.prems(1) have "\<exists>c \<in> set cs. oversizeCard c" by auto
    then have "those (map CardSchema cs'') = None" using cs'' by (rule Cons.IH)
    then show ?thesis by (simp add: eq split: option.splits)
  qed
qed

lemma oversizeList_rejected:
  assumes "oversizeList l" and "preprocessList n l = Inr l'"
  shows "ListSchema l' = None"
proof -
  from assms(1) have ex: "\<exists>c \<in> set (elems (getProp l ''cards'')). oversizeCard c"
    by (simp add: oversizeList_def)
  then have arr: "isArray (getProp l ''cards'')" using elems_isArray by fastforce
  from assms(2) arr obtain cs where
    cs: "preprocessCards 0 (elems (getProp l ''cards'')) = Inr cs"
    and l': "l' = JObj [(''listName'',
                           (case getProp l ''listName'' of
                              Some (JStr s) \<Rightarrow> JStr (trim s)
                            | _ \<Rightarrow> JNull)),
                        (''cards'', JArr cs)]"
    by (auto simp: preprocessList_def split: if_splits sum.splits)
  from ex cs have "those (map CardSchema cs) = None" by (rule oversizeCards_rejected)
  then show ?thesis unfolding l' by (simp split: option.splits)
qed

lemma oversizeLists_rejected:
  "\<exists>l \<in> set ls. oversizeList l \<Longrightarrow> preprocessLists n ls = Inr ls' \<Longrightarrow> those (map ListSchema ls') = None"
proof (induction ls arbitrary: n ls')
  case Nil
  then show ?case by simp
next
  case (Cons l ls)
  from Cons.prems(2) obtain l' ls'' where
    l': "preprocessList n l = Inr l'" and ls'': "preprocessLists (Suc n) ls = Inr ls''"
    and eq: "ls' = l' # ls''"
    by (auto split: sum.splits)
  show ?case
  proof (cases "oversizeList l")
    case True
    then have "ListSchema l' = None" using l' by (rule oversizeList_rejected)
    then show ?thesis by (simp add: eq)
  next
    case False
    with Cons.prems(1) have "\<exists>l \<in> set ls. oversizeList l" by auto
    then have "those (map ListSchema ls'') = None" using ls'' by (rule Cons.IH)
    then show ?thesis by (simp add: eq split: option.splits)
  qed
qed

lemma oversizePayload_rejected:
  assumes "oversizePayload v" and "preprocess v = Inr p"
  shows "ImportJsonSchema p = None"
proof (cases v)
  case (JArr ls)
  with assms(2) obtain ls' where ls': "preprocessLists 0 ls = Inr ls'" and p: "p = JArr ls'"
    by (auto split: sum.splits)
  from assms(1) JArr have "\<exists>l \<in> set ls. oversizeList l" by simp
  then have "those (map ListSchema ls') = None" using ls' by (rule oversizeLists_rejected)
  then show ?thesis by (simp add: p ImportJsonSchema_def)
next
  case (JObj fs)
  with assms(1) have ex: "\<exists>c \<in> set (elems (map_of fs ''cards'')). oversizeCard c"
    by (simp add: oversizeList_def)
  then have arr: "isArray (map_of fs ''cards'')" using elems_isArray by fastforce
  then have some: "map_of fs ''cards'' \<noteq> None" by (cases "map_of fs ''cards''") auto
  from assms(2) JObj arr some obtain cs where
    cs: "preprocessCards 0 (elems (map_of fs ''cards'')) = Inr cs"
    and p: "p = JObj ((case map_of fs ''listName'' of
                           None \<Rightarrow> []
                         | Some v \<Rightarrow> [(''listName'', v)])
                        @ [(''cards'', JArr cs)])"
    by (auto split: sum.splits)
  from ex cs have "those (map CardSchema cs) = None" by (rule oversizeCards_rejected)
  then show ?thesis unfolding p by (simp add: ImportJsonSchema_def split: option.splits)
qed (use assms in auto)

text \<open>
  The schema refuses every payload that holds a card title over 255 characters, a
  description over 10000, a checklist name over 255 or an item title over 500: the call
  raises a \<open>BAD_REQUEST\<close> error before any write. So the truncations of lines 401 to 422,
  508, 521 to 525, 538 and 550 to 554, and their warnings, are never reached.
\<close>

theorem oversize_payload_rejected:
  assumes "ctx_user ctx = Some userId" and "userId \<noteq> []"
    and "data input = Some v" and "oversizePayload v"
  shows "\<exists>m. importCards ctx input d = (Inl (TRPCError BAD_REQUEST m), d)"
proof (cases "preprocess v")
  case (Inl e)
  then obtain m where "e = TRPCError BAD_REQUEST m" using preprocess_error by blast
  with Inl assms show ?thesis by (simp add: importCards_def)
next
  case (Inr p)
  with assms(4) have "ImportJsonSchema p = None" by (rule oversizePayload_rejected)
  with Inr assms show ?thesis by (simp add: importCards_def)
qed

theorem oversize_payload_rejected_witness:
  "\<exists>m. importCards ctx0 (payload (JArr [jlist ''L'' [jcard (replicate 256 (CHR ''a'')) []]])) db0
        = (Inl (TRPCError BAD_REQUEST m), db0)"
  using oversize_payload_rejected[of ctx0 "''u1''"
      "payload (JArr [jlist ''L'' [jcard (replicate 256 (CHR ''a'')) []]])"
      "JArr [jlist ''L'' [jcard (replicate 256 (CHR ''a'')) []]]" db0]
  by (simp add: ctx0_def payload_def jlist_def jcard_def oversizeList_def oversizeCard_def)

text \<open>
  Claim C1. A card title over 255 characters is to be cut to 255 characters and reported
  by one warning. The code does not do it: an import of one card whose title has 256
  characters is refused by the schema, nothing is written and no warning is returned.
\<close>

theorem oversize_title_not_imported:
  "importCards ctx0 (payload (JArr [jlist ''L'' [jcard (replicate 256 (CHR ''a'')) []]])) db0
   = (Inl (TRPCError BAD_REQUEST InvalidDataStructure), db0)"
  by code_simp

section \<open>Labels that differ in case\<close>

text \<open>
  Claim C2. Label names that differ only in case are to resolve to one label. The code
  does not do it where the board has none of them: an import of one card with the labels
  \<open>Bug\<close> and \<open>bug\<close> onto a board without labels creates two labels.
\<close>

theorem labels_differing_in_case_both_created:
  "map labels_name
     (db_labels (snd (importCards ctx0 (payload (JArr [jlist ''L'' [jcard ''a'' [''Bug'', ''bug'']]])) db0)))
   = [''Bug'', ''bug'']"
  by code_simp

section \<open>What the write calls change\<close>

lemma grows_refl: "grows may xs xs"
  by (simp add: grows_def)

lemma grows_trans: "grows may xs ys \<Longrightarrow> grows may ys zs \<Longrightarrow> grows may xs zs"
  by (auto simp: grows_def)

lemma grows_mono: "grows may xs ys \<Longrightarrow> (may \<Longrightarrow> may') \<Longrightarrow> grows may' xs ys"
  by (auto simp: grows_def)

lemma grows_prefix: "grows may xs ys \<Longrightarrow> prefix xs ys"
  by (simp add: grows_def)

lemma grows_same: "grows False xs ys \<Longrightarrow> ys = xs"
  by (simp add: grows_def)

lemma grows_append: "grows True xs (xs @ zs)"
  by (simp add: grows_def)

lemma changes_refl: "changes ops d d"
  by (simp add: changes_def grows_refl)

lemma changes_trans: "changes ops a b \<Longrightarrow> changes ops b c \<Longrightarrow> changes ops a c"
  unfolding changes_def by (elim conjE, intro conjI) (erule (1) grows_trans | simp)+

lemma changes_mono: "changes ops d d' \<Longrightarrow> ops \<subseteq> ops' \<Longrightarrow> changes ops' d d'"
  unfolding changes_def by (elim conjE, intro conjI) ((erule grows_mono, blast) | assumption)+

lemma changes_uid_left: "changes ops (d\<lparr>db_uid := n\<rparr>) d' = changes ops d d'"
  by (simp add: changes_def)

lemma changes_persisted: "changes ops d d' \<Longrightarrow> persisted d d'"
  unfolding changes_def persisted_def by (elim conjE, intro conjI) (erule grows_prefix)+

lemma persisted_trans: "persisted a b \<Longrightarrow> persisted b c \<Longrightarrow> persisted a c"
  unfolding persisted_def by (elim conjE, intro conjI) (erule (1) prefix_order.trans)+

lemma persisted_update: "persisted d d' \<Longrightarrow> persisted d (importRepo_update status i d')"
  by (simp add: persisted_def importRepo_update_def)

lemma changes_tick: "changes ops d (d\<lparr>db_tick := n\<rparr>)"
  by (simp add: changes_def grows_refl grows_append)

lemma changes_tick_left: "changes ops (d\<lparr>db_tick := n\<rparr>) d' = changes ops d d'"
  by (simp add: changes_def grows_refl grows_append)

lemma store_call_result:
  assumes "store_call ctx op w d = (r, d')"
  shows "d' = d\<lparr>db_tick := Suc (db_tick d)\<rparr> \<or> d' = snd (w (d\<lparr>db_tick := Suc (db_tick d)\<rparr>))"
  using assms by (auto simp: store_call_def split: outcome.splits prod.splits)

lemma store_call_changes:
  assumes "store_call ctx op w d = (r, d')" and "\<And>d0. changes ops d0 (snd (w d0))"
  shows "changes ops d d'"
  using store_call_result[OF assms(1)] assms(2)[of "d\<lparr>db_tick := Suc (db_tick d)\<rparr>"]
  by (auto simp: changes_tick changes_tick_left)

lemma importRepo_create_changes:
  "importRepo_create ctx src u d = (r, d') \<Longrightarrow> changes {ImportCreate} d d'"
  unfolding importRepo_create_def by (erule store_call_changes) (simp add: changes_def grows_refl grows_append)

lemma listRepo_create_changes:
  "listRepo_create ctx name u b i d = (r, d') \<Longrightarrow> changes {ListCreate} d d'"
  unfolding listRepo_create_def by (erule store_call_changes) (simp add: changes_def grows_refl grows_append)

lemma labelRepo_bulkCreate_changes:
  assumes "labelRepo_bulkCreate ctx mk d = (r, d')"
  shows "changes {LabelBulkCreate} d d'"
proof -
  obtain r0 where "store_call ctx LabelBulkCreate (\<lambda>d.
             (map labels_id (assign_ids (fresh_id (map labels_id (db_labels d))) mk),
              d\<lparr>db_labels := db_labels d @ assign_ids (fresh_id (map labels_id (db_labels d))) mk\<rparr>)) d
       = (r0, d')"
    using assms unfolding labelRepo_bulkCreate_def
    by (auto split: prod.splits sum.splits option.splits)
  then show ?thesis by (rule store_call_changes) (simp add: changes_def grows_refl grows_append)
qed

lemma cardRepo_bulkCreate_changes:
  assumes "cardRepo_bulkCreate ctx mk d = (r, d')"
  shows "changes {CardBulkCreate} d d'"
proof -
  obtain r0 where "store_call ctx CardBulkCreate (\<lambda>d.
             (map (\<lambda>r. (cards_id r, cards_publicId r))
                (assign_ids (fresh_id (map cards_id (db_cards d))) mk),
              d\<lparr>db_cards := db_cards d @ assign_ids (fresh_id (map cards_id (db_cards d))) mk\<rparr>)) d
       = (r0, d')"
    using assms unfolding cardRepo_bulkCreate_def
    by (auto split: prod.splits sum.splits option.splits)
  then show ?thesis by (rule store_call_changes) (simp add: changes_def grows_refl grows_append)
qed

lemma cardActivityRepo_bulkCreate_changes:
  "cardActivityRepo_bulkCreate ctx as d = (r, d') \<Longrightarrow> changes {ActivityBulkCreate} d d'"
  unfolding cardActivityRepo_bulkCreate_def by (erule store_call_changes) (simp add: changes_def grows_refl grows_append)

lemma cardLabel_changes:
  "cardRepo_bulkCreateCardLabelRelationship ctx rels d = (r, d') \<Longrightarrow> changes {CardLabelBulkCreate} d d'"
  unfolding cardRepo_bulkCreateCardLabelRelationship_def
  by (erule store_call_changes) (simp add: changes_def grows_refl grows_append)

lemma checklistRepo_create_changes:
  "checklistRepo_create ctx name c u d = (r, d') \<Longrightarrow> changes {ChecklistCreate} d d'"
  unfolding checklistRepo_create_def by (erule store_call_changes) (simp add: changes_def grows_refl grows_append)

lemma checklistRepo_createItem_changes:
  "checklistRepo_createItem ctx title c u d = (r, d') \<Longrightarrow> changes {ChecklistItemCreate} d d'"
  unfolding checklistRepo_createItem_def by (erule store_call_changes) (simp add: changes_def grows_refl grows_append)

text \<open>The loops over items, checklists and cards: what they change, and what they leave.\<close>

lemma createItems_changes:
  "createItems ctx u name title j cl k items s = (r, s') \<Longrightarrow>
     changes {ChecklistItemCreate} (st_db s) (st_db s')
     \<and> st_existingLists s' = st_existingLists s \<and> st_allCreatedCards s' = st_allCreatedCards s"
proof (induction items arbitrary: k s)
  case Nil
  then show ?case by (auto simp: changes_refl)
next
  case (Cons it items)
  obtain r1 d1 where c: "checklistRepo_createItem ctx (take 500 (item_title it)) cl u (st_db s) = (r1, d1)"
    by (cases "checklistRepo_createItem ctx (take 500 (item_title it)) cl u (st_db s)")
  then have p: "changes {ChecklistItemCreate} (st_db s) d1" by (rule checklistRepo_createItem_changes)
  show ?case
  proof (cases r1)
    case (Inl e)
    with Cons.prems c p show ?thesis by auto
  next
    case (Inr x)
    with Cons.prems c have
      "changes {ChecklistItemCreate} d1 (st_db s')
       \<and> st_existingLists s' = st_existingLists s \<and> st_allCreatedCards s' = st_allCreatedCards s"
      using Cons.IH by fastforce
    with p show ?thesis by (blast intro: changes_trans)
  qed
qed

lemma createChecklists_changes:
  "createChecklists ctx u name title cardId j cls s = (r, s') \<Longrightarrow>
     changes {ChecklistCreate, ChecklistItemCreate} (st_db s) (st_db s')
     \<and> st_existingLists s' = st_existingLists s \<and> st_allCreatedCards s' = st_allCreatedCards s"
proof (induction cls arbitrary: j s)
  case Nil
  then show ?case by (auto simp: changes_refl)
next
  case (Cons c cls)
  let ?ops = "{ChecklistCreate, ChecklistItemCreate}"
  obtain r1 d1 where c: "checklistRepo_create ctx (take 255 (checklist_name c)) cardId u (st_db s) = (r1, d1)"
    by (cases "checklistRepo_create ctx (take 255 (checklist_name c)) cardId u (st_db s)")
  then have "changes {ChecklistCreate} (st_db s) d1" by (rule checklistRepo_create_changes)
  then have p: "changes ?ops (st_db s) d1" by (rule changes_mono) simp
  consider (raised) e where "r1 = Inl e"
    | (skipped) "r1 = Inr None \<or> r1 = Inr (Some 0)"
    | (created) i where "r1 = Inr (Some i)" "i \<noteq> 0"
    by (cases r1; cases "projr r1"; auto)
  then show ?case
  proof cases
    case raised
    with Cons.prems c p show ?thesis by auto
  next
    case skipped
    with Cons.prems c have
      "createChecklists ctx u name title cardId (Suc j) cls (s\<lparr>st_db := d1\<rparr>) = (r, s')"
      by auto
    from Cons.IH[OF this] p show ?thesis by (auto intro: changes_trans)
  next
    case created
    let ?s1 = "s\<lparr>st_db := d1,
                  st_warnings := st_warnings s @
                    (if length (checklist_name c) > 255
                     then [ChecklistNameTruncated name title (j + 1) (length (checklist_name c))]
                     else [])\<rparr>"
    obtain r2 s2 where it: "createItems ctx u name title j i 0 (checklist_items c) ?s1 = (r2, s2)"
      by (cases "createItems ctx u name title j i 0 (checklist_items c) ?s1")
    from createItems_changes[OF it] have
      q: "changes ?ops d1 (st_db s2)" "st_existingLists s2 = st_existingLists s"
         "st_allCreatedCards s2 = st_allCreatedCards s"
      by (auto intro: changes_mono)
    show ?thesis
    proof (cases r2)
      case (Inl e)
      with Cons.prems c created it have "s' = s2" by auto
      with p q show ?thesis by (auto intro: changes_trans)
    next
      case (Inr x)
      with Cons.prems c created it have
        "createChecklists ctx u name title cardId (Suc j) cls s2 = (r, s')" by auto
      from Cons.IH[OF this] p q show ?thesis by (auto intro: changes_trans)
    qed
  qed
qed

lemma createCardChecklists_changes:
  "createCardChecklists ctx u name cardDataOf created s = (r, s') \<Longrightarrow>
     changes {ChecklistCreate, ChecklistItemCreate} (st_db s) (st_db s')
     \<and> st_existingLists s' = st_existingLists s \<and> st_allCreatedCards s' = st_allCreatedCards s"
proof (induction created arbitrary: s)
  case Nil
  then show ?case by (auto simp: changes_refl)
next
  case (Cons c created)
  show ?case
  proof (cases "cardDataOf (snd c)")
    case None
    with Cons.prems have "createCardChecklists ctx u name cardDataOf created s = (r, s')" by simp
    then show ?thesis by (rule Cons.IH)
  next
    case (Some cardData)
    obtain r1 s1 where cl: "createChecklists ctx u name (card_title cardData) (fst c) 0
                              (card_checklists cardData) s = (r1, s1)"
      by (cases "createChecklists ctx u name (card_title cardData) (fst c) 0 (card_checklists cardData) s")
    note q = createChecklists_changes[OF cl]
    show ?thesis
    proof (cases r1)
      case (Inl e)
      with Cons.prems Some cl have "s' = s1" by auto
      with q show ?thesis by simp
    next
      case (Inr x)
      with Cons.prems Some cl have "createCardChecklists ctx u name cardDataOf created s1 = (r, s')"
        by auto
      from Cons.IH[OF this] q show ?thesis by (auto intro: changes_trans)
    qed
  qed
qed

lemma linkCreatedCards_changes:
  assumes "linkCreatedCards ctx u name labelMap cardDataOf created s = (r, s')"
  shows "changes {ActivityBulkCreate, CardLabelBulkCreate} (st_db s) (st_db s')
     \<and> st_existingLists s' = st_existingLists s \<and> st_allCreatedCards s' = st_allCreatedCards s"
proof -
  let ?ops = "{ActivityBulkCreate, CardLabelBulkCreate}"
  let ?acts = "map (\<lambda>c. \<lparr>cardActivities_type = ''card.created'', cardActivities_cardId = fst c,
                         cardActivities_createdBy = u\<rparr>) created"
  let ?rels = "concat (map (cardLabelRelations labelMap cardDataOf) created)"
  obtain r1 d1 where a: "cardActivityRepo_bulkCreate ctx ?acts (st_db s) = (r1, d1)"
    by (cases "cardActivityRepo_bulkCreate ctx ?acts (st_db s)")
  then have "changes {ActivityBulkCreate} (st_db s) d1" by (rule cardActivityRepo_bulkCreate_changes)
  then have p: "changes ?ops (st_db s) d1" by (rule changes_mono) simp
  show ?thesis
  proof (cases r1)
    case (Inl e)
    with assms a p show ?thesis by (auto simp: linkCreatedCards_def)
  next
    case (Inr x)
    show ?thesis
    proof (cases "?rels = []")
      case True
      with assms a Inr p show ?thesis by (auto simp: linkCreatedCards_def split: if_splits)
    next
      case False
      obtain r2 d2 where b: "cardRepo_bulkCreateCardLabelRelationship ctx ?rels d1 = (r2, d2)"
        by (cases "cardRepo_bulkCreateCardLabelRelationship ctx ?rels d1")
      then have "changes {CardLabelBulkCreate} d1 d2" by (rule cardLabel_changes)
      then have "changes ?ops d1 d2" by (rule changes_mono) simp
      with p have "changes ?ops (st_db s) d2" by (rule changes_trans)
      with assms a Inr False b show ?thesis
        by (cases r2) (auto simp: linkCreatedCards_def split: if_splits)
    qed
  qed
qed


lemma findOrCreateList_changes:
  assumes "findOrCreateList ctx u b i l s = (r, s')"
  shows "changes {ListCreate} (st_db s) (st_db s') \<and> prefix (st_existingLists s) (st_existingLists s')
         \<and> st_allCreatedCards s' = st_allCreatedCards s \<and> st_warnings s' = st_warnings s"
proof (cases "find (\<lambda>(i, name). name \<noteq> [] \<and> toLowerCase name = toLowerCase (listName l))
                (st_existingLists s)")
  case (Some t)
  with assms show ?thesis by (simp add: findOrCreateList_def changes_refl)
next
  case None
  obtain r1 d1 where c: "listRepo_create ctx (listName l) u b i (st_db s) = (r1, d1)"
    by (cases "listRepo_create ctx (listName l) u b i (st_db s)")
  then have "changes {ListCreate} (st_db s) d1" by (rule listRepo_create_changes)
  with assms None c show ?thesis
    by (auto simp: findOrCreateList_def split: sum.splits option.splits if_splits)
qed

lemma processList_blank:
  "trim (listName l) = [] \<Longrightarrow>
     processList ctx u b i lm l s = (Inl (TRPCError BAD_REQUEST InvalidListData), s)"
  by (simp add: processList_def)

lemma processList_empty:
  "trim (listName l) \<noteq> [] \<Longrightarrow> list_cards l = [] \<Longrightarrow> processList ctx u b i lm l s = (Inr (), s)"
  by (simp add: processList_def)

lemma processList_changes:
  assumes "processList ctx u b i lm l s = (r, s')"
  shows "changes listOps (st_db s) (st_db s') \<and> prefix (st_existingLists s) (st_existingLists s')"
proof (cases "trim (listName l) = [] \<or> list_cards l = []")
  case True
  with assms have "s' = s" by (auto simp: processList_def split: if_splits)
  then show ?thesis by (simp add: changes_refl)
next
  case False
  obtain r1 s1 where f: "findOrCreateList ctx u b i l s = (r1, s1)"
    by (cases "findOrCreateList ctx u b i l s")
  from findOrCreateList_changes[OF f] have
    p1: "changes listOps (st_db s) (st_db s1)" and e1: "prefix (st_existingLists s) (st_existingLists s1)"
    by (auto intro: changes_mono simp: listOps_def)
  show ?thesis
  proof (cases r1)
    case (Inl e)
    with assms False f p1 e1 show ?thesis by (auto simp: processList_def)
  next
    case (Inr target)
    let ?d1 = "(st_db s1)\<lparr>db_uid := db_uid (st_db s1) + length (list_cards l)\<rparr>"
    let ?w = "st_warnings s1 @ truncationWarnings (listName l) (list_cards l)"
    let ?lookup = "publicIdToCardData (db_uid (st_db s1)) (list_cards l)"
    obtain r2 d2 where c: "cardRepo_bulkCreate ctx
        (cardsToInsert u (fst target) i (db_uid (st_db s1)) (list_cards l)) ?d1 = (r2, d2)"
      by (cases "cardRepo_bulkCreate ctx
        (cardsToInsert u (fst target) i (db_uid (st_db s1)) (list_cards l)) ?d1")
    from cardRepo_bulkCreate_changes[OF c] have "changes {CardBulkCreate} (st_db s1) d2"
      by (simp add: changes_uid_left)
    then have "changes listOps (st_db s1) d2" by (rule changes_mono) (simp add: listOps_def)
    with p1 have p2: "changes listOps (st_db s) d2" by (rule changes_trans)
    show ?thesis
    proof (cases "\<exists>created. r2 = Inr created \<and> created \<noteq> []")
      case False
      with assms \<open>\<not> (trim (listName l) = [] \<or> list_cards l = [])\<close> f Inr c p2 e1 show ?thesis
        by (cases r2) (auto simp: processList_def)
    next
      case True
      then obtain created where cr: "r2 = Inr created" "created \<noteq> []" by blast
      let ?s2 = "s1\<lparr>st_db := d2, st_warnings := ?w,
                     st_allCreatedCards := st_allCreatedCards s1 @ created\<rparr>"
      obtain r3 s3 where lk: "linkCreatedCards ctx u (listName l) lm ?lookup created ?s2 = (r3, s3)"
        by (cases "linkCreatedCards ctx u (listName l) lm ?lookup created ?s2")
      from linkCreatedCards_changes[OF lk] have
        "changes {ActivityBulkCreate, CardLabelBulkCreate} d2 (st_db s3)"
        and e3: "st_existingLists s3 = st_existingLists s1" by auto
      then have "changes listOps d2 (st_db s3)" by (auto intro: changes_mono simp: listOps_def)
      with p2 have p3: "changes listOps (st_db s) (st_db s3)" by (rule changes_trans)
      show ?thesis
      proof (cases r3)
        case (Inl e)
        with assms \<open>\<not> (trim (listName l) = [] \<or> list_cards l = [])\<close> f Inr c cr lk
        have "s' = s3" by (auto simp: processList_def)
        with p3 e3 e1 show ?thesis by simp
      next
        case (Inr x)
        with assms \<open>\<not> (trim (listName l) = [] \<or> list_cards l = [])\<close> f \<open>r1 = Inr target\<close> c cr lk
        have "createCardChecklists ctx u (listName l) ?lookup created s3 = (r, s')"
          by (auto simp: processList_def)
        from createCardChecklists_changes[OF this] have
          "changes {ChecklistCreate, ChecklistItemCreate} (st_db s3) (st_db s')"
          and "st_existingLists s' = st_existingLists s3" by auto
        then have "changes listOps (st_db s3) (st_db s')" "st_existingLists s' = st_existingLists s3"
          by (auto intro: changes_mono simp: listOps_def)
        with p3 e3 e1 show ?thesis by (auto intro: changes_trans)
      qed
    qed
  qed
qed

lemma processLists_changes:
  "processLists ctx u b i lm ls s = (r, s') \<Longrightarrow>
     changes listOps (st_db s) (st_db s') \<and> prefix (st_existingLists s) (st_existingLists s')"
proof (induction ls arbitrary: s)
  case Nil
  then show ?case by (auto simp: changes_refl)
next
  case (Cons l ls)
  obtain r1 s1 where p: "processList ctx u b i lm l s = (r1, s1)"
    by (cases "processList ctx u b i lm l s")
  note q = processList_changes[OF p]
  show ?case
  proof (cases r1)
    case (Inl e)
    with Cons.prems p have "s' = s1" by auto
    with q show ?thesis by simp
  next
    case (Inr x)
    with Cons.prems p have "processLists ctx u b i lm ls s1 = (r, s')" by auto
    from Cons.IH[OF this] q show ?thesis by (auto intro: changes_trans)
  qed
qed

lemma resolveLabels_changes:
  assumes "resolveLabels ctx u b i ls d = (r, d')"
  shows "changes {LabelBulkCreate} d d'"
proof (cases "labelsToCreate (existingLabelMap (boardLabels b d)) (allLabelNames ls) = []")
  case True
  with assms show ?thesis by (simp add: resolveLabels_def changes_refl)
next
  case False
  let ?toCreate = "labelsToCreate (existingLabelMap (boardLabels b d)) (allLabelNames ls)"
  obtain r1 d1 where c: "labelRepo_bulkCreate ctx
       (newLabelRows ctx u b i (db_uid d) (length (boardLabels b d)) ?toCreate)
       (d\<lparr>db_uid := db_uid d + length ?toCreate\<rparr>) = (r1, d1)"
    by (cases "labelRepo_bulkCreate ctx
       (newLabelRows ctx u b i (db_uid d) (length (boardLabels b d)) ?toCreate)
       (d\<lparr>db_uid := db_uid d + length ?toCreate\<rparr>)")
  from labelRepo_bulkCreate_changes[OF c] have "changes {LabelBulkCreate} d d1"
    by (simp add: changes_uid_left)
  with assms False c show ?thesis
    by (cases r1) (auto simp: resolveLabels_def Let_def)
qed

lemma processLists_append:
  "processLists ctx u b i lm (xs @ ys) s =
     (case processLists ctx u b i lm xs s of
        (Inl e, s') \<Rightarrow> (Inl e, s')
      | (Inr v, s') \<Rightarrow> processLists ctx u b i lm ys s')"
  by (induction xs arbitrary: s) (auto split: prod.splits sum.splits)

section \<open>Lists without cards\<close>

lemma allLabelNames_skip:
  "list_cards l = [] \<Longrightarrow> allLabelNames (pre @ l # post) = allLabelNames (pre @ post)"
  by (simp add: allLabelNames_def)

lemma resolveLabels_skip:
  "list_cards l = [] \<Longrightarrow>
     resolveLabels ctx u b i (pre @ l # post) d = resolveLabels ctx u b i (pre @ post) d"
  by (simp add: resolveLabels_def allLabelNames_skip)

lemma processLists_skip:
  assumes "list_cards l = []" and "trim (listName l) \<noteq> []"
  shows "processLists ctx u b i lm (pre @ l # post) s = processLists ctx u b i lm (pre @ post) s"
  using assms by (simp add: processLists_append processList_empty split: prod.splits sum.splits)

lemma tryImport_skip:
  assumes "list_cards l = []" and "trim (listName l) \<noteq> []"
  shows "tryImport ctx u b i (pre @ l # post) d =
           (case tryImport ctx u b i (pre @ post) d of
              (Inl e, d') \<Rightarrow> (Inl e, d')
            | (Inr r, d') \<Rightarrow> (Inr (r\<lparr>listsProcessed := Suc (listsProcessed r)\<rparr>), d'))"
  unfolding tryImport_def resolveLabels_skip[OF assms(1)] processLists_skip[OF assms]
  by (simp split: prod.splits sum.splits)

lemma importLists_skip:
  assumes "list_cards l = []" and "trim (listName l) \<noteq> []"
  shows "snd (importLists ctx u pid (pre @ l # post) d) = snd (importLists ctx u pid (pre @ post) d)"
  unfolding importLists_def tryImport_skip[OF assms]
  by (simp split: prod.splits sum.splits option.splits)

text \<open>
  Claim C6. A list entry of the payload with no cards is passed over before any list is
  looked up or created: processing it leaves the store and the known lists as they were,
  and (its name not being blank) the store after the whole import is the store the import
  would leave without that entry.
\<close>

theorem empty_list_entry_skipped:
  assumes "list_cards l = []"
  shows "snd (processList ctx u b i lm l s) = s
         \<and> (trim (listName l) = []
            \<or> snd (importLists ctx u pid (pre @ l # post) d) = snd (importLists ctx u pid (pre @ post) d))"
  using assms importLists_skip[of l ctx u pid pre post d]
  by (auto simp: processList_def)

theorem empty_list_entry_skipped_witness:
  "snd (processList ctx0 ''u1'' 1 1 Map.empty (emptyList ''A'') state0) = state0
   \<and> snd (importLists ctx0 ''u1'' ''board0000001'' ([] @ emptyList ''A'' # [oneCardList ''B'' ''t'']) db0)
     = snd (importLists ctx0 ''u1'' ''board0000001'' ([] @ [oneCardList ''B'' ''t'']) db0)"
  using empty_list_entry_skipped[of "emptyList ''A''" ctx0 "''u1''" 1 1 Map.empty state0
      "''board0000001''" "[]" "[oneCardList ''B'' ''t'']" db0]
  by (simp add: emptyList_def trim_def isSpace_def whiteSpace_def)

section \<open>A failure while a list is processed\<close>

lemma fold_max_le: "(n::nat) \<le> fold max xs n"
proof (induction xs arbitrary: n)
  case Nil
  show ?case by simp
next
  case (Cons x xs)
  have "n \<le> max x n" by simp
  also have "\<dots> \<le> fold max xs (max x n)" by (rule Cons.IH)
  finally show ?case by simp
qed

lemma fold_max_ge: "x \<in> set xs \<Longrightarrow> (x::nat) \<le> fold max xs n"
proof (induction xs arbitrary: n)
  case Nil
  then show ?case by simp
next
  case (Cons y ys)
  show ?case
  proof (cases "x = y")
    case True
    have "y \<le> max y n" by simp
    also have "\<dots> \<le> fold max ys (max y n)" by (rule fold_max_le)
    finally show ?thesis using True by simp
  next
    case False
    with Cons.prems have "x \<in> set ys" by simp
    then show ?thesis by (simp add: Cons.IH)
  qed
qed

lemma fresh_id_notin: "fresh_id ids \<notin> set ids"
  using fold_max_ge[of "fresh_id ids" ids 0] by (auto simp: fresh_id_def)

lemma fresh_id_pos: "fresh_id ids \<noteq> 0"
  by (simp add: fresh_id_def)

lemma importRepo_create_Some:
  assumes "importRepo_create ctx src u d = (Inr (Some i), d1)"
  shows "i \<noteq> 0 \<and> batchStatus i d1 = [Pending]"
proof -
  from assms have i: "i = fresh_id (map imports_id (db_imports d))"
    and d1: "db_imports d1 = db_imports d @
             [\<lparr>imports_id = i, imports_source = src, imports_createdBy = u, imports_status = Pending\<rparr>]"
    by (auto simp: importRepo_create_def store_call_def split: outcome.splits)
  have "filter (\<lambda>r. imports_id r = i) (db_imports d) = []"
    using fresh_id_notin[of "map imports_id (db_imports d)"] unfolding i
    by (force simp: filter_empty_conv)
  with d1 i show ?thesis by (simp add: batchStatus_def fresh_id_pos)
qed

lemma batchStatus_update:
  "batchStatus i d = [st0] \<Longrightarrow> batchStatus i (importRepo_update st i d) = [st]"
proof -
  assume a: "batchStatus i d = [st0]"
  have f: "filter (\<lambda>r. imports_id r = i)
          (map (\<lambda>r. if imports_id r = i then r\<lparr>imports_status := st\<rparr> else r) xs)
        = map (\<lambda>r. r\<lparr>imports_status := st\<rparr>) (filter (\<lambda>r. imports_id r = i) xs)" for xs
    by (induction xs) auto
  from a have "length (filter (\<lambda>r. imports_id r = i) (db_imports d)) = 1"
    unfolding batchStatus_def by (metis length_map length_Cons list.size(3) One_nat_def)
  then obtain x where "filter (\<lambda>r. imports_id r = i) (db_imports d) = [x]"
    by (cases "filter (\<lambda>r. imports_id r = i) (db_imports d)") auto
  then show ?thesis by (simp add: batchStatus_def importRepo_update_def f)
qed

lemma changes_batchStatus:
  "changes ops d d' \<Longrightarrow> ImportCreate \<notin> ops \<Longrightarrow> batchStatus i d' = batchStatus i d"
  by (simp add: changes_def grows_def batchStatus_def)

text \<open>
  Claim C4. Let an import reach the loop over the lists, let the lists \<open>pre\<close> be processed
  from the state \<open>initialState\<close> to \<open>s1\<close>, and let processing the next list \<open>l\<close> raise
  \<open>e\<close> in state \<open>s2\<close>. Then the call raises \<open>Import failed\<close> with the message of
  \<open>e\<close>, and so returns no warnings; its store is that of \<open>s2\<close> with the batch marked
  failed, whatever the lists \<open>post\<close> after \<open>l\<close> are; and the rows written for the lists
  before \<open>l\<close> are all still there.
\<close>

theorem failure_while_processing_a_list:
  assumes "boardAccess userId publicId d = Inr board"
    and "importRepo_create ctx ''json'' userId d = (Inr (Some newImportId), d1)"
    and "resolveLabels ctx userId (boards_id board) newImportId (pre @ l # post) d1 = (Inr labelMap, d2)"
    and "processLists ctx userId (boards_id board) newImportId labelMap pre
           (initialState (boards_id board) d1 d2) = (Inr (), s1)"
    and "processList ctx userId (boards_id board) newImportId labelMap l s1 = (Inl e, s2)"
  shows "importLists ctx userId publicId (pre @ l # post) d
           = (Inl (TRPCError INTERNAL_SERVER_ERROR (ImportFailed (exn_message e))),
              importRepo_update Failed newImportId (st_db s2))
         \<and> batchStatus newImportId (importRepo_update Failed newImportId (st_db s2)) = [Failed]
         \<and> persisted (st_db s1) (importRepo_update Failed newImportId (st_db s2))"
proof -
  let ?b = "boards_id board"
  from assms(2) have id: "newImportId \<noteq> 0" and st: "batchStatus newImportId d1 = [Pending]"
    using importRepo_create_Some by blast+
  from assms(4,5) have loop:
    "processLists ctx userId ?b newImportId labelMap (pre @ l # post) (initialState ?b d1 d2) = (Inl e, s2)"
    by (simp add: processLists_append)
  with assms(3) have "tryImport ctx userId ?b newImportId (pre @ l # post) d1 = (Inl e, st_db s2)"
    by (simp add: tryImport_def initialState_def)
  with assms(1,2) id have res: "importLists ctx userId publicId (pre @ l # post) d
           = (Inl (TRPCError INTERNAL_SERVER_ERROR (ImportFailed (exn_message e))),
              importRepo_update Failed newImportId (st_db s2))"
    by (simp add: importLists_def)
  have c1: "changes {LabelBulkCreate} d1 d2" using assms(3) by (rule resolveLabels_changes)
  have c2: "changes listOps (st_db (initialState ?b d1 d2)) (st_db s2)"
    using loop processLists_changes by blast
  have "batchStatus newImportId d2 = [Pending]"
    using changes_batchStatus[OF c1] st by simp
  moreover have "batchStatus newImportId (st_db s2) = batchStatus newImportId d2"
    using changes_batchStatus[OF c2] by (simp add: listOps_def initialState_def)
  ultimately have failed: "batchStatus newImportId (importRepo_update Failed newImportId (st_db s2)) = [Failed]"
    by (simp add: batchStatus_update)
  have "changes listOps (st_db s1) (st_db s2)" using assms(5) processList_changes by blast
  then have "persisted (st_db s1) (importRepo_update Failed newImportId (st_db s2))"
    by (intro persisted_update changes_persisted)
  with res failed show ?thesis by simp
qed


theorem failure_while_processing_a_list_witness:
  "fst (importLists ctxFail ''u1'' ''board0000001''
          ([oneCardList ''A'' ''t''] @ oneCardList ''B'' ''t'' # [oneCardList ''C'' ''t'']) db0)
     = Inl (TRPCError INTERNAL_SERVER_ERROR (ImportFailed StoreFailure))
   \<and> batchStatus 1 (snd (importLists ctxFail ''u1'' ''board0000001''
          ([oneCardList ''A'' ''t''] @ oneCardList ''B'' ''t'' # [oneCardList ''C'' ''t'']) db0)) = [Failed]"
proof -
  let ?board = "\<lparr>boards_id = 1, boards_publicId = ''board0000001'', boards_workspaceId = 1\<rparr>"
  let ?d1 = "snd (importRepo_create ctxFail ''json'' ''u1'' db0)"
  let ?s1 = "snd (processLists ctxFail ''u1'' 1 1 Map.empty [oneCardList ''A'' ''t'']
                    (initialState 1 ?d1 ?d1))"
  let ?s2 = "snd (processList ctxFail ''u1'' 1 1 Map.empty (oneCardList ''B'' ''t'') ?s1)"
  have a1: "boardAccess ''u1'' ''board0000001'' db0 = Inr ?board"
    by code_simp
  have a2: "importRepo_create ctxFail ''json'' ''u1'' db0 = (Inr (Some 1), ?d1)"
    by code_simp
  have labels: "db_labels ?d1 = []"
    by code_simp
  have a3: "resolveLabels ctxFail ''u1'' (boards_id ?board) 1
              ([oneCardList ''A'' ''t''] @ oneCardList ''B'' ''t'' # [oneCardList ''C'' ''t'']) ?d1
            = (Inr Map.empty, ?d1)"
    by (simp add: resolveLabels_def allLabelNames_def boardLabels_def existingLabelMap_def
        labelsToCreate_def js_set_def oneCardList_def labels)
  have a4: "processLists ctxFail ''u1'' (boards_id ?board) 1 Map.empty [oneCardList ''A'' ''t'']
              (initialState (boards_id ?board) ?d1 ?d1) = (Inr (), ?s1)"
    by code_simp
  have a5: "processList ctxFail ''u1'' (boards_id ?board) 1 Map.empty (oneCardList ''B'' ''t'') ?s1
            = (Inl (StoreError StoreFailure), ?s2)"
    by code_simp
  from failure_while_processing_a_list[OF a1 a2 a3 a4 a5] show ?thesis
    by simp
qed

section \<open>The index of a created card\<close>

lemma assign_ids_length: "length (assign_ids base mk) = length mk"
  by (simp add: assign_ids_def)

lemma assign_ids_nth: "k < length mk \<Longrightarrow> assign_ids base mk ! k = (mk ! k) (base + k)"
  by (simp add: assign_ids_def nth_enumerate_eq)

lemma cardsToInsert_length: "length (cardsToInsert u lid i uid0 cs) = length cs"
  by (simp add: cardsToInsert_def)

lemma cardsToInsert_nth:
  "k < length cs \<Longrightarrow>
     (cardsToInsert u lid i uid0 cs ! k) n =
       \<lparr>cards_id = n, cards_publicId = uid0 + k, cards_title = take 255 (card_title (cs ! k)),
        cards_description = take 10000 (card_description (cs ! k)), cards_listId = lid,
        cards_index = k, cards_importId = Some i, cards_createdBy = u, cards_deleted = False\<rparr>"
  by (simp add: cardsToInsert_def nth_enumerate_eq)

lemma inserted_cards_index:
  "map cards_index (assign_ids base (cardsToInsert u lid i uid0 cs)) = [0..<length cs]"
  by (rule nth_equalityI)
     (simp_all add: assign_ids_length cardsToInsert_length assign_ids_nth cardsToInsert_nth)

lemma inserted_cards_title:
  "map cards_title (assign_ids base (cardsToInsert u lid i uid0 cs))
     = map (\<lambda>c. take 255 (card_title c)) cs"
  by (rule nth_equalityI)
     (simp_all add: assign_ids_length cardsToInsert_length assign_ids_nth cardsToInsert_nth)


lemma cardRepo_bulkCreate_created:
  assumes "cardRepo_bulkCreate ctx mk d = (Inr created, d')" and "created \<noteq> []"
  shows "db_cards d' = db_cards d @ assign_ids (fresh_id (map cards_id (db_cards d))) mk
         \<and> created = map (\<lambda>r. (cards_id r, cards_publicId r))
                        (assign_ids (fresh_id (map cards_id (db_cards d))) mk)"
  using assms
  by (auto simp: cardRepo_bulkCreate_def store_call_def split: outcome.splits)

section \<open>A store that fails on checklists only\<close>

lemma store_call_no_raise:
  "ctx_outcome ctx op (db_tick d) \<noteq> Raises \<Longrightarrow> \<exists>x d'. store_call ctx op w d = (Inr x, d')"
  by (cases "ctx_outcome ctx op (db_tick d)") (auto simp: store_call_def split: prod.splits)

lemma store_call_returns:
  "ctx_outcome ctx op (db_tick d) = Returns \<Longrightarrow>
     store_call ctx op w d =
       (Inr (Some (fst (w (d\<lparr>db_tick := Suc (db_tick d)\<rparr>)))), snd (w (d\<lparr>db_tick := Suc (db_tick d)\<rparr>)))"
  by (simp add: store_call_def split: prod.splits)

lemma createItem_no_raise:
  "checklistFailuresOnly ctx \<Longrightarrow> \<exists>x d'. checklistRepo_createItem ctx t c u d = (Inr x, d')"
  unfolding checklistRepo_createItem_def
  by (rule store_call_no_raise) (simp add: checklistFailuresOnly_def)

lemma create_no_raise:
  "checklistFailuresOnly ctx \<Longrightarrow> \<exists>x d'. checklistRepo_create ctx n c u d = (Inr x, d')"
  unfolding checklistRepo_create_def
  by (rule store_call_no_raise) (simp add: checklistFailuresOnly_def)

lemma createItems_succeeds:
  assumes "checklistFailuresOnly ctx"
  shows "\<exists>s'. createItems ctx u name title j cl k items s = (Inr (), s')"
proof (induction items arbitrary: k s)
  case Nil
  show ?case by simp
next
  case (Cons it items)
  from createItem_no_raise[OF assms] obtain x d' where
    "checklistRepo_createItem ctx (take 500 (item_title it)) cl u (st_db s) = (Inr x, d')"
    by blast
  then show ?case using Cons.IH by simp
qed

lemma createChecklists_succeeds:
  assumes "checklistFailuresOnly ctx"
  shows "\<exists>s'. createChecklists ctx u name title cardId j cls s = (Inr (), s')"
proof (induction cls arbitrary: j s)
  case Nil
  show ?case by simp
next
  case (Cons c cls)
  from create_no_raise[OF assms] obtain x d' where
    c: "checklistRepo_create ctx (take 255 (checklist_name c)) cardId u (st_db s) = (Inr x, d')"
    by blast
  show ?case
  proof (cases "x = None \<or> x = Some 0")
    case True
    with c show ?thesis using Cons.IH by auto
  next
    case False
    then obtain i where i: "x = Some i" "i \<noteq> 0" by auto
    let ?s1 = "s\<lparr>st_db := d',
                  st_warnings := st_warnings s @
                    (if length (checklist_name c) > 255
                     then [ChecklistNameTruncated name title (j + 1) (length (checklist_name c))]
                     else [])\<rparr>"
    from createItems_succeeds[OF assms] obtain s2 where
      "createItems ctx u name title j i 0 (checklist_items c) ?s1 = (Inr (), s2)" by blast
    with c i show ?thesis using Cons.IH by simp
  qed
qed

lemma createCardChecklists_succeeds:
  assumes "checklistFailuresOnly ctx"
  shows "\<exists>s'. createCardChecklists ctx u name cardDataOf created s = (Inr (), s')"
proof (induction created arbitrary: s)
  case Nil
  show ?case by simp
next
  case (Cons c created)
  show ?case
  proof (cases "cardDataOf (snd c)")
    case None
    then show ?thesis using Cons.IH by simp
  next
    case (Some cardData)
    from createChecklists_succeeds[OF assms] obtain s1 where
      "createChecklists ctx u name (card_title cardData) (fst c) 0 (card_checklists cardData) s
         = (Inr (), s1)" by blast
    with Some show ?thesis using Cons.IH by simp
  qed
qed

lemma linkCreatedCards_succeeds:
  assumes "checklistFailuresOnly ctx"
  shows "\<exists>s'. linkCreatedCards ctx u name lm cardDataOf created s = (Inr (), s')"
proof -
  have a: "ctx_outcome ctx ActivityBulkCreate t = Returns"
    and b: "ctx_outcome ctx CardLabelBulkCreate t = Returns" for t
    using assms by (auto simp: checklistFailuresOnly_def)
  show ?thesis
    by (simp add: linkCreatedCards_def cardActivityRepo_bulkCreate_def
        cardRepo_bulkCreateCardLabelRelationship_def store_call_returns a b)
qed

lemma findOrCreateList_succeeds:
  assumes "checklistFailuresOnly ctx"
  shows "\<exists>t s'. findOrCreateList ctx u b i l s = (Inr t, s')"
proof -
  have a: "ctx_outcome ctx ListCreate t = Returns" for t
    using assms by (auto simp: checklistFailuresOnly_def)
  show ?thesis
    by (simp add: findOrCreateList_def listRepo_create_def store_call_returns a fresh_id_pos
        split: option.splits)
qed

lemma cardRepo_bulkCreate_succeeds:
  assumes "checklistFailuresOnly ctx"
  shows "\<exists>created d'. cardRepo_bulkCreate ctx mk d = (Inr created, d')
           \<and> length created = length mk
           \<and> length (db_cards d') = length (db_cards d) + length mk"
proof -
  have a: "ctx_outcome ctx CardBulkCreate t = Returns" for t
    using assms by (auto simp: checklistFailuresOnly_def)
  show ?thesis
    by (simp add: cardRepo_bulkCreate_def store_call_returns a assign_ids_length)
qed

lemma processList_succeeds:
  assumes "checklistFailuresOnly ctx" and "trim (listName l) \<noteq> []"
  shows "\<exists>s'. processList ctx u b i lm l s = (Inr (), s')
           \<and> length (st_allCreatedCards s') = length (st_allCreatedCards s) + length (list_cards l)
           \<and> length (db_cards (st_db s')) = length (db_cards (st_db s)) + length (list_cards l)"
proof (cases "list_cards l = []")
  case True
  with assms(2) show ?thesis by (simp add: processList_empty)
next
  case False
  from findOrCreateList_succeeds[OF assms(1)] obtain target s1 where
    f: "findOrCreateList ctx u b i l s = (Inr target, s1)" by blast
  from findOrCreateList_changes[OF f] have
    k1: "db_cards (st_db s1) = db_cards (st_db s)" "st_allCreatedCards s1 = st_allCreatedCards s"
    by (simp_all add: changes_def grows_def)
  let ?mk = "cardsToInsert u (fst target) i (db_uid (st_db s1)) (list_cards l)"
  from cardRepo_bulkCreate_succeeds[OF assms(1)] obtain created d2 where
    c: "cardRepo_bulkCreate ctx ?mk ((st_db s1)\<lparr>db_uid := db_uid (st_db s1) + length (list_cards l)\<rparr>)
          = (Inr created, d2)"
    and len: "length created = length ?mk"
    and k2: "length (db_cards d2) =
       length (db_cards ((st_db s1)\<lparr>db_uid := db_uid (st_db s1) + length (list_cards l)\<rparr>)) + length ?mk"
    by blast
  from len False have ne: "created \<noteq> []" by (auto simp: cardsToInsert_length)
  let ?lookup = "publicIdToCardData (db_uid (st_db s1)) (list_cards l)"
  let ?s2 = "s1\<lparr>st_db := d2,
                 st_warnings := st_warnings s1 @ truncationWarnings (listName l) (list_cards l),
                 st_allCreatedCards := st_allCreatedCards s1 @ created\<rparr>"
  from linkCreatedCards_succeeds[OF assms(1)] obtain s3 where
    lk: "linkCreatedCards ctx u (listName l) lm ?lookup created ?s2 = (Inr (), s3)" by blast
  from linkCreatedCards_changes[OF lk] have
    k3: "db_cards (st_db s3) = db_cards d2" "st_allCreatedCards s3 = st_allCreatedCards s1 @ created"
    by (simp_all add: changes_def grows_def)
  from createCardChecklists_succeeds[OF assms(1)] obtain s' where
    ck: "createCardChecklists ctx u (listName l) ?lookup created s3 = (Inr (), s')" by blast
  from createCardChecklists_changes[OF ck] have
    k4: "db_cards (st_db s') = db_cards (st_db s3)" "st_allCreatedCards s' = st_allCreatedCards s3"
    by (simp_all add: changes_def grows_def)
  from assms(2) False f c ne lk ck have "processList ctx u b i lm l s = (Inr (), s')"
    by (simp add: processList_def)
  with k1 k2 k3 k4 len show ?thesis by (simp add: cardsToInsert_length)
qed

lemma processLists_succeeds:
  assumes "checklistFailuresOnly ctx"
  shows "\<forall>l \<in> set ls. trim (listName l) \<noteq> [] \<Longrightarrow>
         \<exists>s'. processLists ctx u b i lm ls s = (Inr (), s')
           \<and> length (st_allCreatedCards s') = length (st_allCreatedCards s) + totalCards ls
           \<and> length (db_cards (st_db s')) = length (db_cards (st_db s)) + totalCards ls"
proof (induction ls arbitrary: s)
  case Nil
  show ?case by (simp add: totalCards_def)
next
  case (Cons l ls)
  then have "trim (listName l) \<noteq> []" by simp
  from processList_succeeds[OF assms this] obtain s1 where
    p: "processList ctx u b i lm l s = (Inr (), s1)"
    and k: "length (st_allCreatedCards s1) = length (st_allCreatedCards s) + length (list_cards l)"
       "length (db_cards (st_db s1)) = length (db_cards (st_db s)) + length (list_cards l)"
    by blast
  from Cons.prems have "\<forall>l \<in> set ls. trim (listName l) \<noteq> []" by simp
  from Cons.IH[OF this, of s1] obtain s' where
    "processLists ctx u b i lm ls s1 = (Inr (), s')"
    "length (st_allCreatedCards s') = length (st_allCreatedCards s1) + totalCards ls"
    "length (db_cards (st_db s')) = length (db_cards (st_db s1)) + totalCards ls"
    by blast
  with p k show ?case by (simp add: totalCards_def)
qed

lemma resolveLabels_succeeds:
  assumes "checklistFailuresOnly ctx"
  shows "\<exists>lm d'. resolveLabels ctx u b i ls d = (Inr lm, d')"
proof -
  have a: "ctx_outcome ctx LabelBulkCreate t = Returns" for t
    using assms by (auto simp: checklistFailuresOnly_def)
  show ?thesis
    by (simp add: resolveLabels_def labelRepo_bulkCreate_def store_call_returns a Let_def)
qed


lemma importLists_succeeds:
  assumes "checklistFailuresOnly ctx" and "boardAccess userId publicId d = Inr board"
    and "\<forall>l \<in> set ls. trim (listName l) \<noteq> []"
  shows "\<exists>r d'. importLists ctx userId publicId ls d = (Inr r, d')
           \<and> cardsCreated r = totalCards ls \<and> listsProcessed r = length ls
           \<and> length (db_cards d') = length (db_cards d) + totalCards ls
           \<and> batchStatus (fresh_id (map imports_id (db_imports d))) d' = [Success]"
proof -
  let ?b = "boards_id board"
  let ?i = "fresh_id (map imports_id (db_imports d))"
  have "ctx_outcome ctx ImportCreate (db_tick d) = Returns"
    using assms(1) by (auto simp: checklistFailuresOnly_def)
  then obtain d1 where ic: "importRepo_create ctx ''json'' userId d = (Inr (Some ?i), d1)"
    by (simp add: importRepo_create_def store_call_returns)
  from importRepo_create_Some[OF ic] have i0: "?i \<noteq> 0" and st1: "batchStatus ?i d1 = [Pending]"
    by simp_all
  from importRepo_create_changes[OF ic] have c1: "db_cards d1 = db_cards d"
    by (simp add: changes_def grows_def)
  from resolveLabels_succeeds[OF assms(1)] obtain lm d2 where
    rl: "resolveLabels ctx userId ?b ?i ls d1 = (Inr lm, d2)" by blast
  note ch2 = resolveLabels_changes[OF rl]
  from ch2 have c2: "db_cards d2 = db_cards d1" by (simp add: changes_def grows_def)
  from ch2 have st2: "batchStatus ?i d2 = [Pending]"
    using changes_batchStatus[of "{LabelBulkCreate}" d1 d2 ?i] st1 by simp
  from processLists_succeeds[OF assms(1,3), of userId ?b ?i lm "initialState ?b d1 d2"]
  obtain s' where pl: "processLists ctx userId ?b ?i lm ls (initialState ?b d1 d2) = (Inr (), s')"
    and n1: "length (st_allCreatedCards s') = totalCards ls"
    and n2: "length (db_cards (st_db s')) = length (db_cards d2) + totalCards ls"
    by (auto simp: initialState_def)
  from processLists_changes[OF pl] have "batchStatus ?i (st_db s') = [Pending]"
    using changes_batchStatus[of listOps d2 "st_db s'" ?i] st2
    by (simp add: listOps_def initialState_def)
  then have st3: "batchStatus ?i (importRepo_update Success ?i (st_db s')) = [Success]"
    by (rule batchStatus_update)
  from rl pl have "tryImport ctx userId ?b ?i ls d1 =
      (Inr \<lparr>cardsCreated = length (st_allCreatedCards s'), listsProcessed = length ls,
            warnings = st_warnings s'\<rparr>,
       importRepo_update Success ?i (st_db s'))"
    by (simp add: tryImport_def initialState_def)
  with assms(2) ic i0 have "importLists ctx userId publicId ls d =
      (Inr \<lparr>cardsCreated = length (st_allCreatedCards s'), listsProcessed = length ls,
            warnings = st_warnings s'\<rparr>,
       importRepo_update Success ?i (st_db s'))"
    by (simp add: importLists_def)
  moreover have "length (db_cards (importRepo_update Success ?i (st_db s')))
                   = length (db_cards d) + totalCards ls"
    using n2 c2 c1 by (simp add: importRepo_update_def)
  ultimately show ?thesis using n1 st3 by simp
qed

section \<open>Lower case and white space\<close>

lemma lowerChar_cases:
  "lowerChar c = c \<or> lowerChar c \<in> set lowerLetters"
proof (cases "map_of (zip upperLetters lowerLetters) c")
  case None
  then show ?thesis by (simp add: lowerChar_def)
next
  case (Some l)
  then have "(c, l) \<in> set (zip upperLetters lowerLetters)"
    by (rule map_of_SomeD)
  then have "l \<in> set lowerLetters" by (rule set_zip_rightD)
  with Some show ?thesis by (simp add: lowerChar_def)
qed

lemma lower_letters:
  "\<forall>l \<in> set lowerLetters. lowerChar l = l \<and> \<not> isSpace l"
  by code_simp

lemma white_space:
  "\<forall>c \<in> set whiteSpace. lowerChar c = c"
  by code_simp

lemma lowerChar_lower: "l \<in> set lowerLetters \<Longrightarrow> lowerChar l = l"
  using lower_letters by blast

lemma lowerChar_idem: "lowerChar (lowerChar c) = lowerChar c"
  using lowerChar_cases[of c] lowerChar_lower[of "lowerChar c"] by auto

lemma toLowerCase_idem: "toLowerCase (toLowerCase s) = toLowerCase s"
  by (simp add: toLowerCase_def lowerChar_idem)


lemma isSpace_lowerChar: "isSpace (lowerChar c) = isSpace c"
proof (cases "lowerChar c = c")
  case True
  then show ?thesis by simp
next
  case False
  with lowerChar_cases[of c] have l: "lowerChar c \<in> set lowerLetters" by blast
  then have "\<not> isSpace (lowerChar c)" using lower_letters by blast
  moreover have "\<not> isSpace c"
  proof
    assume "isSpace c"
    then have "lowerChar c = c" using white_space unfolding isSpace_def by blast
    with False show False by simp
  qed
  ultimately show ?thesis by simp
qed

text \<open>A trimmed string neither starts nor ends with white space.\<close>

lemma trim_ends:
  "trim s = [] \<or> (\<not> isSpace (hd (trim s)) \<and> \<not> isSpace (last (trim s)))"
proof (cases "trim s = []")
  case True
  then show ?thesis by simp
next
  case False
  let ?a = "dropWhile isSpace s"
  let ?b = "dropWhile isSpace (rev ?a)"
  from False have b: "?b \<noteq> []" by (simp add: trim_def)
  then have "\<not> isSpace (hd ?b)" by (rule hd_dropWhile)
  with b have l: "\<not> isSpace (last (trim s))" by (simp add: trim_def last_rev)
  from b have a: "?a \<noteq> []" by (metis dropWhile.simps(1) rev.simps(1))
  then have ha: "\<not> isSpace (hd ?a)" by (rule hd_dropWhile)
  obtain ys where ys: "rev ?a = ys @ ?b"
    by (metis takeWhile_dropWhile_id)
  then have "?a = rev ?b @ rev ys" by (metis rev_append rev_rev_ident)
  with b have "hd ?a = hd (rev ?b)" by (metis hd_append2 rev_is_Nil_conv)
  with ha have "\<not> isSpace (hd (trim s))" by (simp add: trim_def)
  with l show ?thesis by simp
qed

text \<open>A string that trimming changes starts or ends with white space.\<close>

lemma trim_changes:
  assumes "trim s \<noteq> s"
  shows "s \<noteq> [] \<and> (isSpace (hd s) \<or> isSpace (last s))"
proof (cases "s = []")
  case True
  with assms show ?thesis by (simp add: trim_def)
next
  case False
  show ?thesis
  proof (rule ccontr)
    assume "\<not> (s \<noteq> [] \<and> (isSpace (hd s) \<or> isSpace (last s)))"
    with False have h: "\<not> isSpace (hd s)" and l: "\<not> isSpace (last s)" by auto
    from False h have 1: "dropWhile isSpace s = s" by (cases s) auto
    from False l have "dropWhile isSpace (rev s) = rev s"
      by (cases "rev s") (auto simp: last_rev[symmetric] hd_rev)
    with 1 have "trim s = s" by (simp add: trim_def)
    with assms show False by simp
  qed
qed

lemma toLowerCase_hd_last:
  "s \<noteq> [] \<Longrightarrow> hd (toLowerCase s) = lowerChar (hd s) \<and> last (toLowerCase s) = lowerChar (last s)"
  by (simp add: toLowerCase_def hd_map last_map)

text \<open>Ignoring case, no trimmed string equals a string with white space at an end.\<close>

lemma trimmed_differs:
  assumes "trim nm \<noteq> nm"
  shows "toLowerCase (trim x) \<noteq> toLowerCase nm"
proof
  assume eq: "toLowerCase (trim x) = toLowerCase nm"
  from trim_changes[OF assms] have ne: "nm \<noteq> []" and sp: "isSpace (hd nm) \<or> isSpace (last nm)"
    by simp_all
  from eq ne have tne: "trim x \<noteq> []" by (auto simp: toLowerCase_def)
  with trim_ends[of x] have t: "\<not> isSpace (hd (trim x))" "\<not> isSpace (last (trim x))" by auto
  from eq toLowerCase_hd_last[OF ne] toLowerCase_hd_last[OF tne]
  have "lowerChar (hd (trim x)) = lowerChar (hd nm)" "lowerChar (last (trim x)) = lowerChar (last nm)"
    by simp_all
  then have "isSpace (hd (trim x)) = isSpace (hd nm)" "isSpace (last (trim x)) = isSpace (last nm)"
    by (metis isSpace_lowerChar)+
  with t sp show False by simp
qed

section \<open>Lists and labels that the board has\<close>

lemma processList_unfold:
  "trim (listName l) \<noteq> [] \<Longrightarrow> list_cards l \<noteq> [] \<Longrightarrow>
     processList ctx u b i lm l s =
       (case findOrCreateList ctx u b i l s of
          (Inl e, s1) \<Rightarrow> (Inl e, s1)
        | (Inr target, s1) \<Rightarrow> insertCards ctx u i lm l target s1)"
  by (auto simp: processList_def insertCards_def split: prod.splits sum.splits)



text \<open>What the choice of the target list does to the lists table and to the known lists.\<close>

lemma findOrCreateList_found:
  assumes "find (\<lambda>(i, name). name \<noteq> [] \<and> toLowerCase name = toLowerCase (listName l))
             (st_existingLists s) = Some t"
  shows "findOrCreateList ctx u b i l s = (Inr t, s)"
  using assms by (simp add: findOrCreateList_def)


lemma find_SomeD: "find P xs = Some x \<Longrightarrow> P x \<and> x \<in> set xs"
  by (induction xs) (auto split: if_splits)






text \<open>The label map, read as an association list.\<close>

lemma fold_upd_map_of:
  "fold (\<lambda>x m. m(key x \<mapsto> val x)) xs m = m ++ map_of (rev (map (\<lambda>x. (key x, val x)) xs))"
proof (induction xs arbitrary: m)
  case Nil
  show ?case by simp
next
  case (Cons x xs)
  have "fold (\<lambda>x m. m(key x \<mapsto> val x)) (x # xs) m
        = fold (\<lambda>x m. m(key x \<mapsto> val x)) xs (m(key x \<mapsto> val x))"
    by simp
  also have "\<dots> = m(key x \<mapsto> val x) ++ map_of (rev (map (\<lambda>x. (key x, val x)) xs))"
    by (rule Cons.IH)
  also have "\<dots> = m ++ map_of (rev (map (\<lambda>x. (key x, val x)) (x # xs)))"
    by (simp add: map_add_def fun_eq_iff split: option.splits)
  finally show ?case .
qed

lemma existingLabelMap_map_of:
  "existingLabelMap rows = map_of (rev (map (\<lambda>l. (toLowerCase (labels_name l), labels_id l)) rows))"
  unfolding existingLabelMap_def
  using fold_upd_map_of[of "\<lambda>l. toLowerCase (labels_name l)" labels_id rows Map.empty]
  by simp

lemma existingLabelMap_Some:
  assumes "existingLabelMap rows k = Some i"
  shows "\<exists>row \<in> set rows. toLowerCase (labels_name row) = k \<and> labels_id row = i"
proof -
  from assms have "(k, i) \<in> set (rev (map (\<lambda>l. (toLowerCase (labels_name l), labels_id l)) rows))"
    unfolding existingLabelMap_map_of by (rule map_of_SomeD)
  then show ?thesis by auto
qed

lemma existingLabelMap_None:
  "existingLabelMap rows k = None \<longleftrightarrow> (\<forall>row \<in> set rows. toLowerCase (labels_name row) \<noteq> k)"
  unfolding existingLabelMap_map_of by (force simp: map_of_eq_None_iff)

lemma addCreatedLabels_map_of:
  "addCreatedLabels names ids lm
     = lm ++ map_of (rev (map (\<lambda>p. (toLowerCase (fst p), snd p)) (zip names ids)))"
  unfolding addCreatedLabels_def
  using fold_upd_map_of[of "\<lambda>p. toLowerCase (fst p)" snd "zip names ids" lm]
  by (simp add: case_prod_unfold)

lemma addCreatedLabels_other:
  assumes "k \<notin> toLowerCase ` set names"
  shows "addCreatedLabels names ids lm k = lm k"
proof -
  have "map_of (rev (map (\<lambda>p. (toLowerCase (fst p), snd p)) (zip names ids))) k = None"
    using assms by (force simp: map_of_eq_None_iff dest: set_zip_leftD)
  then show ?thesis by (simp add: addCreatedLabels_map_of map_add_def)
qed

lemma labelsToCreate_keys:
  "existingLabelMap rows k \<noteq> None \<Longrightarrow> k \<notin> toLowerCase ` set (labelsToCreate (existingLabelMap rows) names)"
  by (auto simp: labelsToCreate_def)

text \<open>A name the board's labels resolve keeps its label; a name that neither the board
  nor the payload has resolves to nothing.\<close>

lemma resolveLabels_existing:
  assumes "resolveLabels ctx u b i ls d = (Inr lm, d')"
    and "existingLabelMap (boardLabels b d) k = Some x"
  shows "lm k = Some x"
proof -
  let ?m = "existingLabelMap (boardLabels b d)"
  let ?new = "labelsToCreate ?m (allLabelNames ls)"
  from assms(2) have k: "k \<notin> toLowerCase ` set ?new" by (simp add: labelsToCreate_keys)
  from assms(1) have "lm = ?m \<or> (\<exists>ids. lm = addCreatedLabels ?new ids ?m)"
    by (auto simp: resolveLabels_def Let_def split: if_splits prod.splits sum.splits)
  with k assms(2) show ?thesis by (auto simp: addCreatedLabels_other)
qed

lemma resolveLabels_unknown:
  assumes "resolveLabels ctx u b i ls d = (Inr lm, d')"
    and "existingLabelMap (boardLabels b d) k = None"
    and "k \<notin> toLowerCase ` set (allLabelNames ls)"
  shows "lm k = None"
proof -
  let ?m = "existingLabelMap (boardLabels b d)"
  let ?new = "labelsToCreate ?m (allLabelNames ls)"
  from assms(3) have k: "k \<notin> toLowerCase ` set ?new" by (auto simp: labelsToCreate_def)
  from assms(1) have "lm = ?m \<or> (\<exists>ids. lm = addCreatedLabels ?new ids ?m)"
    by (auto simp: resolveLabels_def Let_def split: if_splits prod.splits sum.splits)
  with k assms(2) show ?thesis by (auto simp: addCreatedLabels_other)
qed

lemma js_set_set: "set (js_set xs) = set xs"
  by (simp add: js_set_def)

lemma js_set_distinct: "distinct (js_set xs)"
  by (simp add: js_set_def)

lemma allLabelNames_trimmed: "n \<in> set (allLabelNames ls) \<Longrightarrow> \<exists>x. n = trim x"
  by (auto simp: allLabelNames_def js_set_set)







section \<open>Label names with white space at an end\<close>

lemma newLabelRows_length: "length (newLabelRows ctx u b i uid0 n names) = length names"
  by (simp add: newLabelRows_def)

lemma newLabelRows_nth:
  "k < length names \<Longrightarrow>
     (newLabelRows ctx u b i uid0 n names ! k) x =
       \<lparr>labels_id = x, labels_publicId = uid0 + k, labels_name = names ! k,
        labels_colourCode = colourCode ctx (n + k), labels_boardId = b,
        labels_importId = Some i, labels_createdBy = u, labels_deleted = False\<rparr>"
  by (simp add: newLabelRows_def nth_enumerate_eq)

lemma labelRepo_bulkCreate_returns:
  assumes "ctx_outcome ctx LabelBulkCreate (db_tick d) = Returns"
  shows "labelRepo_bulkCreate ctx mk d =
           (Inr (map labels_id (assign_ids (fresh_id (map labels_id (db_labels d))) mk)),
            d\<lparr>db_tick := Suc (db_tick d),
              db_labels := db_labels d @ assign_ids (fresh_id (map labels_id (db_labels d))) mk\<rparr>)"
  using assms by (simp add: labelRepo_bulkCreate_def store_call_def)

text \<open>After the labels are resolved on a store that answers, the map knows every name
  that was to be created, and the board has a label of that name.\<close>

lemma resolveLabels_created:
  assumes "resolveLabels ctx u b i ls d = (Inr lm, d1)"
    and "ctx_outcome ctx LabelBulkCreate (db_tick d) = Returns"
    and "n \<in> set (labelsToCreate (existingLabelMap (boardLabels b d)) (allLabelNames ls))"
  shows "lm (toLowerCase n) \<noteq> None \<and> (\<exists>row \<in> set (boardLabels b d1). labels_name row = n)"
proof -
  let ?m = "existingLabelMap (boardLabels b d)"
  let ?new = "labelsToCreate ?m (allLabelNames ls)"
  let ?mk = "newLabelRows ctx u b i (db_uid d) (length (boardLabels b d)) ?new"
  let ?rows = "assign_ids (fresh_id (map labels_id (db_labels d))) ?mk"
  from assms(3) have ne: "?new \<noteq> []" by auto
  have call: "labelRepo_bulkCreate ctx ?mk (d\<lparr>db_uid := db_uid d + length ?new\<rparr>) =
           (Inr (map labels_id ?rows),
            d\<lparr>db_uid := db_uid d + length ?new, db_tick := Suc (db_tick d),
              db_labels := db_labels d @ ?rows\<rparr>)"
    using labelRepo_bulkCreate_returns[of ctx "d\<lparr>db_uid := db_uid d + length ?new\<rparr>" ?mk] assms(2)
    by simp
  have "resolveLabels ctx u b i ls d =
          (Inr (addCreatedLabels ?new (map labels_id ?rows) ?m),
           d\<lparr>db_uid := db_uid d + length ?new, db_tick := Suc (db_tick d),
             db_labels := db_labels d @ ?rows\<rparr>)"
    using ne call by (simp add: resolveLabels_def Let_def)
  with assms(1) have lm: "lm = addCreatedLabels ?new (map labels_id ?rows) ?m"
    and d1': "d1 = d\<lparr>db_uid := db_uid d + length ?new, db_tick := Suc (db_tick d),
             db_labels := db_labels d @ ?rows\<rparr>"
    by simp_all
  from d1' have d1: "db_labels d1 = db_labels d @ ?rows" by simp
  from assms(3) obtain k where k: "k < length ?new" "?new ! k = n"
    by (auto simp: in_set_conv_nth)
  have len: "length ?rows = length ?new" by (simp add: assign_ids_length newLabelRows_length)
  with k have "(n, labels_id (?rows ! k)) \<in> set (zip ?new (map labels_id ?rows))"
    by (auto simp: set_zip)
  then have "(\<lambda>p. (toLowerCase (fst p), snd p)) (n, labels_id (?rows ! k))
      \<in> (\<lambda>p. (toLowerCase (fst p), snd p)) ` set (zip ?new (map labels_id ?rows))"
    by (rule imageI)
  then have "(toLowerCase n, labels_id (?rows ! k))
      \<in> set (rev (map (\<lambda>p. (toLowerCase (fst p), snd p)) (zip ?new (map labels_id ?rows))))"
    by simp
  then have "\<exists>x. map_of (rev (map (\<lambda>p. (toLowerCase (fst p), snd p)) (zip ?new (map labels_id ?rows))))
               (toLowerCase n) = Some x"
    by (rule weak_map_of_SomeI)
  then have 1: "lm (toLowerCase n) \<noteq> None"
    unfolding lm addCreatedLabels_map_of by (auto simp: map_add_def)
  from k len have row: "?rows ! k \<in> set ?rows" by simp
  from k have "labels_name (?rows ! k) = n \<and> labels_boardId (?rows ! k) = b
               \<and> \<not> labels_deleted (?rows ! k)"
    by (simp add: assign_ids_nth newLabelRows_length newLabelRows_nth)
  with row d1 have "\<exists>row \<in> set (boardLabels b d1). labels_name row = n"
    by (auto simp: boardLabels_def)
  with 1 show ?thesis by simp
qed

lemma resolveLabels_board_kept:
  assumes "resolveLabels ctx u b i ls d = (r, d1)" and "row \<in> set (boardLabels b d)"
  shows "row \<in> set (boardLabels b d1)"
proof -
  from resolveLabels_changes[OF assms(1)] have "prefix (db_labels d) (db_labels d1)"
    by (simp add: changes_def grows_def)
  with assms(2) show ?thesis by (auto simp: boardLabels_def prefix_def)
qed

lemma allLabelNames_mem:
  assumes "l \<in> set ls" and "c \<in> set (list_cards l)" and "nm \<in> set (card_labels c)"
    and "trim nm \<noteq> []"
  shows "trim nm \<in> set (allLabelNames ls)"
  using assms by (force simp: allLabelNames_def js_set_set)

text \<open>Every relation of a card comes from one of its names that the map resolves.\<close>

lemma cardLabelRelations_source:
  assumes "p \<in> set (cardLabelRelations lm cardDataOf cc)"
  shows "\<exists>c x. cardDataOf (snd cc) = Some c \<and> x \<in> set (card_labels c)
           \<and> lm (toLowerCase x) = Some (snd p)"
proof (cases "cardDataOf (snd cc)")
  case None
  with assms show ?thesis by (simp add: cardLabelRelations_def)
next
  case (Some c)
  with assms obtain k where k: "k \<in> set (uniqueLabels c)" "lm (toLowerCase k) = Some (snd p)"
    by (auto simp: cardLabelRelations_def split: if_splits option.splits)
  from k(1) obtain x where "x \<in> set (card_labels c)" "k = toLowerCase x"
    by (auto simp: uniqueLabels_def js_set_set)
  with k(2) Some show ?thesis by (auto simp: toLowerCase_idem)
qed


section \<open>The rows that one list leaves\<close>

lemma publicIdToCardData_nth:
  "k < length cs \<Longrightarrow> publicIdToCardData uid0 cs (uid0 + k) = Some (cs ! k)"
proof -
  assume k: "k < length cs"
  have eq: "map (\<lambda>(index, c). (uid0 + index, c)) (enumerate 0 cs) = zip [uid0..<uid0 + length cs] cs"
    by (rule nth_equalityI) (simp_all add: nth_enumerate_eq)
  have "map_of (zip [uid0..<uid0 + length cs] cs) ([uid0..<uid0 + length cs] ! k) = Some (cs ! k)"
    by (rule map_of_zip_nth) (use k in simp_all)
  with k show ?thesis by (simp add: publicIdToCardData_def eq)
qed

lemma cardLabelRelations_fst: "r \<in> set (cardLabelRelations lm cardDataOf cc) \<Longrightarrow> fst r = fst cc"
  by (auto simp: cardLabelRelations_def split: option.splits if_splits)

text \<open>The cards that a bulk insert writes: none, or one row for each card it is given.\<close>

lemma cardRepo_bulkCreate_cases:
  assumes "cardRepo_bulkCreate ctx mk d = (r2, d2)"
  shows "db_cardsToLabels d2 = db_cardsToLabels d
       \<and> ((r2 = Inr [] \<or> (\<exists>e. r2 = Inl e)) \<and> db_cards d2 = db_cards d
          \<or> r2 = Inr (map (\<lambda>r. (cards_id r, cards_publicId r))
                        (assign_ids (fresh_id (map cards_id (db_cards d))) mk))
            \<and> db_cards d2 = db_cards d @ assign_ids (fresh_id (map cards_id (db_cards d))) mk)"
  using assms by (auto simp: cardRepo_bulkCreate_def store_call_def split: outcome.splits)

text \<open>The label relations and the warnings that the linking of the created cards adds.\<close>

lemma linkCreatedCards_store:
  assumes "linkCreatedCards ctx u name lm cardDataOf created s = (r, s')"
  shows "db_cards (st_db s') = db_cards (st_db s)
       \<and> (db_cardsToLabels (st_db s') = db_cardsToLabels (st_db s)
          \<or> db_cardsToLabels (st_db s')
              = db_cardsToLabels (st_db s) @ concat (map (cardLabelRelations lm cardDataOf) created))
       \<and> (r = Inr () \<and> (\<forall>t. ctx_outcome ctx CardLabelBulkCreate t \<noteq> NoResult)
            \<longrightarrow> db_cardsToLabels (st_db s')
              = db_cardsToLabels (st_db s) @ concat (map (cardLabelRelations lm cardDataOf) created))
       \<and> (st_warnings s' = st_warnings s
          \<or> st_warnings s'
              = st_warnings s @ concat (map (duplicateLabelWarnings name cardDataOf) created))"
proof -
  let ?acts = "map (\<lambda>c. \<lparr>cardActivities_type = ''card.created'', cardActivities_cardId = fst c,
                         cardActivities_createdBy = u\<rparr>) created"
  define rels where "rels = concat (map (cardLabelRelations lm cardDataOf) created)"
  define w where "w = st_warnings s @ concat (map (duplicateLabelWarnings name cardDataOf) created)"
  obtain r1 d1 where a: "cardActivityRepo_bulkCreate ctx ?acts (st_db s) = (r1, d1)"
    by (cases "cardActivityRepo_bulkCreate ctx ?acts (st_db s)")
  then have a1: "db_cards d1 = db_cards (st_db s)" "db_cardsToLabels d1 = db_cardsToLabels (st_db s)"
    by (auto simp: cardActivityRepo_bulkCreate_def store_call_def split: outcome.splits)
  obtain r2 d2 where b: "cardRepo_bulkCreateCardLabelRelationship ctx rels d1 = (r2, d2)"
    by (cases "cardRepo_bulkCreateCardLabelRelationship ctx rels d1")
  then have b1: "db_cards d2 = db_cards d1"
    and b2: "db_cardsToLabels d2 = db_cardsToLabels d1
             \<or> db_cardsToLabels d2 = db_cardsToLabels d1 @ rels"
    and b3: "(\<exists>y. r2 = Inr y) \<and> (\<forall>t. ctx_outcome ctx CardLabelBulkCreate t \<noteq> NoResult)
             \<longrightarrow> db_cardsToLabels d2 = db_cardsToLabels d1 @ rels"
    by (auto simp: cardRepo_bulkCreateCardLabelRelationship_def store_call_def
        split: outcome.splits)
  have eq: "linkCreatedCards ctx u name lm cardDataOf created s =
      (case r1 of
         Inl e \<Rightarrow> (Inl e, s\<lparr>st_db := d1\<rparr>)
       | Inr x \<Rightarrow>
           (if rels = [] then (Inr (), s\<lparr>st_db := d1, st_warnings := w\<rparr>)
            else (case r2 of
                    Inl e \<Rightarrow> (Inl e, s\<lparr>st_db := d2, st_warnings := w\<rparr>)
                  | Inr y \<Rightarrow> (Inr (), s\<lparr>st_db := d2, st_warnings := w\<rparr>))))"
    unfolding linkCreatedCards_def a rels_def[symmetric] w_def[symmetric] b
    by (simp add: b split: sum.splits)
  consider (fail1) e where "r = Inl e" "s' = s\<lparr>st_db := d1\<rparr>"
    | (none) "rels = []" "r = Inr ()" "s' = s\<lparr>st_db := d1, st_warnings := w\<rparr>"
    | (fail2) e where "r2 = Inl e" "r = Inl e" "s' = s\<lparr>st_db := d2, st_warnings := w\<rparr>"
    | (both) y where "r2 = Inr y" "r = Inr ()" "s' = s\<lparr>st_db := d2, st_warnings := w\<rparr>"
    using assms unfolding eq by (cases r1; cases r2; cases "rels = []"; force)
  then have "db_cards (st_db s') = db_cards (st_db s)
       \<and> (db_cardsToLabels (st_db s') = db_cardsToLabels (st_db s)
          \<or> db_cardsToLabels (st_db s') = db_cardsToLabels (st_db s) @ rels)
       \<and> (r = Inr () \<and> (\<forall>t. ctx_outcome ctx CardLabelBulkCreate t \<noteq> NoResult)
            \<longrightarrow> db_cardsToLabels (st_db s') = db_cardsToLabels (st_db s) @ rels)
       \<and> (st_warnings s' = st_warnings s \<or> st_warnings s' = w)"
  proof cases
    case fail1
    with a1 show ?thesis by simp
  next
    case none
    with a1 show ?thesis by simp
  next
    case fail2
    with a1 b1 b2 show ?thesis by auto
  next
    case both
    with a1 b1 b2 b3 show ?thesis by auto
  qed
  then show ?thesis unfolding rels_def w_def .
qed

text \<open>What the cards of one list leave in the cards and in the label relations: the
  rows of the cards, or none of them; then their relations, or none of them.\<close>

lemma insertCards_store:
  assumes "insertCards ctx u i lm l target s1 = (r, s')"
  defines "new \<equiv> assign_ids (fresh_id (map cards_id (db_cards (st_db s1))))
                   (cardsToInsert u (fst target) i (db_uid (st_db s1)) (list_cards l))"
  defines "rels \<equiv> concat (map (cardLabelRelations lm
                     (publicIdToCardData (db_uid (st_db s1)) (list_cards l)))
                     (map (\<lambda>r. (cards_id r, cards_publicId r)) new))"
  shows "(db_cards (st_db s') = db_cards (st_db s1) \<and> r \<noteq> Inr ()
            \<and> db_cardsToLabels (st_db s') = db_cardsToLabels (st_db s1))
       \<or> (db_cards (st_db s') = db_cards (st_db s1) @ new \<and> new \<noteq> []
            \<and> (db_cardsToLabels (st_db s') = db_cardsToLabels (st_db s1)
               \<or> db_cardsToLabels (st_db s') = db_cardsToLabels (st_db s1) @ rels)
            \<and> (r = Inr () \<and> (\<forall>t. ctx_outcome ctx CardLabelBulkCreate t \<noteq> NoResult)
                 \<longrightarrow> db_cardsToLabels (st_db s') = db_cardsToLabels (st_db s1) @ rels))"
proof -
  let ?d1 = "(st_db s1)\<lparr>db_uid := db_uid (st_db s1) + length (list_cards l)\<rparr>"
  let ?w = "st_warnings s1 @ truncationWarnings (listName l) (list_cards l)"
  let ?lookup = "publicIdToCardData (db_uid (st_db s1)) (list_cards l)"
  let ?created = "map (\<lambda>r. (cards_id r, cards_publicId r)) new"
  obtain r2 d2 where c: "cardRepo_bulkCreate ctx
      (cardsToInsert u (fst target) i (db_uid (st_db s1)) (list_cards l)) ?d1 = (r2, d2)"
    by (cases "cardRepo_bulkCreate ctx
      (cardsToInsert u (fst target) i (db_uid (st_db s1)) (list_cards l)) ?d1")
  from cardRepo_bulkCreate_cases[OF c] have
    rl2: "db_cardsToLabels d2 = db_cardsToLabels (st_db s1)"
    and alt: "(r2 = Inr [] \<or> (\<exists>e. r2 = Inl e)) \<and> db_cards d2 = db_cards (st_db s1)
              \<or> r2 = Inr ?created \<and> db_cards d2 = db_cards (st_db s1) @ new"
    by (simp_all add: new_def)
  show ?thesis
  proof (cases "(r2 = Inr [] \<or> (\<exists>e. r2 = Inl e))")
    case True
    with assms(1) c have "st_db s' = d2" "r \<noteq> Inr ()"
      by (auto simp: insertCards_def)
    moreover from True alt have "db_cards d2 = db_cards (st_db s1)" by auto
    ultimately show ?thesis using rl2 by simp
  next
    case False
    with alt have r2: "r2 = Inr ?created" and c2: "db_cards d2 = db_cards (st_db s1) @ new"
      and ne: "?created \<noteq> []" by auto
    let ?s2 = "s1\<lparr>st_db := d2, st_warnings := ?w,
                   st_allCreatedCards := st_allCreatedCards s1 @ ?created\<rparr>"
    obtain r3 s3 where lk: "linkCreatedCards ctx u (listName l) lm ?lookup ?created ?s2 = (r3, s3)"
      by (cases "linkCreatedCards ctx u (listName l) lm ?lookup ?created ?s2")
    from linkCreatedCards_store[OF lk] have
      k1: "db_cards (st_db s3) = db_cards d2"
      and k2: "db_cardsToLabels (st_db s3) = db_cardsToLabels d2
               \<or> db_cardsToLabels (st_db s3) = db_cardsToLabels d2 @ rels"
      and k3: "r3 = Inr () \<and> (\<forall>t. ctx_outcome ctx CardLabelBulkCreate t \<noteq> NoResult)
               \<longrightarrow> db_cardsToLabels (st_db s3) = db_cardsToLabels d2 @ rels"
      by (simp_all add: rels_def)
    have fin: "db_cards (st_db s') = db_cards (st_db s3)
               \<and> db_cardsToLabels (st_db s') = db_cardsToLabels (st_db s3)
               \<and> (r = Inr () \<longrightarrow> r3 = Inr ())"
    proof (cases r3)
      case (Inl e)
      with assms(1) c r2 ne lk show ?thesis by (auto simp: insertCards_def)
    next
      case (Inr x)
      with assms(1) c r2 ne lk
      have "createCardChecklists ctx u (listName l) ?lookup ?created s3 = (r, s')"
        by (auto simp: insertCards_def)
      from createCardChecklists_changes[OF this] Inr show ?thesis
        by (simp add: changes_def grows_def)
    qed
    from ne have "new \<noteq> []" by simp
    with fin k1 k2 k3 c2 rl2 show ?thesis by auto
  qed
qed

lemma processList_store:
  assumes "processList ctx u b i lm l s = (r, s')"
  shows "\<exists>lid base uid0.
       (db_cards (st_db s') = db_cards (st_db s) \<and> (r \<noteq> Inr () \<or> list_cards l = [])
            \<and> db_cardsToLabels (st_db s') = db_cardsToLabels (st_db s))
       \<or> (db_cards (st_db s') = db_cards (st_db s)
              @ assign_ids base (cardsToInsert u lid i uid0 (list_cards l))
            \<and> list_cards l \<noteq> []
            \<and> (db_cardsToLabels (st_db s') = db_cardsToLabels (st_db s)
               \<or> db_cardsToLabels (st_db s') = db_cardsToLabels (st_db s)
                   @ concat (map (cardLabelRelations lm (publicIdToCardData uid0 (list_cards l)))
                       (map (\<lambda>r. (cards_id r, cards_publicId r))
                          (assign_ids base (cardsToInsert u lid i uid0 (list_cards l))))))
            \<and> (r = Inr () \<and> (\<forall>t. ctx_outcome ctx CardLabelBulkCreate t \<noteq> NoResult)
                 \<longrightarrow> db_cardsToLabels (st_db s') = db_cardsToLabels (st_db s)
                   @ concat (map (cardLabelRelations lm (publicIdToCardData uid0 (list_cards l)))
                       (map (\<lambda>r. (cards_id r, cards_publicId r))
                          (assign_ids base (cardsToInsert u lid i uid0 (list_cards l)))))))"
proof (cases "trim (listName l) = [] \<or> list_cards l = []")
  case True
  with assms have "s' = s" "r \<noteq> Inr () \<or> list_cards l = []"
    by (auto simp: processList_def split: if_splits)
  then show ?thesis by simp
next
  case False
  obtain r1 s1 where f: "findOrCreateList ctx u b i l s = (r1, s1)"
    by (cases "findOrCreateList ctx u b i l s")
  from findOrCreateList_changes[OF f] have
    same: "db_cards (st_db s1) = db_cards (st_db s)"
          "db_cardsToLabels (st_db s1) = db_cardsToLabels (st_db s)"
    by (simp_all add: changes_def grows_def)
  show ?thesis
  proof (cases r1)
    case (Inl e)
    with assms False f have "s' = s1" "r \<noteq> Inr ()" by (auto simp: processList_unfold)
    with same show ?thesis by simp
  next
    case (Inr target)
    with assms False f have ic: "insertCards ctx u i lm l target s1 = (r, s')"
      by (simp add: processList_unfold)
    from insertCards_store[OF ic] same False show ?thesis
      by (simp only:) blast
  qed
qed

section \<open>The cards of a list and their indexes\<close>

lemma inserted_cards_nth:
  "k < length cs \<Longrightarrow>
     assign_ids base (cardsToInsert u lid i uid0 cs) ! k =
       \<lparr>cards_id = base + k, cards_publicId = uid0 + k, cards_title = take 255 (card_title (cs ! k)),
        cards_description = take 10000 (card_description (cs ! k)), cards_listId = lid,
        cards_index = k, cards_importId = Some i, cards_createdBy = u, cards_deleted = False\<rparr>"
  by (simp add: assign_ids_nth cardsToInsert_length cardsToInsert_nth)

lemma inserted_cards_length: "length (assign_ids base (cardsToInsert u lid i uid0 cs)) = length cs"
  by (simp add: assign_ids_length cardsToInsert_length)

text \<open>
  Claim C8. Whatever the outcome of processing a list of the payload, the cards it leaves
  in the cards table are appended to those the store holds: none, or one row for each card
  of the list, with the indexes 0, 1, 2, ... of the positions in the payload's card array
  and the titles in that order; no index is adjusted to those of the cards that were
  there. When the list is processed to the end the rows are there.
\<close>

theorem card_index_is_payload_position:
  assumes "processList ctx u b i lm l s = (r, s')"
  shows "\<exists>new. db_cards (st_db s') = db_cards (st_db s) @ new
           \<and> (new = []
              \<or> map cards_index new = [0..<length (list_cards l)]
                \<and> map cards_title new = map (\<lambda>c. take 255 (card_title c)) (list_cards l))
           \<and> (r = Inr () \<longrightarrow> length new = length (list_cards l))"
proof -
  from processList_store[OF assms] obtain lid base uid0 where
    "(db_cards (st_db s') = db_cards (st_db s) \<and> (r \<noteq> Inr () \<or> list_cards l = []))
     \<or> db_cards (st_db s') = db_cards (st_db s)
          @ assign_ids base (cardsToInsert u lid i uid0 (list_cards l))"
    by blast
  then show ?thesis
  proof
    assume "db_cards (st_db s') = db_cards (st_db s) \<and> (r \<noteq> Inr () \<or> list_cards l = [])"
    then have "db_cards (st_db s') = db_cards (st_db s) @ []"
      and "r = Inr () \<longrightarrow> length ([] :: cards_row list) = length (list_cards l)"
      by auto
    then show ?thesis by blast
  next
    let ?new = "assign_ids base (cardsToInsert u lid i uid0 (list_cards l))"
    assume "db_cards (st_db s') = db_cards (st_db s) @ ?new"
    moreover have "map cards_index ?new = [0..<length (list_cards l)]"
      by (rule inserted_cards_index)
    moreover have "map cards_title ?new = map (\<lambda>c. take 255 (card_title c)) (list_cards l)"
      by (rule inserted_cards_title)
    moreover have "length ?new = length (list_cards l)" by (rule inserted_cards_length)
    ultimately show ?thesis by blast
  qed
qed

theorem card_index_is_payload_position_witness:
  "(\<exists>new. db_cards (st_db (snd (processList ctx0 ''u1'' 1 1 Map.empty (twoCardList ''to do'' ''x'') state1)))
            = db_cards (st_db state1) @ new
         \<and> map cards_index new = [0, 1] \<and> map cards_title new = [''a'', ''b''])
   \<and> fst (processList (ctx_with ActivityBulkCreate 1 Raises) ''u1'' 1 1 Map.empty
             (twoCardList ''to do'' ''x'') state1) = Inl (StoreError StoreFailure)
   \<and> (\<exists>new. db_cards (st_db (snd (processList (ctx_with ActivityBulkCreate 1 Raises) ''u1'' 1 1
                                      Map.empty (twoCardList ''to do'' ''x'') state1)))
            = db_cards (st_db state1) @ new
         \<and> map cards_index new = [0, 1] \<and> map cards_title new = [''a'', ''b''])"
proof -
  let ?l = "twoCardList ''to do'' ''x''"
  let ?P = "processList ctx0 ''u1'' 1 1 Map.empty ?l state1"
  let ?Q = "processList (ctx_with ActivityBulkCreate 1 Raises) ''u1'' 1 1 Map.empty ?l state1"
  have p: "?P = (Inr (), snd ?P)" by code_simp
  have q: "?Q = (Inl (StoreError StoreFailure), snd ?Q)" by code_simp
  have n: "length (db_cards (st_db (snd ?Q))) = Suc (Suc (length (db_cards (st_db state1))))"
    by code_simp
  have len: "length (list_cards ?l) = 2" by (simp add: twoCardList_def)
  have idx: "[0..<length (list_cards ?l)] = [0, 1]" by (simp add: twoCardList_def upt_rec)
  have ttl: "map (\<lambda>c. take 255 (card_title c)) (list_cards ?l) = [''a'', ''b'']"
    by (simp add: twoCardList_def)
  from card_index_is_payload_position[OF p] obtain new1 where
    1: "db_cards (st_db (snd ?P)) = db_cards (st_db state1) @ new1"
    "new1 = [] \<or> map cards_index new1 = [0..<length (list_cards ?l)]
        \<and> map cards_title new1 = map (\<lambda>c. take 255 (card_title c)) (list_cards ?l)"
    "length new1 = length (list_cards ?l)"
    by blast
  from 1(3) len have "new1 \<noteq> []" by auto
  with 1 idx ttl have A: "\<exists>new. db_cards (st_db (snd ?P)) = db_cards (st_db state1) @ new
         \<and> map cards_index new = [0, 1] \<and> map cards_title new = [''a'', ''b'']"
    by auto
  from card_index_is_payload_position[OF q] obtain new2 where
    2: "db_cards (st_db (snd ?Q)) = db_cards (st_db state1) @ new2"
    "new2 = [] \<or> map cards_index new2 = [0..<length (list_cards ?l)]
        \<and> map cards_title new2 = map (\<lambda>c. take 255 (card_title c)) (list_cards ?l)"
    by blast
  from 2(1) n have "new2 \<noteq> []" by auto
  with 2 idx ttl have B: "\<exists>new. db_cards (st_db (snd ?Q)) = db_cards (st_db state1) @ new
         \<and> map cards_index new = [0, 1] \<and> map cards_title new = [''a'', ''b'']"
    by auto
  from q have "fst ?Q = Inl (StoreError StoreFailure)" by (rule arg_cong[where f = fst, THEN trans]) simp
  with A B show ?thesis by blast
qed

section \<open>Known lists and labels, in the store\<close>






section \<open>Relations and warnings of a name with white space at an end\<close>

text \<open>Every relation of the created cards comes from a name of the card that the map
  resolves.\<close>

lemma created_relation_source:
  assumes "p \<in> set (concat (map (cardLabelRelations lm (publicIdToCardData uid0 cs))
                   (map (\<lambda>r. (cards_id r, cards_publicId r))
                      (assign_ids base (cardsToInsert u lid i uid0 cs)))))"
  shows "\<exists>k < length cs. fst p = base + k
           \<and> (\<exists>x \<in> set (card_labels (cs ! k)). lm (toLowerCase x) = Some (snd p))"
proof -
  let ?new = "assign_ids base (cardsToInsert u lid i uid0 cs)"
  let ?lookup = "publicIdToCardData uid0 cs"
  from assms obtain row where row: "row \<in> set ?new"
    and p: "p \<in> set (cardLabelRelations lm ?lookup (cards_id row, cards_publicId row))"
    by auto
  from row obtain k where k: "k < length cs" "row = ?new ! k"
    by (auto simp: in_set_conv_nth inserted_cards_length)
  then have ids: "cards_id row = base + k" "cards_publicId row = uid0 + k"
    by (simp_all add: inserted_cards_nth)
  from cardLabelRelations_source[OF p] obtain c x where
    cx: "?lookup (cards_publicId row) = Some c" "x \<in> set (card_labels c)"
        "lm (toLowerCase x) = Some (snd p)"
    by auto
  from k(1) have "?lookup (uid0 + k) = Some (cs ! k)" by (rule publicIdToCardData_nth)
  with cx(1) ids have "c = cs ! k" by simp
  moreover from cardLabelRelations_fst[OF p] ids have "fst p = base + k" by simp
  ultimately show ?thesis using k(1) cx(2,3) by blast
qed

text \<open>The warnings of one list: those about labels are about cards with fewer distinct
  names than names.\<close>

lemma createItems_warnings:
  "createItems ctx u name title j cl k items s = (r, s') \<Longrightarrow>
     \<exists>ws. st_warnings s' = st_warnings s @ ws \<and> (\<forall>n t. DuplicateLabelsRemoved n t \<notin> set ws)"
proof (induction items arbitrary: k s)
  case Nil
  then show ?case by auto
next
  case (Cons it items)
  obtain r1 d1 where c: "checklistRepo_createItem ctx (take 500 (item_title it)) cl u (st_db s) = (r1, d1)"
    by (cases "checklistRepo_createItem ctx (take 500 (item_title it)) cl u (st_db s)")
  let ?w = "if length (item_title it) > 500
            then [ItemTitleTruncated name title (j + 1) (k + 1) (length (item_title it))] else []"
  show ?case
  proof (cases r1)
    case (Inl e)
    with Cons.prems c have "st_warnings s' = st_warnings s @ []" by auto
    then show ?thesis by (intro exI[of _ "[]"]) simp
  next
    case (Inr x)
    with Cons.prems c have "createItems ctx u name title j cl (Suc k) items
            (s\<lparr>st_db := d1, st_warnings := st_warnings s @ ?w\<rparr>) = (r, s')"
      by simp
    from Cons.IH[OF this] obtain ws where
      "st_warnings s' = st_warnings s @ ?w @ ws" "\<forall>n t. DuplicateLabelsRemoved n t \<notin> set ws"
      by auto
    then show ?thesis by (intro exI[of _ "?w @ ws"]) simp
  qed
qed

lemma createChecklists_warnings:
  "createChecklists ctx u name title cardId j cls s = (r, s') \<Longrightarrow>
     \<exists>ws. st_warnings s' = st_warnings s @ ws \<and> (\<forall>n t. DuplicateLabelsRemoved n t \<notin> set ws)"
proof (induction cls arbitrary: j s)
  case Nil
  then show ?case by auto
next
  case (Cons c cls)
  obtain r1 d1 where cr: "checklistRepo_create ctx (take 255 (checklist_name c)) cardId u (st_db s) = (r1, d1)"
    by (cases "checklistRepo_create ctx (take 255 (checklist_name c)) cardId u (st_db s)")
  let ?w = "if length (checklist_name c) > 255
            then [ChecklistNameTruncated name title (j + 1) (length (checklist_name c))] else []"
  consider (raise) e where "r1 = Inl e"
    | (skip) "r1 = Inr None \<or> r1 = Inr (Some 0)"
    | (made) x where "r1 = Inr (Some x)" "x \<noteq> 0"
    by (cases r1; cases "projr r1"; auto)
  then show ?case
  proof cases
    case raise
    with Cons.prems cr have "st_warnings s' = st_warnings s @ []" by auto
    then show ?thesis by (intro exI[of _ "[]"]) simp
  next
    case skip
    with Cons.prems cr have "createChecklists ctx u name title cardId (Suc j) cls (s\<lparr>st_db := d1\<rparr>) = (r, s')"
      by auto
    from Cons.IH[OF this] show ?thesis by simp
  next
    case made
    let ?s1 = "s\<lparr>st_db := d1, st_warnings := st_warnings s @ ?w\<rparr>"
    obtain r2 s2 where it: "createItems ctx u name title j x 0 (checklist_items c) ?s1 = (r2, s2)"
      by (cases "createItems ctx u name title j x 0 (checklist_items c) ?s1")
    from createItems_warnings[OF it] obtain ws2 where
      w2: "st_warnings s2 = st_warnings s @ ?w @ ws2" "\<forall>n t. DuplicateLabelsRemoved n t \<notin> set ws2"
      by auto
    show ?thesis
    proof (cases r2)
      case (Inl e)
      with Cons.prems cr made it have "s' = s2" by simp
      with w2 show ?thesis by (intro exI[of _ "?w @ ws2"]) simp
    next
      case (Inr y)
      with Cons.prems cr made it
      have "createChecklists ctx u name title cardId (Suc j) cls s2 = (r, s')" by simp
      from Cons.IH[OF this] obtain ws where
        "st_warnings s' = st_warnings s2 @ ws" "\<forall>n t. DuplicateLabelsRemoved n t \<notin> set ws"
        by auto
      with w2 show ?thesis by (intro exI[of _ "?w @ ws2 @ ws"]) simp
    qed
  qed
qed

lemma createCardChecklists_warnings:
  "createCardChecklists ctx u name cardDataOf created s = (r, s') \<Longrightarrow>
     \<exists>ws. st_warnings s' = st_warnings s @ ws \<and> (\<forall>n t. DuplicateLabelsRemoved n t \<notin> set ws)"
proof (induction created arbitrary: s)
  case Nil
  then show ?case by auto
next
  case (Cons cc created)
  show ?case
  proof (cases "cardDataOf (snd cc)")
    case None
    with Cons.prems have "createCardChecklists ctx u name cardDataOf created s = (r, s')" by simp
    from Cons.IH[OF this] show ?thesis .
  next
    case (Some c)
    obtain r1 s1 where cl: "createChecklists ctx u name (card_title c) (fst cc) 0 (card_checklists c) s = (r1, s1)"
      by (cases "createChecklists ctx u name (card_title c) (fst cc) 0 (card_checklists c) s")
    from createChecklists_warnings[OF cl] obtain ws1 where
      w1: "st_warnings s1 = st_warnings s @ ws1" "\<forall>n t. DuplicateLabelsRemoved n t \<notin> set ws1"
      by auto
    show ?thesis
    proof (cases r1)
      case (Inl e)
      with Cons.prems Some cl have "s' = s1" by simp
      with w1 show ?thesis by blast
    next
      case (Inr y)
      with Cons.prems Some cl
      have "createCardChecklists ctx u name cardDataOf created s1 = (r, s')" by simp
      from Cons.IH[OF this] obtain ws where
        "st_warnings s' = st_warnings s1 @ ws" "\<forall>n t. DuplicateLabelsRemoved n t \<notin> set ws"
        by auto
      with w1 show ?thesis by (intro exI[of _ "ws1 @ ws"]) simp
    qed
  qed
qed

lemma truncationWarnings_kind: "DuplicateLabelsRemoved n t \<notin> set (truncationWarnings name cs)"
  by (auto simp: truncationWarnings_def)

lemma publicIdToCardData_mem: "publicIdToCardData uid0 cs p = Some c \<Longrightarrow> c \<in> set cs"
  unfolding publicIdToCardData_def
  by (drule map_of_SomeD) (auto simp: in_set_enumerate_eq)

lemma duplicateLabelWarnings_source:
  assumes "w \<in> set (concat (map (duplicateLabelWarnings name (publicIdToCardData uid0 cs)) created))"
  shows "\<exists>c \<in> set cs. w = DuplicateLabelsRemoved name (card_title c)
           \<and> length (uniqueLabels c) < length (card_labels c)"
proof -
  from assms obtain cc where "w \<in> set (duplicateLabelWarnings name (publicIdToCardData uid0 cs) cc)"
    by auto
  then have "\<exists>c. publicIdToCardData uid0 cs (snd cc) = Some c
           \<and> w = DuplicateLabelsRemoved name (card_title c)
           \<and> length (uniqueLabels c) < length (card_labels c)"
    by (cases "publicIdToCardData uid0 cs (snd cc)")
       (auto simp: duplicateLabelWarnings_def split: if_splits)
  then show ?thesis using publicIdToCardData_mem by blast
qed

lemma insertCards_warnings:
  assumes "insertCards ctx u i lm l target s1 = (r, s')"
  shows "\<exists>ws. st_warnings s' = st_warnings s1 @ ws
           \<and> (\<forall>n t. DuplicateLabelsRemoved n t \<in> set ws \<longrightarrow>
                 (\<exists>c \<in> set (list_cards l). t = card_title c
                    \<and> length (uniqueLabels c) < length (card_labels c)))"
proof -
  let ?d1 = "(st_db s1)\<lparr>db_uid := db_uid (st_db s1) + length (list_cards l)\<rparr>"
  let ?tw = "truncationWarnings (listName l) (list_cards l)"
  let ?lookup = "publicIdToCardData (db_uid (st_db s1)) (list_cards l)"
  let ?P = "\<lambda>ws. \<forall>n t. DuplicateLabelsRemoved n t \<in> set ws \<longrightarrow>
                 (\<exists>c \<in> set (list_cards l). t = card_title c
                    \<and> length (uniqueLabels c) < length (card_labels c))"
  have tw: "?P ?tw" by (simp add: truncationWarnings_kind)
  obtain r2 d2 where c: "cardRepo_bulkCreate ctx
      (cardsToInsert u (fst target) i (db_uid (st_db s1)) (list_cards l)) ?d1 = (r2, d2)"
    by (cases "cardRepo_bulkCreate ctx
      (cardsToInsert u (fst target) i (db_uid (st_db s1)) (list_cards l)) ?d1")
  show ?thesis
  proof (cases "\<exists>created. r2 = Inr created \<and> created \<noteq> []")
    case False
    with assms c have "st_warnings s' = st_warnings s1 @ ?tw"
      by (cases r2) (auto simp: insertCards_def)
    with tw show ?thesis by blast
  next
    case True
    then obtain created where cr: "r2 = Inr created" "created \<noteq> []" by blast
    let ?s2 = "s1\<lparr>st_db := d2, st_warnings := st_warnings s1 @ ?tw,
                   st_allCreatedCards := st_allCreatedCards s1 @ created\<rparr>"
    let ?dw = "concat (map (duplicateLabelWarnings (listName l) ?lookup) created)"
    obtain r3 s3 where lk: "linkCreatedCards ctx u (listName l) lm ?lookup created ?s2 = (r3, s3)"
      by (cases "linkCreatedCards ctx u (listName l) lm ?lookup created ?s2")
    have dw: "?P ?dw" using duplicateLabelWarnings_source by blast
    from linkCreatedCards_store[OF lk] have
      "st_warnings s3 = st_warnings s1 @ ?tw \<or> st_warnings s3 = st_warnings s1 @ ?tw @ ?dw"
      by simp
    with tw dw have 3: "\<exists>ws. st_warnings s3 = st_warnings s1 @ ws \<and> ?P ws"
      by (elim disjE) (rule exI[of _ ?tw], simp, rule exI[of _ "?tw @ ?dw"], auto)
    show ?thesis
    proof (cases r3)
      case (Inl e)
      with assms c cr lk have "s' = s3" by (auto simp: insertCards_def)
      with 3 show ?thesis by simp
    next
      case (Inr x)
      with assms c cr lk
      have "createCardChecklists ctx u (listName l) ?lookup created s3 = (r, s')"
        by (auto simp: insertCards_def)
      from createCardChecklists_warnings[OF this] obtain ws4 where
        4: "st_warnings s' = st_warnings s3 @ ws4" "\<forall>n t. DuplicateLabelsRemoved n t \<notin> set ws4"
        by auto
      from 3 obtain ws3 where "st_warnings s3 = st_warnings s1 @ ws3" "?P ws3" by blast
      with 4 have "st_warnings s' = st_warnings s1 @ ws3 @ ws4 \<and> ?P (ws3 @ ws4)" by auto
      then show ?thesis by (rule exI)
    qed
  qed
qed

lemma processList_warnings:
  assumes "processList ctx u b i lm l s = (r, s')"
  shows "\<exists>ws. st_warnings s' = st_warnings s @ ws
           \<and> (\<forall>n t. DuplicateLabelsRemoved n t \<in> set ws \<longrightarrow>
                 (\<exists>c \<in> set (list_cards l). t = card_title c
                    \<and> length (uniqueLabels c) < length (card_labels c)))"
proof (cases "trim (listName l) = [] \<or> list_cards l = []")
  case True
  with assms have "s' = s" by (auto simp: processList_def split: if_splits)
  then show ?thesis by (intro exI[of _ "[]"]) simp
next
  case False
  obtain r1 s1 where f: "findOrCreateList ctx u b i l s = (r1, s1)"
    by (cases "findOrCreateList ctx u b i l s")
  from findOrCreateList_changes[OF f] have same: "st_warnings s1 = st_warnings s" by simp
  show ?thesis
  proof (cases r1)
    case (Inl e)
    with assms False f have "s' = s1" by (auto simp: processList_unfold)
    with same show ?thesis by (intro exI[of _ "[]"]) simp
  next
    case (Inr target)
    with assms False f have "insertCards ctx u i lm l target s1 = (r, s')"
      by (simp add: processList_unfold)
    from insertCards_warnings[OF this] same show ?thesis by simp
  qed
qed

lemma uniqueLabels_single: "trim nm \<noteq> [] \<Longrightarrow> card_labels c = [nm] \<Longrightarrow> length (uniqueLabels c) = 1"
  by (simp add: uniqueLabels_def js_set_def)

text \<open>The relations that one list writes, when the map does not know a name.\<close>

lemma relations_without:
  assumes "processList ctx u b i lm l s = (r, s')" and "lm (toLowerCase nm) = None"
  shows "\<exists>newCards newRels.
             db_cards (st_db s') = db_cards (st_db s) @ newCards
           \<and> db_cardsToLabels (st_db s') = db_cardsToLabels (st_db s) @ newRels
           \<and> (\<forall>p \<in> set newRels. \<exists>k < length newCards. k < length (list_cards l)
                 \<and> fst p = cards_id (newCards ! k)
                 \<and> (\<exists>x \<in> set (card_labels (list_cards l ! k)).
                       toLowerCase x \<noteq> toLowerCase nm \<and> lm (toLowerCase x) = Some (snd p)))
           \<and> (\<forall>k < length newCards. k < length (list_cards l) \<and> card_labels (list_cards l ! k) = [nm]
                 \<longrightarrow> (\<forall>p \<in> set newRels. fst p \<noteq> cards_id (newCards ! k)))"
proof -
  let ?cs = "list_cards l"
  let ?Q = "\<lambda>newCards newRels.
             (\<forall>p \<in> set newRels. \<exists>k < length newCards. k < length ?cs
                 \<and> fst p = cards_id (newCards ! k)
                 \<and> (\<exists>x \<in> set (card_labels (?cs ! k)).
                       toLowerCase x \<noteq> toLowerCase nm \<and> lm (toLowerCase x) = Some (snd p)))
           \<and> (\<forall>k < length newCards. k < length ?cs \<and> card_labels (?cs ! k) = [nm]
                 \<longrightarrow> (\<forall>p \<in> set newRels. fst p \<noteq> cards_id (newCards ! k)))"
  from processList_store[OF assms(1)] obtain lid base uid0 where
    alt: "(db_cards (st_db s') = db_cards (st_db s)
            \<and> db_cardsToLabels (st_db s') = db_cardsToLabels (st_db s))
       \<or> (db_cards (st_db s') = db_cards (st_db s)
              @ assign_ids base (cardsToInsert u lid i uid0 ?cs)
            \<and> (db_cardsToLabels (st_db s') = db_cardsToLabels (st_db s)
               \<or> db_cardsToLabels (st_db s') = db_cardsToLabels (st_db s)
                   @ concat (map (cardLabelRelations lm (publicIdToCardData uid0 ?cs))
                       (map (\<lambda>r. (cards_id r, cards_publicId r))
                          (assign_ids base (cardsToInsert u lid i uid0 ?cs))))))"
    by blast
  let ?new = "assign_ids base (cardsToInsert u lid i uid0 ?cs)"
  let ?rels = "concat (map (cardLabelRelations lm (publicIdToCardData uid0 ?cs))
                       (map (\<lambda>r. (cards_id r, cards_publicId r)) ?new))"
  have len: "length ?new = length ?cs" by (rule inserted_cards_length)
  have src: "\<exists>k < length ?cs. fst p = cards_id (?new ! k)
           \<and> (\<exists>x \<in> set (card_labels (?cs ! k)).
                 toLowerCase x \<noteq> toLowerCase nm \<and> lm (toLowerCase x) = Some (snd p))"
    if "p \<in> set ?rels" for p
  proof -
    from created_relation_source[OF that] obtain k x where
      k: "k < length ?cs" "fst p = base + k" "x \<in> set (card_labels (?cs ! k))"
         "lm (toLowerCase x) = Some (snd p)"
      by blast
    from k(4) assms(2) have "toLowerCase x \<noteq> toLowerCase nm" by auto
    with k show ?thesis by (auto simp: inserted_cards_nth)
  qed
  have single: "fst p \<noteq> cards_id (?new ! k)"
    if "k < length ?cs" "card_labels (?cs ! k) = [nm]" "p \<in> set ?rels" for k p
  proof
    assume eq: "fst p = cards_id (?new ! k)"
    from created_relation_source[OF that(3)] obtain k' x where
      k': "k' < length ?cs" "fst p = base + k'" "x \<in> set (card_labels (?cs ! k'))"
          "lm (toLowerCase x) = Some (snd p)"
      by blast
    from eq that(1) k'(2) have "k' = k" by (simp add: inserted_cards_nth)
    with k'(3) that(2) have "x = nm" by simp
    with k'(4) assms(2) show False by simp
  qed
  have full: "?Q ?new ?rels" using src single len by auto
  have none: "?Q cards []" for cards by simp
  from alt consider
      (a) "db_cards (st_db s') = db_cards (st_db s) @ []"
          "db_cardsToLabels (st_db s') = db_cardsToLabels (st_db s) @ []"
    | (b) "db_cards (st_db s') = db_cards (st_db s) @ ?new"
          "db_cardsToLabels (st_db s') = db_cardsToLabels (st_db s) @ []"
    | (c) "db_cards (st_db s') = db_cards (st_db s) @ ?new"
          "db_cardsToLabels (st_db s') = db_cardsToLabels (st_db s) @ ?rels"
    by auto
  then show ?thesis
  proof cases
    case a
    with none[of "[]"] show ?thesis by blast
  next
    case b
    with none[of ?new] show ?thesis by blast
  next
    case c
    with full show ?thesis by blast
  qed
qed

text \<open>
  Claim C10, as amended. Let a card of the payload carry a label name that has white
  space at an end and is not blank, let no label of the board have this untrimmed name
  (ignoring case), and let the label write of the store answer. Then after the labels are
  resolved the board has a label under the trimmed name and the map knows it, but the
  lookup of the name as the card gives it finds nothing. Whatever becomes of the
  processing of the list: every label relation it writes is that of a card of the list to
  the label of another of its names, the row of a card whose only name this is gets no
  relation, and every warning about labels is about a card with fewer distinct names
  than names, which a card with this name alone is not.
\<close>

theorem padded_label_is_not_related:
  assumes "l \<in> set ls" and "c \<in> set (list_cards l)" and "nm \<in> set (card_labels c)"
    and "trim nm \<noteq> nm" and "trim nm \<noteq> []"
    and "resolveLabels ctx u b i ls d = (Inr lm, d1)"
    and "ctx_outcome ctx LabelBulkCreate (db_tick d) = Returns"
    and "list_all (\<lambda>row. toLowerCase (labels_name row) \<noteq> toLowerCase nm) (boardLabels b d)"
    and "processList ctx u b i lm l s = (r, s')"
  shows "(\<exists>row \<in> set (boardLabels b d1). toLowerCase (labels_name row) = toLowerCase (trim nm))
       \<and> lm (toLowerCase (trim nm)) \<noteq> None
       \<and> lm (toLowerCase nm) = None
       \<and> (\<exists>newCards newRels ws.
             db_cards (st_db s') = db_cards (st_db s) @ newCards
           \<and> db_cardsToLabels (st_db s') = db_cardsToLabels (st_db s) @ newRels
           \<and> st_warnings s' = st_warnings s @ ws
           \<and> (\<forall>p \<in> set newRels. \<exists>k < length newCards. k < length (list_cards l)
                 \<and> fst p = cards_id (newCards ! k)
                 \<and> (\<exists>x \<in> set (card_labels (list_cards l ! k)).
                       toLowerCase x \<noteq> toLowerCase nm \<and> lm (toLowerCase x) = Some (snd p)))
           \<and> (\<forall>k < length newCards. k < length (list_cards l) \<and> card_labels (list_cards l ! k) = [nm]
                 \<longrightarrow> (\<forall>p \<in> set newRels. fst p \<noteq> cards_id (newCards ! k)))
           \<and> (\<forall>n t. DuplicateLabelsRemoved n t \<in> set ws \<longrightarrow>
                 (\<exists>c' \<in> set (list_cards l). t = card_title c' \<and> card_labels c' \<noteq> [nm]
                    \<and> length (uniqueLabels c') < length (card_labels c'))))"
proof -
  let ?m = "existingLabelMap (boardLabels b d)"
  have unknown: "lm (toLowerCase nm) = None"
  proof (rule resolveLabels_unknown[OF assms(6)])
    show "?m (toLowerCase nm) = None"
      using assms(8) by (simp add: existingLabelMap_None list_all_iff)
    show "toLowerCase nm \<notin> toLowerCase ` set (allLabelNames ls)"
    proof
      assume "toLowerCase nm \<in> toLowerCase ` set (allLabelNames ls)"
      then obtain n where "n \<in> set (allLabelNames ls)" "toLowerCase n = toLowerCase nm" by auto
      with allLabelNames_trimmed obtain x where "toLowerCase (trim x) = toLowerCase nm" by blast
      with trimmed_differs[OF assms(4)] show False by blast
    qed
  qed
  have tn: "trim nm \<in> set (allLabelNames ls)"
    using assms(1,2,3,5) by (rule allLabelNames_mem)
  have known: "(\<exists>row \<in> set (boardLabels b d1). toLowerCase (labels_name row) = toLowerCase (trim nm))
               \<and> lm (toLowerCase (trim nm)) \<noteq> None"
  proof (cases "?m (toLowerCase (trim nm))")
    case None
    with tn have "trim nm \<in> set (labelsToCreate ?m (allLabelNames ls))"
      by (simp add: labelsToCreate_def)
    from resolveLabels_created[OF assms(6,7) this] show ?thesis by metis
  next
    case (Some x)
    from existingLabelMap_Some[OF Some] obtain row where
      "row \<in> set (boardLabels b d)" "toLowerCase (labels_name row) = toLowerCase (trim nm)"
      by blast
    with resolveLabels_board_kept[OF assms(6)] resolveLabels_existing[OF assms(6) Some]
    show ?thesis by auto
  qed
  from relations_without[OF assms(9) unknown] obtain newCards newRels where
    st: "db_cards (st_db s') = db_cards (st_db s) @ newCards"
        "db_cardsToLabels (st_db s') = db_cardsToLabels (st_db s) @ newRels"
        "\<forall>p \<in> set newRels. \<exists>k < length newCards. k < length (list_cards l)
                 \<and> fst p = cards_id (newCards ! k)
                 \<and> (\<exists>x \<in> set (card_labels (list_cards l ! k)).
                       toLowerCase x \<noteq> toLowerCase nm \<and> lm (toLowerCase x) = Some (snd p))"
        "\<forall>k < length newCards. k < length (list_cards l) \<and> card_labels (list_cards l ! k) = [nm]
                 \<longrightarrow> (\<forall>p \<in> set newRels. fst p \<noteq> cards_id (newCards ! k))"
    by blast
  from processList_warnings[OF assms(9)] obtain ws where
    w: "st_warnings s' = st_warnings s @ ws"
       "\<forall>n t. DuplicateLabelsRemoved n t \<in> set ws \<longrightarrow>
                 (\<exists>c' \<in> set (list_cards l). t = card_title c'
                    \<and> length (uniqueLabels c') < length (card_labels c'))"
    by blast
  have w': "\<forall>n t. DuplicateLabelsRemoved n t \<in> set ws \<longrightarrow>
                 (\<exists>c' \<in> set (list_cards l). t = card_title c' \<and> card_labels c' \<noteq> [nm]
                    \<and> length (uniqueLabels c') < length (card_labels c'))"
  proof (intro allI impI)
    fix n t
    assume "DuplicateLabelsRemoved n t \<in> set ws"
    with w(2) obtain c' where c': "c' \<in> set (list_cards l)" "t = card_title c'"
      "length (uniqueLabels c') < length (card_labels c')" by blast
    have "card_labels c' \<noteq> [nm]"
    proof
      assume e: "card_labels c' = [nm]"
      from uniqueLabels_single[OF assms(5) e] e c'(3) show False by simp
    qed
    with c' show "\<exists>c' \<in> set (list_cards l). t = card_title c' \<and> card_labels c' \<noteq> [nm]
                    \<and> length (uniqueLabels c') < length (card_labels c')" by blast
  qed
  from st w(1) w' have "\<exists>newCards newRels ws.
             db_cards (st_db s') = db_cards (st_db s) @ newCards
           \<and> db_cardsToLabels (st_db s') = db_cardsToLabels (st_db s) @ newRels
           \<and> st_warnings s' = st_warnings s @ ws
           \<and> (\<forall>p \<in> set newRels. \<exists>k < length newCards. k < length (list_cards l)
                 \<and> fst p = cards_id (newCards ! k)
                 \<and> (\<exists>x \<in> set (card_labels (list_cards l ! k)).
                       toLowerCase x \<noteq> toLowerCase nm \<and> lm (toLowerCase x) = Some (snd p)))
           \<and> (\<forall>k < length newCards. k < length (list_cards l) \<and> card_labels (list_cards l ! k) = [nm]
                 \<longrightarrow> (\<forall>p \<in> set newRels. fst p \<noteq> cards_id (newCards ! k)))
           \<and> (\<forall>n t. DuplicateLabelsRemoved n t \<in> set ws \<longrightarrow>
                 (\<exists>c' \<in> set (list_cards l). t = card_title c' \<and> card_labels c' \<noteq> [nm]
                    \<and> length (uniqueLabels c') < length (card_labels c')))"
    by blast
  with known unknown show ?thesis by blast
qed

theorem padded_label_is_not_related_witness:
  "\<exists>lm d1. resolveLabels ctx0 ''u1'' 1 1
              [\<lparr>listName = ''L'', list_cards = [labelledCard ['' Bug'']]\<rparr>] db0 = (Inr lm, d1)
     \<and> (\<exists>row \<in> set (boardLabels 1 d1). toLowerCase (labels_name row) = toLowerCase (trim '' Bug''))
     \<and> lm (toLowerCase (trim '' Bug'')) \<noteq> None
     \<and> lm (toLowerCase '' Bug'') = None
     \<and> db_cardsToLabels (st_db (snd (processList ctx0 ''u1'' 1 1 lm
            \<lparr>listName = ''L'', list_cards = [labelledCard ['' Bug'']]\<rparr> (initialState 1 db0 d1)))) = []"
proof -
  let ?c = "labelledCard ['' Bug'']"
  let ?l = "\<lparr>listName = ''L'', list_cards = [?c]\<rparr>"
  have "checklistFailuresOnly ctx0" by (simp add: checklistFailuresOnly_def ctx0_def)
  from resolveLabels_succeeds[OF this] obtain lm d1 where
    r: "resolveLabels ctx0 ''u1'' 1 1 [?l] db0 = (Inr lm, d1)" by blast
  let ?P = "processList ctx0 ''u1'' 1 1 lm ?l (initialState 1 db0 d1)"
  have a1: "?l \<in> set [?l]" by simp
  have a2: "?c \<in> set (list_cards ?l)" by simp
  have a3: "'' Bug'' \<in> set (card_labels ?c)" by (simp add: labelledCard_def)
  have a4: "trim '' Bug'' \<noteq> '' Bug''" by code_simp
  have a5: "trim '' Bug'' \<noteq> []" by code_simp
  have a7: "ctx_outcome ctx0 LabelBulkCreate (db_tick db0) = Returns" by (simp add: ctx0_def)
  have a8: "list_all (\<lambda>row. toLowerCase (labels_name row) \<noteq> toLowerCase '' Bug'') (boardLabels 1 db0)"
    by code_simp
  have a9: "?P = (fst ?P, snd ?P)" by simp
  from resolveLabels_changes[OF r] have "db_cardsToLabels d1 = db_cardsToLabels db0"
    by (simp add: changes_def grows_def)
  then have e0: "db_cardsToLabels (st_db (initialState 1 db0 d1)) = []"
    by (simp add: initialState_def db0_def)
  have one: "card_labels (list_cards ?l ! 0) = ['' Bug'']" "length (list_cards ?l) = 1"
    by (simp_all add: labelledCard_def)
  note T = padded_label_is_not_related[OF a1 a2 a3 a4 a5 r a7 a8 a9]
  note k = T[THEN conjunct1] T[THEN conjunct2, THEN conjunct1]
    T[THEN conjunct2, THEN conjunct2, THEN conjunct1]
  from T[THEN conjunct2, THEN conjunct2, THEN conjunct2] obtain newCards newRels ws where
    X: "db_cards (st_db (snd ?P)) = db_cards (st_db (initialState 1 db0 d1)) @ newCards
           \<and> db_cardsToLabels (st_db (snd ?P))
               = db_cardsToLabels (st_db (initialState 1 db0 d1)) @ newRels
           \<and> st_warnings (snd ?P) = st_warnings (initialState 1 db0 d1) @ ws
           \<and> (\<forall>p \<in> set newRels. \<exists>k < length newCards. k < length (list_cards ?l)
                 \<and> fst p = cards_id (newCards ! k)
                 \<and> (\<exists>x \<in> set (card_labels (list_cards ?l ! k)).
                       toLowerCase x \<noteq> toLowerCase '' Bug'' \<and> lm (toLowerCase x) = Some (snd p)))
           \<and> (\<forall>k < length newCards. k < length (list_cards ?l)
                   \<and> card_labels (list_cards ?l ! k) = ['' Bug'']
                 \<longrightarrow> (\<forall>p \<in> set newRels. fst p \<noteq> cards_id (newCards ! k)))
           \<and> (\<forall>n t. DuplicateLabelsRemoved n t \<in> set ws \<longrightarrow>
                 (\<exists>c' \<in> set (list_cards ?l). t = card_title c' \<and> card_labels c' \<noteq> ['' Bug'']
                    \<and> length (uniqueLabels c') < length (card_labels c')))"
    by (elim exE) (rule that)
  note st = X[THEN conjunct2, THEN conjunct1]
  note src = X[THEN conjunct2, THEN conjunct2, THEN conjunct2, THEN conjunct1]
  note single = X[THEN conjunct2, THEN conjunct2, THEN conjunct2, THEN conjunct2, THEN conjunct1]
  have "newRels = []"
  proof (rule ccontr)
    assume "newRels \<noteq> []"
    then obtain p where p: "p \<in> set newRels" by (cases newRels) auto
    with src obtain k where "k < length newCards" "k < length (list_cards ?l)"
      "fst p = cards_id (newCards ! k)" by blast
    with one single p show False by auto
  qed
  with st e0 have "db_cardsToLabels (st_db (snd ?P)) = []" by simp
  with r k show ?thesis by blast
qed

text \<open>
  Claim C10 as stated fails where the board has a label with the untrimmed name: the
  card is then related to that label.
\<close>

theorem padded_label_related_to_padded_board_label:
  "db_cardsToLabels (snd (importCards ctx0 (payload (JArr [jlist ''L'' [jcard ''a'' ['' Bug'']]])) dbPadded))
   = [(1, 1)]"
  by code_simp

section \<open>The export of what an import wrote\<close>

lemma filter_sort_key_in:
  "filter (\<lambda>x. g x = k) (sort_key f (filter (\<lambda>x. g x \<in> S \<and> P x) xs))
   = (if k \<in> S then sort_key f (filter (\<lambda>x. g x = k \<and> P x) xs) else [])"
proof -
  have "filter (\<lambda>x. g x = k) (filter (\<lambda>x. g x \<in> S \<and> P x) xs)
        = (if k \<in> S then filter (\<lambda>x. g x = k \<and> P x) xs else [])"
    by (induction xs) auto
  then show ?thesis by (simp add: filter_sort)
qed

lemma exportData_lists:
  "exportData boardId d =
     (if None \<in> set (map (\<lambda>cl. labelNameOf d (snd cl)) (boardRelations boardId d))
      then Inl (StoreError MissingLabel)
      else Inr (exportLists boardId d))"
proof -
  let ?lists = "sort_key lists_index (boardLists boardId d)"
  let ?allCards = "sort_key cards_index
            (filter (\<lambda>c. cards_listId c \<in> set (map lists_id ?lists) \<and> \<not> cards_deleted c) (db_cards d))"
  let ?cardIds = "map cards_id ?allCards"
  let ?cardLabels = "filter (\<lambda>cl. fst cl \<in> set ?cardIds) (db_cardsToLabels d)"
  let ?checklists = "sort_key checklists_index
            (filter (\<lambda>cl. checklists_cardId cl \<in> set ?cardIds \<and> \<not> checklists_deleted cl)
               (db_checklists d))"
  let ?checklistIds = "map checklists_id ?checklists"
  let ?items = "sort_key checklistItems_index
            (filter (\<lambda>i. checklistItems_checklistId i \<in> set ?checklistIds \<and> \<not> checklistItems_deleted i)
               (db_checklistItems d))"
  have items: "exportItems ?items cl = exportItemsOf d (checklists_id cl)"
    if "cl \<in> set ?checklists" for cl
  proof -
    from that have "checklists_id cl \<in> set ?checklistIds" by simp
    then show ?thesis
      unfolding exportItems_def exportItemsOf_def itemsOf_def
      by (simp only: filter_sort_key_in if_True)
  qed
  have card: "exportCard d ?cardLabels ?checklists ?items c = exportCardOf d c"
    if "c \<in> set ?allCards" for c
  proof -
    from that have in_ids: "cards_id c \<in> set ?cardIds" by simp
    have 1: "filter (\<lambda>cl. fst cl = cards_id c) ?cardLabels = relsOf d (cards_id c)"
      using in_ids unfolding relsOf_def
      by (simp only: filter_filter) (rule filter_cong, auto)
    have 2: "filter (\<lambda>cl. checklists_cardId cl = cards_id c) ?checklists
             = sort_key checklists_index (checklistsOf d (cards_id c))"
      using in_ids by (simp only: filter_sort_key_in checklistsOf_def if_True)
    have 3: "map (\<lambda>checklist. \<lparr>checklist_name = checklists_name checklist,
                            checklist_items = exportItems ?items checklist\<rparr>)
               (sort_key checklists_index (checklistsOf d (cards_id c)))
             = exportChecklistsOf d (cards_id c)"
      unfolding exportChecklistsOf_def
    proof (rule map_cong[OF refl])
      fix cl
      assume "cl \<in> set (sort_key checklists_index (checklistsOf d (cards_id c)))"
      then have "cl \<in> set ?checklists" using in_ids by (auto simp: checklistsOf_def)
      then have "exportItems ?items cl = exportItemsOf d (checklists_id cl)" by (rule items)
      then show "\<lparr>checklist_name = checklists_name cl, checklist_items = exportItems ?items cl\<rparr>
                 = \<lparr>checklist_name = checklists_name cl,
                    checklist_items = exportItemsOf d (checklists_id cl)\<rparr>"
        by (simp only:)
    qed
    show ?thesis
      unfolding exportCard_def exportCardOf_def exportLabelsOf_def 1 2 3 by (rule refl)
  qed
  have list: "\<lparr>listName = lists_name l,
               list_cards = map (exportCard d ?cardLabels ?checklists ?items)
                              (filter (\<lambda>c. cards_listId c = lists_id l) ?allCards)\<rparr>
              = exportListOf d l"
    if "l \<in> set ?lists" for l
  proof -
    from that have "lists_id l \<in> set (map lists_id ?lists)" by simp
    then have f: "filter (\<lambda>c. cards_listId c = lists_id l) ?allCards
               = sort_key cards_index (cardsOf d (lists_id l))"
      by (simp only: filter_sort_key_in cardsOf_def if_True)
    have "map (exportCard d ?cardLabels ?checklists ?items)
            (filter (\<lambda>c. cards_listId c = lists_id l) ?allCards)
          = map (exportCardOf d) (filter (\<lambda>c. cards_listId c = lists_id l) ?allCards)"
    proof (rule map_cong[OF refl])
      fix c
      assume "c \<in> set (filter (\<lambda>c. cards_listId c = lists_id l) ?allCards)"
      then have "c \<in> set ?allCards" by (simp only: set_filter mem_Collect_eq)
      then show "exportCard d ?cardLabels ?checklists ?items c = exportCardOf d c" by (rule card)
    qed
    then show ?thesis unfolding exportListOf_def f by (simp only:)
  qed
  have all: "map (\<lambda>l. \<lparr>listName = lists_name l,
                        list_cards = map (exportCard d ?cardLabels ?checklists ?items)
                                       (filter (\<lambda>c. cards_listId c = lists_id l) ?allCards)\<rparr>) ?lists
             = exportLists boardId d"
    unfolding exportLists_def by (rule map_cong[OF refl]) (rule list)
  have rel: "?cardLabels = boardRelations boardId d"
    by (simp add: boardRelations_def)
  have "exportData boardId d =
      (if None \<in> set (map (\<lambda>cl. labelNameOf d (snd cl)) ?cardLabels)
       then Inl (StoreError MissingLabel)
       else Inr (map (\<lambda>l. \<lparr>listName = lists_name l,
                        list_cards = map (exportCard d ?cardLabels ?checklists ?items)
                                       (filter (\<lambda>c. cards_listId c = lists_id l) ?allCards)\<rparr>) ?lists))"
    unfolding exportData_def Let_def by (rule refl)
  also have "\<dots> = (if None \<in> set (map (\<lambda>cl. labelNameOf d (snd cl)) ?cardLabels)
       then Inl (StoreError MissingLabel) else Inr (exportLists boardId d))"
    by (simp only: all)
  also have "\<dots> = (if None \<in> set (map (\<lambda>cl. labelNameOf d (snd cl)) (boardRelations boardId d))
       then Inl (StoreError MissingLabel) else Inr (exportLists boardId d))"
    by (simp only: rel)
  finally show ?thesis .
qed


lemma exportItemsOf_sorted:
  "map checklistItems_index (itemsOf d c) = [0..<n] \<Longrightarrow>
     exportItemsOf d c =
       map (\<lambda>item. \<lparr>item_title = checklistItems_title item,
                     item_completed = checklistItems_completed item\<rparr>) (itemsOf d c)"
  by (simp add: exportItemsOf_def sort_key_id_if_sorted)

lemma upt_length: "map f xs = [0..<n] \<Longrightarrow> length xs = n"
  by (metis length_map length_upt diff_zero)

lemma exportItemsOf_cong: "itemsOf d' c = itemsOf d c \<Longrightarrow> exportItemsOf d' c = exportItemsOf d c"
  by (simp add: exportItemsOf_def)

lemma exportChecklistsOf_sorted:
  "map checklists_index (checklistsOf d c) = [0..<n] \<Longrightarrow>
     exportChecklistsOf d c =
       map (\<lambda>cl. \<lparr>checklist_name = checklists_name cl,
                   checklist_items = exportItemsOf d (checklists_id cl)\<rparr>) (checklistsOf d c)"
  by (simp add: exportChecklistsOf_def sort_key_id_if_sorted)

lemma checklistsOf_ids: "cl \<in> set (checklistsOf d c) \<Longrightarrow> checklists_id cl \<in> set (map checklists_id (db_checklists d))"
  by (auto simp: checklistsOf_def)

lemma itemsOf_fresh:
  "itemsRef d \<Longrightarrow> x \<notin> set (map checklists_id (db_checklists d)) \<Longrightarrow> itemsOf d x = []"
  by (auto simp: itemsRef_def itemsOf_def filter_empty_conv)

lemma exportChecklistsOf_cong:
  assumes "checklistsOf d' c = checklistsOf d c"
    and "\<forall>x \<in> set (map checklists_id (db_checklists d)). itemsOf d' x = itemsOf d x"
  shows "exportChecklistsOf d' c = exportChecklistsOf d c"
  unfolding exportChecklistsOf_def assms(1)
proof (rule map_cong[OF refl])
  fix cl
  assume "cl \<in> set (sort_key checklists_index (checklistsOf d c))"
  then have "cl \<in> set (checklistsOf d c)" by simp
  then have "checklists_id cl \<in> set (map checklists_id (db_checklists d))" by (rule checklistsOf_ids)
  with assms(2) have "itemsOf d' (checklists_id cl) = itemsOf d (checklists_id cl)" by blast
  then have "exportItemsOf d' (checklists_id cl) = exportItemsOf d (checklists_id cl)"
    by (rule exportItemsOf_cong)
  then show "\<lparr>checklist_name = checklists_name cl, checklist_items = exportItemsOf d' (checklists_id cl)\<rparr>
           = \<lparr>checklist_name = checklists_name cl, checklist_items = exportItemsOf d (checklists_id cl)\<rparr>"
    by simp
qed

lemma exportChecklistsOf_none: "checklistsOf d c = [] \<Longrightarrow> exportChecklistsOf d c = []"
  by (simp add: exportChecklistsOf_def)

section \<open>Checklists and items whose creation returns nothing\<close>

lemma checklistFailuresOnly_neverRaise: "checklistFailuresOnly ctx \<Longrightarrow> checklistsNeverRaise ctx"
  by (simp add: checklistFailuresOnly_def checklistsNeverRaise_def)

lemma createItem_cases:
  assumes "checklistsNeverRaise ctx"
  shows "ctx_outcome ctx ChecklistItemCreate (db_tick d) = Returns
           \<and> checklistRepo_createItem ctx t clid u d =
               (Inr (Some (checklistItems_id (newItemRow d t clid u))),
                d\<lparr>db_tick := Suc (db_tick d),
                  db_checklistItems := db_checklistItems d @ [newItemRow d t clid u]\<rparr>)
         \<or> ctx_outcome ctx ChecklistItemCreate (db_tick d) \<noteq> Returns
           \<and> checklistRepo_createItem ctx t clid u d = (Inr None, d\<lparr>db_tick := Suc (db_tick d)\<rparr>)"
  using assms
  by (cases "ctx_outcome ctx ChecklistItemCreate (db_tick d)")
     (auto simp: checklistsNeverRaise_def checklistRepo_createItem_def store_call_def
        itemsOf_def newItemRow_def)

lemma create_cases:
  assumes "checklistsNeverRaise ctx"
  shows "ctx_outcome ctx ChecklistCreate (db_tick d) = Returns
           \<and> checklistRepo_create ctx n cid u d =
               (Inr (Some (checklists_id (newChecklistRow d n cid u))),
                d\<lparr>db_tick := Suc (db_tick d),
                  db_checklists := db_checklists d @ [newChecklistRow d n cid u]\<rparr>)
         \<or> ctx_outcome ctx ChecklistCreate (db_tick d) \<noteq> Returns
           \<and> checklistRepo_create ctx n cid u d = (Inr None, d\<lparr>db_tick := Suc (db_tick d)\<rparr>)"
  using assms
  by (cases "ctx_outcome ctx ChecklistCreate (db_tick d)")
     (auto simp: checklistsNeverRaise_def checklistRepo_create_def store_call_def
        checklistsOf_def newChecklistRow_def)

text \<open>The items of one checklist.\<close>

lemma createItems_surviving:
  assumes "checklistsNeverRaise ctx"
  shows "map checklistItems_index (itemsOf (st_db s) clid) = [0..<n] \<Longrightarrow>
     \<exists>s'. createItems ctx u nm t j clid k its s = (Inr (), s')
       \<and> exportItemsOf (st_db s') clid
           = exportItemsOf (st_db s) clid @ survivingItems ctx (db_tick (st_db s)) its
       \<and> db_tick (st_db s') = db_tick (st_db s) + length its
       \<and> (\<forall>c. c \<noteq> clid \<longrightarrow> itemsOf (st_db s') c = itemsOf (st_db s) c)
       \<and> set (map checklistItems_checklistId (db_checklistItems (st_db s')))
           \<subseteq> insert clid (set (map checklistItems_checklistId (db_checklistItems (st_db s))))"
proof (induction its arbitrary: s n k)
  case Nil
  show ?case by auto
next
  case (Cons it its)
  let ?D = "st_db s"
  let ?w = "st_warnings s @
                 (if length (item_title it) > 500
                  then [ItemTitleTruncated nm t (j + 1) (k + 1) (length (item_title it))]
                  else [])"
  define row where "row = newItemRow ?D (take 500 (item_title it)) clid u"
  from Cons.prems have len: "length (itemsOf ?D clid) = n" by (rule upt_length)
  from createItem_cases[OF assms, of ?D "take 500 (item_title it)" clid u]
  consider (made) "ctx_outcome ctx ChecklistItemCreate (db_tick ?D) = Returns"
      "checklistRepo_createItem ctx (take 500 (item_title it)) clid u ?D =
           (Inr (Some (checklistItems_id row)),
            ?D\<lparr>db_tick := Suc (db_tick ?D), db_checklistItems := db_checklistItems ?D @ [row]\<rparr>)"
    | (skipped) "ctx_outcome ctx ChecklistItemCreate (db_tick ?D) \<noteq> Returns"
      "checklistRepo_createItem ctx (take 500 (item_title it)) clid u ?D
         = (Inr None, ?D\<lparr>db_tick := Suc (db_tick ?D)\<rparr>)"
    unfolding row_def by blast
  then show ?case
  proof cases
    case made
    have row: "checklistItems_title row = take 500 (item_title it)" "\<not> checklistItems_completed row"
        "checklistItems_checklistId row = clid" "\<not> checklistItems_deleted row"
        "checklistItems_index row = length (itemsOf ?D clid)"
      by (simp_all add: row_def newItemRow_def)
    let ?D1 = "?D\<lparr>db_tick := Suc (db_tick ?D), db_checklistItems := db_checklistItems ?D @ [row]\<rparr>"
    let ?s1 = "s\<lparr>st_db := ?D1, st_warnings := ?w\<rparr>"
    have own: "itemsOf ?D1 clid = itemsOf ?D clid @ [row]"
      using row by (simp add: itemsOf_def)
    have other: "itemsOf ?D1 c = itemsOf ?D c" if "c \<noteq> clid" for c
      using row that by (simp add: itemsOf_def)
    have idx: "map checklistItems_index (itemsOf (st_db ?s1) clid) = [0..<Suc n]"
      using Cons.prems row len by (simp add: own)
    from Cons.IH[OF idx, of "Suc k"] obtain s' where
      run: "createItems ctx u nm t j clid (Suc k) its ?s1 = (Inr (), s')"
      and e: "exportItemsOf (st_db s') clid
                = exportItemsOf (st_db ?s1) clid @ survivingItems ctx (db_tick (st_db ?s1)) its"
      and tk: "db_tick (st_db s') = db_tick (st_db ?s1) + length its"
      and o: "\<forall>c. c \<noteq> clid \<longrightarrow> itemsOf (st_db s') c = itemsOf (st_db ?s1) c"
      and r: "set (map checklistItems_checklistId (db_checklistItems (st_db s')))
             \<subseteq> insert clid (set (map checklistItems_checklistId (db_checklistItems (st_db ?s1))))"
      by blast
    have "exportItemsOf ?D1 clid = exportItemsOf ?D clid @ [expectedItem it]"
      using exportItemsOf_sorted[OF Cons.prems] exportItemsOf_sorted[of ?D1 clid "Suc n"] idx row
      by (simp add: own expectedItem_def)
    with e made(1) have 1: "exportItemsOf (st_db s') clid
        = exportItemsOf ?D clid @ survivingItems ctx (db_tick ?D) (it # its)"
      by simp
    from tk have 2: "db_tick (st_db s') = db_tick ?D + length (it # its)" by simp
    from o other have 3: "\<forall>c. c \<noteq> clid \<longrightarrow> itemsOf (st_db s') c = itemsOf ?D c" by simp
    from r row have 4: "set (map checklistItems_checklistId (db_checklistItems (st_db s')))
             \<subseteq> insert clid (set (map checklistItems_checklistId (db_checklistItems ?D)))"
      by auto
    from made(2) run have "createItems ctx u nm t j clid k (it # its) s = (Inr (), s')" by simp
    with 1 2 3 4 show ?thesis by blast
  next
    case skipped
    let ?D1 = "?D\<lparr>db_tick := Suc (db_tick ?D)\<rparr>"
    let ?s1 = "s\<lparr>st_db := ?D1, st_warnings := ?w\<rparr>"
    have same: "itemsOf ?D1 c = itemsOf ?D c" for c by (simp add: itemsOf_def)
    have idx: "map checklistItems_index (itemsOf (st_db ?s1) clid) = [0..<n]"
      using Cons.prems by (simp add: same)
    from Cons.IH[OF idx, of "Suc k"] obtain s' where
      run: "createItems ctx u nm t j clid (Suc k) its ?s1 = (Inr (), s')"
      and e: "exportItemsOf (st_db s') clid
                = exportItemsOf (st_db ?s1) clid @ survivingItems ctx (db_tick (st_db ?s1)) its"
      and tk: "db_tick (st_db s') = db_tick (st_db ?s1) + length its"
      and o: "\<forall>c. c \<noteq> clid \<longrightarrow> itemsOf (st_db s') c = itemsOf (st_db ?s1) c"
      and r: "set (map checklistItems_checklistId (db_checklistItems (st_db s')))
             \<subseteq> insert clid (set (map checklistItems_checklistId (db_checklistItems (st_db ?s1))))"
      by blast
    have "exportItemsOf ?D1 clid = exportItemsOf ?D clid" by (rule exportItemsOf_cong) (rule same)
    with e skipped(1) have 1: "exportItemsOf (st_db s') clid
        = exportItemsOf ?D clid @ survivingItems ctx (db_tick ?D) (it # its)"
      by simp
    from tk have 2: "db_tick (st_db s') = db_tick ?D + length (it # its)" by simp
    from o same have 3: "\<forall>c. c \<noteq> clid \<longrightarrow> itemsOf (st_db s') c = itemsOf ?D c" by simp
    from r have 4: "set (map checklistItems_checklistId (db_checklistItems (st_db s')))
             \<subseteq> insert clid (set (map checklistItems_checklistId (db_checklistItems ?D)))"
      by auto
    from skipped(2) run have "createItems ctx u nm t j clid k (it # its) s = (Inr (), s')" by simp
    with 1 2 3 4 show ?thesis by blast
  qed
qed

text \<open>The checklists of one card.\<close>

lemma createChecklists_surviving:
  assumes "checklistsNeverRaise ctx"
  shows "map checklists_index (checklistsOf (st_db s) cid) = [0..<n] \<Longrightarrow> itemsRef (st_db s) \<Longrightarrow>
     \<exists>s'. createChecklists ctx u nm t cid j cls s = (Inr (), s')
       \<and> exportChecklistsOf (st_db s') cid
           = exportChecklistsOf (st_db s) cid @ survivingChecklists ctx (db_tick (st_db s)) cls
       \<and> (\<forall>c. c \<noteq> cid \<longrightarrow> checklistsOf (st_db s') c = checklistsOf (st_db s) c)
       \<and> (\<forall>x \<in> set (map checklists_id (db_checklists (st_db s))).
             itemsOf (st_db s') x = itemsOf (st_db s) x)
       \<and> itemsRef (st_db s')
       \<and> set (map checklists_cardId (db_checklists (st_db s')))
           \<subseteq> insert cid (set (map checklists_cardId (db_checklists (st_db s))))
       \<and> db_tick (st_db s) \<le> db_tick (st_db s')"
proof (induction cls arbitrary: s n j)
  case Nil
  then show ?case by auto
next
  case (Cons c cls)
  let ?D = "st_db s"
  define row where "row = newChecklistRow ?D (take 255 (checklist_name c)) cid u"
  let ?x = "checklists_id row"
  from create_cases[OF assms, of ?D "take 255 (checklist_name c)" cid u]
  consider (made) "ctx_outcome ctx ChecklistCreate (db_tick ?D) = Returns"
      "checklistRepo_create ctx (take 255 (checklist_name c)) cid u ?D =
         (Inr (Some ?x),
          ?D\<lparr>db_tick := Suc (db_tick ?D), db_checklists := db_checklists ?D @ [row]\<rparr>)"
    | (skipped) "ctx_outcome ctx ChecklistCreate (db_tick ?D) \<noteq> Returns"
      "checklistRepo_create ctx (take 255 (checklist_name c)) cid u ?D
         = (Inr None, ?D\<lparr>db_tick := Suc (db_tick ?D)\<rparr>)"
    unfolding row_def by blast
  then show ?case
  proof cases
    case made
    let ?D1 = "?D\<lparr>db_tick := Suc (db_tick ?D), db_checklists := db_checklists ?D @ [row]\<rparr>"
    let ?s1 = "s\<lparr>st_db := ?D1,
                 st_warnings := st_warnings s @
                   (if length (checklist_name c) > 255
                    then [ChecklistNameTruncated nm t (j + 1) (length (checklist_name c))]
                    else [])\<rparr>"
    have row: "checklists_name row = take 255 (checklist_name c)" "checklists_cardId row = cid"
        "\<not> checklists_deleted row" "checklists_index row = length (checklistsOf ?D cid)"
        "?x = fresh_id (map checklists_id (db_checklists ?D))"
      by (simp_all add: row_def newChecklistRow_def)
    have x0: "?x \<noteq> 0" by (simp add: row(5) fresh_id_pos)
    have fresh: "?x \<notin> set (map checklists_id (db_checklists ?D))"
      unfolding row(5) by (rule fresh_id_notin)
    from Cons.prems(1) have len: "length (checklistsOf ?D cid) = n" by (rule upt_length)
    have empty: "itemsOf ?D ?x = []" using Cons.prems(2) fresh by (rule itemsOf_fresh)
    then have i0: "map checklistItems_index (itemsOf (st_db ?s1) ?x) = [0..<0]"
      by (simp add: itemsOf_def)
    from createItems_surviving[OF assms i0, of u nm t j 0 "checklist_items c"] obtain s2 where
      run2: "createItems ctx u nm t j ?x 0 (checklist_items c) ?s1 = (Inr (), s2)"
      and e2: "exportItemsOf (st_db s2) ?x
                 = exportItemsOf (st_db ?s1) ?x
                   @ survivingItems ctx (db_tick (st_db ?s1)) (checklist_items c)"
      and tk2: "db_tick (st_db s2) = db_tick (st_db ?s1) + length (checklist_items c)"
      and o2: "\<forall>c. c \<noteq> ?x \<longrightarrow> itemsOf (st_db s2) c = itemsOf (st_db ?s1) c"
      and r2: "set (map checklistItems_checklistId (db_checklistItems (st_db s2)))
             \<subseteq> insert ?x (set (map checklistItems_checklistId (db_checklistItems (st_db ?s1))))"
      by blast
    let ?D2 = "st_db s2"
    from createItems_changes[OF run2] have cl2: "db_checklists ?D2 = db_checklists ?D1"
      by (simp add: changes_def grows_def)
    have own2: "checklistsOf ?D2 cid = checklistsOf ?D cid @ [row]"
      using row by (simp add: checklistsOf_def cl2)
    have other2: "checklistsOf ?D2 c' = checklistsOf ?D c'" if "c' \<noteq> cid" for c'
      using row that by (simp add: checklistsOf_def cl2)
    have idx2: "map checklists_index (checklistsOf ?D2 cid) = [0..<Suc n]"
      using Cons.prems(1) row len by (simp add: own2)
    have ref2: "itemsRef ?D2"
      using r2 Cons.prems(2) by (auto simp: itemsRef_def cl2)
    have items_old: "itemsOf ?D2 y = itemsOf ?D y"
      if "y \<in> set (map checklists_id (db_checklists ?D))" for y
    proof -
      from that fresh have "y \<noteq> ?x" by blast
      with o2 have "itemsOf ?D2 y = itemsOf (st_db ?s1) y" by simp
      then show ?thesis by (simp add: itemsOf_def)
    qed
    have ex2: "exportItemsOf ?D2 ?x = survivingItems ctx (Suc (db_tick ?D)) (checklist_items c)"
      using e2 empty by (simp add: exportItemsOf_def itemsOf_def)
    have step: "exportChecklistsOf ?D2 cid = exportChecklistsOf ?D cid
        @ [\<lparr>checklist_name = take 255 (checklist_name c),
             checklist_items = survivingItems ctx (Suc (db_tick ?D)) (checklist_items c)\<rparr>]"
    proof -
      have "map (\<lambda>cl. \<lparr>checklist_name = checklists_name cl,
                       checklist_items = exportItemsOf ?D2 (checklists_id cl)\<rparr>) (checklistsOf ?D cid)
            = map (\<lambda>cl. \<lparr>checklist_name = checklists_name cl,
                       checklist_items = exportItemsOf ?D (checklists_id cl)\<rparr>) (checklistsOf ?D cid)"
      proof (rule map_cong[OF refl])
        fix cl
        assume "cl \<in> set (checklistsOf ?D cid)"
        then have "checklists_id cl \<in> set (map checklists_id (db_checklists ?D))"
          by (rule checklistsOf_ids)
        then have "itemsOf ?D2 (checklists_id cl) = itemsOf ?D (checklists_id cl)" by (rule items_old)
        then have "exportItemsOf ?D2 (checklists_id cl) = exportItemsOf ?D (checklists_id cl)"
          by (rule exportItemsOf_cong)
        then show "\<lparr>checklist_name = checklists_name cl,
                    checklist_items = exportItemsOf ?D2 (checklists_id cl)\<rparr>
                 = \<lparr>checklist_name = checklists_name cl,
                    checklist_items = exportItemsOf ?D (checklists_id cl)\<rparr>"
          by simp
      qed
      then show ?thesis
        unfolding exportChecklistsOf_sorted[OF idx2] exportChecklistsOf_sorted[OF Cons.prems(1)]
        by (simp add: own2 row(1-4) ex2)
    qed
    from Cons.IH[OF idx2 ref2, of "Suc j"] obtain s' where
      run: "createChecklists ctx u nm t cid (Suc j) cls s2 = (Inr (), s')"
      and e: "exportChecklistsOf (st_db s') cid
                = exportChecklistsOf ?D2 cid @ survivingChecklists ctx (db_tick ?D2) cls"
      and o: "\<forall>c. c \<noteq> cid \<longrightarrow> checklistsOf (st_db s') c = checklistsOf ?D2 c"
      and i: "\<forall>x \<in> set (map checklists_id (db_checklists ?D2)). itemsOf (st_db s') x = itemsOf ?D2 x"
      and rf: "itemsRef (st_db s')"
      and cs: "set (map checklists_cardId (db_checklists (st_db s')))
             \<subseteq> insert cid (set (map checklists_cardId (db_checklists ?D2)))"
      and tk: "db_tick ?D2 \<le> db_tick (st_db s')"
      by blast
    from made(2) x0 run2 run have 0: "createChecklists ctx u nm t cid j (c # cls) s = (Inr (), s')"
      by simp
    from tk2 have t2: "db_tick ?D2 = Suc (db_tick ?D) + length (checklist_items c)" by simp
    from e step made(1) have 1: "exportChecklistsOf (st_db s') cid
             = exportChecklistsOf ?D cid @ survivingChecklists ctx (db_tick ?D) (c # cls)"
      by (simp add: t2)
    from o other2 have 2: "\<forall>c. c \<noteq> cid \<longrightarrow> checklistsOf (st_db s') c = checklistsOf ?D c" by simp
    have 3: "\<forall>x \<in> set (map checklists_id (db_checklists ?D)). itemsOf (st_db s') x = itemsOf ?D x"
    proof
      fix y
      assume y: "y \<in> set (map checklists_id (db_checklists ?D))"
      then have "y \<in> set (map checklists_id (db_checklists ?D2))" by (simp add: cl2)
      with i have "itemsOf (st_db s') y = itemsOf ?D2 y" by blast
      with items_old[OF y] show "itemsOf (st_db s') y = itemsOf ?D y" by simp
    qed
    from cs row have 4: "set (map checklists_cardId (db_checklists (st_db s')))
             \<subseteq> insert cid (set (map checklists_cardId (db_checklists ?D)))"
      by (auto simp: cl2)
    from tk t2 have 5: "db_tick ?D \<le> db_tick (st_db s')" by simp
    from 0 1 2 3 rf 4 5 show ?thesis by blast
  next
    case skipped
    let ?D1 = "?D\<lparr>db_tick := Suc (db_tick ?D)\<rparr>"
    let ?s1 = "s\<lparr>st_db := ?D1\<rparr>"
    have same: "checklistsOf ?D1 c' = checklistsOf ?D c'" "itemsOf ?D1 y = itemsOf ?D y" for c' y
      by (simp_all add: checklistsOf_def itemsOf_def)
    have idx1: "map checklists_index (checklistsOf (st_db ?s1) cid) = [0..<n]"
      using Cons.prems(1) by (simp add: same)
    have ref1: "itemsRef (st_db ?s1)" using Cons.prems(2) by (simp add: itemsRef_def)
    from Cons.IH[OF idx1 ref1, of "Suc j"] obtain s' where
      run: "createChecklists ctx u nm t cid (Suc j) cls ?s1 = (Inr (), s')"
      and e: "exportChecklistsOf (st_db s') cid
                = exportChecklistsOf (st_db ?s1) cid @ survivingChecklists ctx (db_tick (st_db ?s1)) cls"
      and o: "\<forall>c. c \<noteq> cid \<longrightarrow> checklistsOf (st_db s') c = checklistsOf (st_db ?s1) c"
      and i: "\<forall>x \<in> set (map checklists_id (db_checklists (st_db ?s1))).
                 itemsOf (st_db s') x = itemsOf (st_db ?s1) x"
      and rf: "itemsRef (st_db s')"
      and cs: "set (map checklists_cardId (db_checklists (st_db s')))
             \<subseteq> insert cid (set (map checklists_cardId (db_checklists (st_db ?s1))))"
      and tk: "db_tick (st_db ?s1) \<le> db_tick (st_db s')"
      by blast
    from skipped(2) run have 0: "createChecklists ctx u nm t cid j (c # cls) s = (Inr (), s')"
      by simp
    have "exportChecklistsOf ?D1 cid = exportChecklistsOf ?D cid"
      by (simp add: exportChecklistsOf_def exportItemsOf_def same)
    with e skipped(1) have 1: "exportChecklistsOf (st_db s') cid
             = exportChecklistsOf ?D cid @ survivingChecklists ctx (db_tick ?D) (c # cls)"
      by simp
    from o have 2: "\<forall>c. c \<noteq> cid \<longrightarrow> checklistsOf (st_db s') c = checklistsOf ?D c"
      by (simp add: same)
    from i have 3: "\<forall>x \<in> set (map checklists_id (db_checklists ?D)). itemsOf (st_db s') x = itemsOf ?D x"
      by (simp add: same)
    from cs have 4: "set (map checklists_cardId (db_checklists (st_db s')))
             \<subseteq> insert cid (set (map checklists_cardId (db_checklists ?D)))"
      by simp
    from tk have 5: "db_tick ?D \<le> db_tick (st_db s')" by simp
    from 0 1 2 3 rf 4 5 show ?thesis by blast
  qed
qed

text \<open>The checklists of the created cards.\<close>

lemma createCardChecklists_surviving:
  assumes "checklistsNeverRaise ctx"
  shows "distinct (map fst created) \<Longrightarrow> itemsRef (st_db s) \<Longrightarrow>
     \<forall>cc \<in> set created. checklistsOf (st_db s) (fst cc) = [] \<Longrightarrow>
     \<exists>s'. createCardChecklists ctx u nm cardDataOf created s = (Inr (), s')
       \<and> (\<forall>cc \<in> set created. \<exists>t.
             exportChecklistsOf (st_db s') (fst cc)
             = survivingChecklists ctx t
                 (case cardDataOf (snd cc) of None \<Rightarrow> [] | Some c \<Rightarrow> card_checklists c))
       \<and> (\<forall>c. c \<notin> set (map fst created)
             \<longrightarrow> exportChecklistsOf (st_db s') c = exportChecklistsOf (st_db s) c)
       \<and> (\<forall>c. c \<notin> set (map fst created)
             \<longrightarrow> checklistsOf (st_db s') c = checklistsOf (st_db s) c)
       \<and> itemsRef (st_db s')
       \<and> set (map checklists_cardId (db_checklists (st_db s')))
           \<subseteq> set (map fst created) \<union> set (map checklists_cardId (db_checklists (st_db s)))"
proof (induction created arbitrary: s)
  case Nil
  then show ?case by auto
next
  case (Cons cc created)
  let ?D = "st_db s"
  let ?cls = "case cardDataOf (snd cc) of None \<Rightarrow> [] | Some c \<Rightarrow> card_checklists c"
  from Cons.prems(3) have none: "checklistsOf ?D (fst cc) = []" by simp
  have first: "\<exists>s1. (case cardDataOf (snd cc) of
                 None \<Rightarrow> (Inr (), s)
               | Some c \<Rightarrow> createChecklists ctx u nm (card_title c) (fst cc) 0 (card_checklists c) s)
               = (Inr (), s1)
       \<and> exportChecklistsOf (st_db s1) (fst cc) = survivingChecklists ctx (db_tick ?D) ?cls
       \<and> (\<forall>c. c \<noteq> fst cc \<longrightarrow> checklistsOf (st_db s1) c = checklistsOf ?D c)
       \<and> (\<forall>x \<in> set (map checklists_id (db_checklists ?D)). itemsOf (st_db s1) x = itemsOf ?D x)
       \<and> itemsRef (st_db s1)
       \<and> set (map checklists_cardId (db_checklists (st_db s1)))
           \<subseteq> insert (fst cc) (set (map checklists_cardId (db_checklists ?D)))"
  proof (cases "cardDataOf (snd cc)")
    case None
    with none Cons.prems(2) show ?thesis by (auto simp: exportChecklistsOf_none)
  next
    case (Some c)
    from none have "map checklists_index (checklistsOf ?D (fst cc)) = [0..<0]" by simp
    from createChecklists_surviving[OF assms this Cons.prems(2),
        of u nm "card_title c" 0 "card_checklists c"]
    show ?thesis using Some none by (auto simp: exportChecklistsOf_none)
  qed
  then obtain s1 where
    run1: "(case cardDataOf (snd cc) of
                 None \<Rightarrow> (Inr (), s)
               | Some c \<Rightarrow> createChecklists ctx u nm (card_title c) (fst cc) 0 (card_checklists c) s)
               = (Inr (), s1)"
    and e1: "exportChecklistsOf (st_db s1) (fst cc) = survivingChecklists ctx (db_tick ?D) ?cls"
    and o1: "\<forall>c. c \<noteq> fst cc \<longrightarrow> checklistsOf (st_db s1) c = checklistsOf ?D c"
    and i1: "\<forall>x \<in> set (map checklists_id (db_checklists ?D)). itemsOf (st_db s1) x = itemsOf ?D x"
    and r1: "itemsRef (st_db s1)"
    and c1: "set (map checklists_cardId (db_checklists (st_db s1)))
           \<subseteq> insert (fst cc) (set (map checklists_cardId (db_checklists ?D)))"
    by blast
  let ?D1 = "st_db s1"
  from Cons.prems(1) have d: "distinct (map fst created)" and nin: "fst cc \<notin> set (map fst created)"
    by simp_all
  have none1: "\<forall>cc' \<in> set created. checklistsOf ?D1 (fst cc') = []"
  proof
    fix cc'
    assume m: "cc' \<in> set created"
    with nin have "fst cc' \<noteq> fst cc" by (metis image_eqI set_map)
    with o1 have "checklistsOf ?D1 (fst cc') = checklistsOf ?D (fst cc')" by simp
    with Cons.prems(3) m show "checklistsOf ?D1 (fst cc') = []" by simp
  qed
  from Cons.IH[OF d r1 none1] obtain s' where
    run: "createCardChecklists ctx u nm cardDataOf created s1 = (Inr (), s')"
    and e: "\<forall>cc \<in> set created. \<exists>t.
             exportChecklistsOf (st_db s') (fst cc)
             = survivingChecklists ctx t
                 (case cardDataOf (snd cc) of None \<Rightarrow> [] | Some c \<Rightarrow> card_checklists c)"
    and o: "\<forall>c. c \<notin> set (map fst created)
             \<longrightarrow> exportChecklistsOf (st_db s') c = exportChecklistsOf ?D1 c"
    and oc: "\<forall>c. c \<notin> set (map fst created) \<longrightarrow> checklistsOf (st_db s') c = checklistsOf ?D1 c"
    and rf: "itemsRef (st_db s')"
    and cs: "set (map checklists_cardId (db_checklists (st_db s')))
           \<subseteq> set (map fst created) \<union> set (map checklists_cardId (db_checklists ?D1))"
    by blast
  from run1 run have 0: "createCardChecklists ctx u nm cardDataOf (cc # created) s = (Inr (), s')"
    by (cases "cardDataOf (snd cc)") simp_all
  from o nin e1 have "exportChecklistsOf (st_db s') (fst cc) = survivingChecklists ctx (db_tick ?D) ?cls"
    by simp
  then have "\<exists>t. exportChecklistsOf (st_db s') (fst cc) = survivingChecklists ctx t ?cls" by (rule exI)
  with e have 1: "\<forall>cc' \<in> set (cc # created). \<exists>t.
             exportChecklistsOf (st_db s') (fst cc')
             = survivingChecklists ctx t
                 (case cardDataOf (snd cc') of None \<Rightarrow> [] | Some c \<Rightarrow> card_checklists c)"
    by simp
  have 2: "\<forall>c. c \<notin> set (map fst (cc # created))
             \<longrightarrow> exportChecklistsOf (st_db s') c = exportChecklistsOf ?D c"
  proof (intro allI impI)
    fix c
    assume c: "c \<notin> set (map fst (cc # created))"
    then have "c \<noteq> fst cc" "c \<notin> set (map fst created)" by simp_all
    with o o1 have "exportChecklistsOf (st_db s') c = exportChecklistsOf ?D1 c"
      "checklistsOf ?D1 c = checklistsOf ?D c" by simp_all
    with exportChecklistsOf_cong[OF _ i1, of c]
    show "exportChecklistsOf (st_db s') c = exportChecklistsOf ?D c" by simp
  qed
  from oc o1 have 3: "\<forall>c. c \<notin> set (map fst (cc # created))
             \<longrightarrow> checklistsOf (st_db s') c = checklistsOf ?D c" by simp
  from cs c1 have 4: "set (map checklists_cardId (db_checklists (st_db s')))
           \<subseteq> set (map fst (cc # created)) \<union> set (map checklists_cardId (db_checklists ?D))"
    by auto
  from 0 1 2 3 rf 4 show ?case by blast
qed

lemma findOrCreateList_created:
  assumes "checklistFailuresOnly ctx"
    and "find (\<lambda>(i, name). name \<noteq> [] \<and> toLowerCase name = toLowerCase (listName l))
           (st_existingLists s) = None"
  shows "findOrCreateList ctx u b i l s =
           (Inr (lists_id (newListRow (st_db s) (listName l) u b i), listName l),
            s\<lparr>st_db := (st_db s)\<lparr>db_tick := Suc (db_tick (st_db s)),
                                 db_lists := db_lists (st_db s)
                                   @ [newListRow (st_db s) (listName l) u b i]\<rparr>,
              st_existingLists := st_existingLists s
                @ [(lists_id (newListRow (st_db s) (listName l) u b i), listName l)]\<rparr>)"
proof -
  have a: "ctx_outcome ctx ListCreate t = Returns" for t
    using assms(1) by (auto simp: checklistFailuresOnly_def)
  show ?thesis
    using assms(2)
    by (simp add: findOrCreateList_def listRepo_create_def store_call_returns a
        newListRow_def boardLists_def fresh_id_pos)
qed

lemma findOrCreateList_target:
  assumes "checklistFailuresOnly ctx" and "knownLists b s"
  shows "\<exists>target s1. findOrCreateList ctx u b i l s = (Inr target, s1)
      \<and> knownLists b s1
      \<and> (\<exists>lr \<in> set (boardLists b (st_db s1)). lists_id lr = fst target
            \<and> toLowerCase (lists_name lr) = toLowerCase (listName l))"
proof (cases "find (\<lambda>(i, name). name \<noteq> [] \<and> toLowerCase name = toLowerCase (listName l))
                (st_existingLists s)")
  case (Some t)
  from find_SomeD[OF Some] have t: "t \<in> set (st_existingLists s)"
    "toLowerCase (snd t) = toLowerCase (listName l)"
    by (auto simp: case_prod_beta)
  with assms(2) obtain lr where "lr \<in> set (boardLists b (st_db s))"
    "(lists_id lr, lists_name lr) = t"
    unfolding knownLists_def by blast
  with t(2) have "\<exists>lr \<in> set (boardLists b (st_db s)). lists_id lr = fst t
            \<and> toLowerCase (lists_name lr) = toLowerCase (listName l)"
    by auto
  with findOrCreateList_found[OF Some] assms(2) show ?thesis by blast
next
  case None
  let ?D = "st_db s"
  let ?row = "newListRow ?D (listName l) u b i"
  let ?D1 = "?D\<lparr>db_tick := Suc (db_tick ?D), db_lists := db_lists ?D @ [?row]\<rparr>"
  let ?s1 = "s\<lparr>st_db := ?D1, st_existingLists := st_existingLists s @ [(lists_id ?row, listName l)]\<rparr>"
  have run: "findOrCreateList ctx u b i l s = (Inr (lists_id ?row, listName l), ?s1)"
    using assms(1) None by (rule findOrCreateList_created)
  have bl: "boardLists b ?D1 = boardLists b ?D @ [?row]"
    by (simp add: boardLists_def newListRow_def)
  have nm: "lists_name ?row = listName l" by (simp add: newListRow_def)
  have "knownLists b ?s1"
    using assms(2) unfolding knownLists_def by (auto simp: bl nm)
  moreover have "\<exists>lr \<in> set (boardLists b (st_db ?s1)). lists_id lr = fst (lists_id ?row, listName l)
            \<and> toLowerCase (lists_name lr) = toLowerCase (listName l)"
    by (simp add: bl nm)
  ultimately show ?thesis using run by blast
qed

lemma fresh_id_gt: "x \<in> set ids \<Longrightarrow> x < fresh_id ids"
  using fold_max_ge[of x ids 0] by (simp add: fresh_id_def)

lemma inserted_cards_ids:
  "map cards_id (assign_ids base (cardsToInsert u lid i uid0 cs)) = [base..<base + length cs]"
  by (rule nth_equalityI) (simp_all add: inserted_cards_length inserted_cards_nth)

lemma inserted_cards_fresh:
  assumes "r \<in> set (assign_ids (fresh_id ids) (cardsToInsert u lid i uid0 cs))"
  shows "cards_id r \<notin> set ids"
proof
  assume "cards_id r \<in> set ids"
  then have lt: "cards_id r < fresh_id ids" by (rule fresh_id_gt)
  from assms have "cards_id r \<in> set (map cards_id (assign_ids (fresh_id ids) (cardsToInsert u lid i uid0 cs)))"
    by simp
  then have "fresh_id ids \<le> cards_id r" by (simp add: inserted_cards_ids)
  with lt show False by simp
qed

lemma cardRepo_bulkCreate_returns:
  assumes "ctx_outcome ctx CardBulkCreate (db_tick d) = Returns"
  shows "cardRepo_bulkCreate ctx mk d =
           (Inr (map (\<lambda>r. (cards_id r, cards_publicId r))
                   (assign_ids (fresh_id (map cards_id (db_cards d))) mk)),
            d\<lparr>db_tick := Suc (db_tick d),
              db_cards := db_cards d @ assign_ids (fresh_id (map cards_id (db_cards d))) mk\<rparr>)"
  using assms by (simp add: cardRepo_bulkCreate_def store_call_def)

lemma exportChecklistsOf_tables:
  "db_checklists d' = db_checklists d \<Longrightarrow> db_checklistItems d' = db_checklistItems d \<Longrightarrow>
     exportChecklistsOf d' c = exportChecklistsOf d c"
  by (simp add: exportChecklistsOf_def exportItemsOf_def checklistsOf_def itemsOf_def)

lemma boardLists_tables: "db_lists d' = db_lists d \<Longrightarrow> boardLists b d' = boardLists b d"
  by (simp add: boardLists_def)

lemma boardLists_prefix:
  "prefix (db_lists d) (db_lists d') \<Longrightarrow> lr \<in> set (boardLists b d) \<Longrightarrow> lr \<in> set (boardLists b d')"
  by (auto simp: boardLists_def prefix_def)

lemma listCards_length: "length (listCards l) = length (list_cards l)"
  by (simp add: listCards_def)

lemma listCards_nth: "k < length (list_cards l) \<Longrightarrow> listCards l ! k = (l, k, list_cards l ! k)"
  by (simp add: listCards_def nth_enumerate_eq)

text \<open>One list with cards, on a store that fails on checklists only.\<close>

lemma processList_written:
  assumes cfo: "checklistFailuresOnly ctx" and name: "trim (listName l) \<noteq> []"
    and cards: "list_cards l \<noteq> []"
    and iref: "itemsRef (st_db s)" and cref: "checklistsRef (st_db s)" and known: "knownLists b s"
  shows "\<exists>s' new. processList ctx u b i lm l s = (Inr (), s')
      \<and> db_cards (st_db s') = db_cards (st_db s) @ new
      \<and> st_allCreatedCards s' = st_allCreatedCards s @ map (\<lambda>r. (cards_id r, cards_publicId r)) new
      \<and> list_all2 (cardWritten ctx b (st_db s')) new (listCards l)
      \<and> (\<forall>c \<in> set (map cards_id (db_cards (st_db s))).
            exportChecklistsOf (st_db s') c = exportChecklistsOf (st_db s) c)
      \<and> prefix (db_lists (st_db s)) (db_lists (st_db s'))
      \<and> itemsRef (st_db s') \<and> checklistsRef (st_db s') \<and> knownLists b s'"
proof -
  let ?cs = "list_cards l"
  from findOrCreateList_target[OF cfo known] obtain target s1 lr where
    f: "findOrCreateList ctx u b i l s = (Inr target, s1)"
    and known1: "knownLists b s1"
    and lr: "lr \<in> set (boardLists b (st_db s1))" "lists_id lr = fst target"
            "toLowerCase (lists_name lr) = toLowerCase (listName l)"
    by blast
  from findOrCreateList_changes[OF f] have
    f1: "db_cards (st_db s1) = db_cards (st_db s)"
        "db_checklists (st_db s1) = db_checklists (st_db s)"
        "db_checklistItems (st_db s1) = db_checklistItems (st_db s)"
        "prefix (db_lists (st_db s)) (db_lists (st_db s1))"
        "st_allCreatedCards s1 = st_allCreatedCards s"
    by (simp_all add: changes_def grows_def)
  let ?uid = "db_uid (st_db s1)"
  let ?base = "fresh_id (map cards_id (db_cards (st_db s1)))"
  let ?new = "assign_ids ?base (cardsToInsert u (fst target) i ?uid ?cs)"
  let ?created = "map (\<lambda>r. (cards_id r, cards_publicId r)) ?new"
  let ?lookup = "publicIdToCardData ?uid ?cs"
  let ?d1 = "(st_db s1)\<lparr>db_uid := ?uid + length ?cs\<rparr>"
  let ?d2 = "?d1\<lparr>db_tick := Suc (db_tick ?d1), db_cards := db_cards ?d1 @ ?new\<rparr>"
  have "ctx_outcome ctx CardBulkCreate (db_tick ?d1) = Returns"
    using cfo by (auto simp: checklistFailuresOnly_def)
  from cardRepo_bulkCreate_returns[OF this, of "cardsToInsert u (fst target) i ?uid ?cs"]
  have c: "cardRepo_bulkCreate ctx (cardsToInsert u (fst target) i ?uid ?cs) ?d1 = (Inr ?created, ?d2)"
    by simp
  have len: "length ?new = length ?cs" by (rule inserted_cards_length)
  with cards have ne: "?created \<noteq> []" by auto
  let ?s2 = "s1\<lparr>st_db := ?d2,
                 st_warnings := st_warnings s1 @ truncationWarnings (listName l) ?cs,
                 st_allCreatedCards := st_allCreatedCards s1 @ ?created\<rparr>"
  from linkCreatedCards_succeeds[OF cfo] obtain s3 where
    lk: "linkCreatedCards ctx u (listName l) lm ?lookup ?created ?s2 = (Inr (), s3)" by blast
  from linkCreatedCards_changes[OF lk] have
    l3: "db_cards (st_db s3) = db_cards (st_db s1) @ ?new"
        "db_checklists (st_db s3) = db_checklists (st_db s)"
        "db_checklistItems (st_db s3) = db_checklistItems (st_db s)"
        "db_lists (st_db s3) = db_lists (st_db s1)"
        "st_existingLists s3 = st_existingLists s1"
        "st_allCreatedCards s3 = st_allCreatedCards s @ ?created"
    by (simp_all add: changes_def grows_def f1)
  \<comment> \<open>the created cards are new to the store, so none has a checklist\<close>
  have ids: "map fst ?created = [?base..<?base + length ?cs]"
    by (simp add: comp_def inserted_cards_ids)
  then have dist: "distinct (map fst ?created)" by simp
  have fresh: "fst cc \<notin> set (map cards_id (db_cards (st_db s)))" if "cc \<in> set ?created" for cc
  proof -
    from that obtain r where "r \<in> set ?new" "fst cc = cards_id r" by auto
    with inserted_cards_fresh[of r "map cards_id (db_cards (st_db s1))"] f1(1) show ?thesis by simp
  qed
  have iref3: "itemsRef (st_db s3)" using iref by (simp add: itemsRef_def l3)
  have none3: "\<forall>cc \<in> set ?created. checklistsOf (st_db s3) (fst cc) = []"
  proof
    fix cc
    assume "cc \<in> set ?created"
    then have "fst cc \<notin> set (map cards_id (db_cards (st_db s)))" by (rule fresh)
    with cref have "fst cc \<notin> set (map checklists_cardId (db_checklists (st_db s)))"
      unfolding checklistsRef_def by blast
    then have "\<forall>x \<in> set (db_checklists (st_db s)). checklists_cardId x \<noteq> fst cc" by force
    then show "checklistsOf (st_db s3) (fst cc) = []"
      by (simp add: checklistsOf_def l3 filter_empty_conv)
  qed
  from createCardChecklists_surviving[OF checklistFailuresOnly_neverRaise[OF cfo] dist iref3 none3,
      of u "listName l" ?lookup]
  obtain s' where
    ck: "createCardChecklists ctx u (listName l) ?lookup ?created s3 = (Inr (), s')"
    and e: "\<forall>cc \<in> set ?created. \<exists>t.
             exportChecklistsOf (st_db s') (fst cc)
             = survivingChecklists ctx t
                 (case ?lookup (snd cc) of None \<Rightarrow> [] | Some c \<Rightarrow> card_checklists c)"
    and o: "\<forall>c. c \<notin> set (map fst ?created)
             \<longrightarrow> exportChecklistsOf (st_db s') c = exportChecklistsOf (st_db s3) c"
    and iref': "itemsRef (st_db s')"
    and cs': "set (map checklists_cardId (db_checklists (st_db s')))
           \<subseteq> set (map fst ?created) \<union> set (map checklists_cardId (db_checklists (st_db s3)))"
    by blast
  from createCardChecklists_changes[OF ck] have
    l4: "db_cards (st_db s') = db_cards (st_db s3)" "db_lists (st_db s') = db_lists (st_db s3)"
        "st_existingLists s' = st_existingLists s3" "st_allCreatedCards s' = st_allCreatedCards s3"
    by (simp_all add: changes_def grows_def)
  from name cards f c ne lk ck have run: "processList ctx u b i lm l s = (Inr (), s')"
    by (simp add: processList_def)
  have 1: "db_cards (st_db s') = db_cards (st_db s) @ ?new" by (simp add: l4 l3 f1)
  have 2: "st_allCreatedCards s' = st_allCreatedCards s @ ?created" by (simp add: l4 l3)
  have bl: "boardLists b (st_db s') = boardLists b (st_db s1)"
    by (rule boardLists_tables) (simp add: l4 l3)
  have 3: "list_all2 (cardWritten ctx b (st_db s')) ?new (listCards l)"
  proof (rule list_all2_all_nthI)
    show "length ?new = length (listCards l)" by (simp add: len listCards_length)
  next
    fix k
    assume "k < length ?new"
    with len have k: "k < length ?cs" by simp
    then have row: "?new ! k =
       \<lparr>cards_id = ?base + k, cards_publicId = ?uid + k, cards_title = take 255 (card_title (?cs ! k)),
        cards_description = take 10000 (card_description (?cs ! k)), cards_listId = fst target,
        cards_index = k, cards_importId = Some i, cards_createdBy = u, cards_deleted = False\<rparr>"
      by (rule inserted_cards_nth)
    from k len have "k < length ?created" by simp
    then have "?created ! k \<in> set ?created" by (rule nth_mem)
    with e obtain t where "exportChecklistsOf (st_db s') (fst (?created ! k))
             = survivingChecklists ctx t
                 (case ?lookup (snd (?created ! k)) of None \<Rightarrow> [] | Some c \<Rightarrow> card_checklists c)"
      by blast
    moreover from k len have "?created ! k = (?base + k, ?uid + k)" by (simp add: row)
    moreover from k have "?lookup (?uid + k) = Some (?cs ! k)" by (rule publicIdToCardData_nth)
    ultimately have "exportChecklistsOf (st_db s') (?base + k)
             = survivingChecklists ctx t (card_checklists (?cs ! k))"
      by simp
    then have "\<exists>t. exportChecklistsOf (st_db s') (cards_id (?new ! k))
             = survivingChecklists ctx t (card_checklists (?cs ! k))"
      by (auto simp: row)
    moreover from lr have "\<exists>lr \<in> set (boardLists b (st_db s')). lists_id lr = cards_listId (?new ! k)
            \<and> toLowerCase (lists_name lr) = toLowerCase (listName l)"
      by (auto simp: bl row)
    ultimately show "cardWritten ctx b (st_db s') (?new ! k) (listCards l ! k)"
      using k by (simp add: cardWritten_def listCards_nth row)
  qed
  have 4: "\<forall>c \<in> set (map cards_id (db_cards (st_db s))).
            exportChecklistsOf (st_db s') c = exportChecklistsOf (st_db s) c"
  proof
    fix c0
    assume c0: "c0 \<in> set (map cards_id (db_cards (st_db s)))"
    have "c0 < ?base"
      using fresh_id_gt[of c0 "map cards_id (db_cards (st_db s1))"] c0 f1(1) by simp
    then have "c0 \<notin> set [?base..<?base + length ?cs]" by simp
    then have "c0 \<notin> set (map fst ?created)" unfolding ids .
    with o have "exportChecklistsOf (st_db s') c0 = exportChecklistsOf (st_db s3) c0" by simp
    also have "\<dots> = exportChecklistsOf (st_db s) c0"
      by (rule exportChecklistsOf_tables) (simp_all add: l3)
    finally show "exportChecklistsOf (st_db s') c0 = exportChecklistsOf (st_db s) c0" .
  qed
  have 5: "prefix (db_lists (st_db s)) (db_lists (st_db s'))" using f1(4) by (simp add: l4 l3)
  have 6: "checklistsRef (st_db s')"
  proof -
    have "set (map fst ?created) \<subseteq> set (map cards_id (db_cards (st_db s')))"
      by (auto simp: 1)
    moreover have "set (map checklists_cardId (db_checklists (st_db s3)))
                   \<subseteq> set (map cards_id (db_cards (st_db s')))"
      using cref by (auto simp: checklistsRef_def l3 1)
    ultimately show ?thesis using cs' unfolding checklistsRef_def by blast
  qed
  have 7: "knownLists b s'" using known1 by (simp add: knownLists_def bl l4 l3)
  from run 1 2 3 4 5 iref' 6 7 show ?thesis by blast
qed

lemma payloadCards_length: "length (payloadCards ls) = totalCards ls"
  by (induction ls) (simp_all add: payloadCards_def totalCards_def listCards_length)

lemma payloadCards_Cons: "payloadCards (l # ls) = listCards l @ payloadCards ls"
  by (simp add: payloadCards_def)

lemma cardWritten_kept:
  assumes "cardWritten ctx b d row p" and "prefix (db_lists d) (db_lists d')"
    and "exportChecklistsOf d' (cards_id row) = exportChecklistsOf d (cards_id row)"
  shows "cardWritten ctx b d' row p"
proof -
  obtain l k c where p: "p = (l, k, c)" by (cases p)
  from assms(1) obtain lr where "lr \<in> set (boardLists b d)" "lists_id lr = cards_listId row"
    "toLowerCase (lists_name lr) = toLowerCase (listName l)"
    by (auto simp: cardWritten_def p)
  with boardLists_prefix[OF assms(2)] have
    "\<exists>lr \<in> set (boardLists b d'). lists_id lr = cards_listId row
        \<and> toLowerCase (lists_name lr) = toLowerCase (listName l)"
    by blast
  with assms(1,3) show ?thesis by (simp add: cardWritten_def p)
qed

text \<open>The loop over the lists, on a store that fails on checklists only.\<close>

lemma processLists_written:
  assumes cfo: "checklistFailuresOnly ctx"
  shows "\<forall>l \<in> set ls. trim (listName l) \<noteq> [] \<Longrightarrow>
     itemsRef (st_db s) \<Longrightarrow> checklistsRef (st_db s) \<Longrightarrow> knownLists b s \<Longrightarrow>
     \<exists>s' new. processLists ctx u b i lm ls s = (Inr (), s')
       \<and> db_cards (st_db s') = db_cards (st_db s) @ new
       \<and> length (st_allCreatedCards s') = length (st_allCreatedCards s) + totalCards ls
       \<and> list_all2 (cardWritten ctx b (st_db s')) new (payloadCards ls)
       \<and> (\<forall>c \<in> set (map cards_id (db_cards (st_db s))).
             exportChecklistsOf (st_db s') c = exportChecklistsOf (st_db s) c)
       \<and> prefix (db_lists (st_db s)) (db_lists (st_db s'))"
proof (induction ls arbitrary: s)
  case Nil
  show ?case by (simp add: payloadCards_def totalCards_def)
next
  case (Cons l ls)
  from Cons.prems(1) have nm: "trim (listName l) \<noteq> []"
    and rest: "\<forall>l \<in> set ls. trim (listName l) \<noteq> []" by simp_all
  show ?case
  proof (cases "list_cards l = []")
    case True
    with nm have p: "processList ctx u b i lm l s = (Inr (), s)" by (simp add: processList_empty)
    from True have e: "payloadCards (l # ls) = payloadCards ls" "totalCards (l # ls) = totalCards ls"
      by (simp_all add: payloadCards_def listCards_def totalCards_def)
    from Cons.IH[OF rest Cons.prems(2,3,4)] p show ?thesis by (simp add: e)
  next
    case False
    from processList_written[OF cfo nm False Cons.prems(2,3,4), of u i lm] obtain s1 new1 where
      p: "processList ctx u b i lm l s = (Inr (), s1)"
      and c1: "db_cards (st_db s1) = db_cards (st_db s) @ new1"
      and a1: "st_allCreatedCards s1
                 = st_allCreatedCards s @ map (\<lambda>r. (cards_id r, cards_publicId r)) new1"
      and w1: "list_all2 (cardWritten ctx b (st_db s1)) new1 (listCards l)"
      and o1: "\<forall>c \<in> set (map cards_id (db_cards (st_db s))).
                 exportChecklistsOf (st_db s1) c = exportChecklistsOf (st_db s) c"
      and l1: "prefix (db_lists (st_db s)) (db_lists (st_db s1))"
      and inv1: "itemsRef (st_db s1)" "checklistsRef (st_db s1)" "knownLists b s1"
      by blast
    from Cons.IH[OF rest inv1] obtain s' new2 where
      ps: "processLists ctx u b i lm ls s1 = (Inr (), s')"
      and c2: "db_cards (st_db s') = db_cards (st_db s1) @ new2"
      and a2: "length (st_allCreatedCards s') = length (st_allCreatedCards s1) + totalCards ls"
      and w2: "list_all2 (cardWritten ctx b (st_db s')) new2 (payloadCards ls)"
      and o2: "\<forall>c \<in> set (map cards_id (db_cards (st_db s1))).
                 exportChecklistsOf (st_db s') c = exportChecklistsOf (st_db s1) c"
      and l2: "prefix (db_lists (st_db s1)) (db_lists (st_db s'))"
      by blast
    from p ps have 0: "processLists ctx u b i lm (l # ls) s = (Inr (), s')" by simp
    from c1 c2 have 1: "db_cards (st_db s') = db_cards (st_db s) @ (new1 @ new2)" by simp
    from w1 have len1: "length new1 = length (list_cards l)"
      by (simp add: list_all2_lengthD listCards_length)
    from a1 a2 len1 have 2: "length (st_allCreatedCards s')
        = length (st_allCreatedCards s) + totalCards (l # ls)"
      by (simp add: totalCards_def)
    have w1': "list_all2 (cardWritten ctx b (st_db s')) new1 (listCards l)"
    proof (rule list_all2_all_nthI)
      show "length new1 = length (listCards l)" using w1 by (rule list_all2_lengthD)
    next
      fix k
      assume k: "k < length new1"
      with w1 have a: "cardWritten ctx b (st_db s1) (new1 ! k) (listCards l ! k)"
        by (rule list_all2_nthD)
      from k c1 have "cards_id (new1 ! k) \<in> set (map cards_id (db_cards (st_db s1)))"
        by simp
      with o2 have "exportChecklistsOf (st_db s') (cards_id (new1 ! k))
          = exportChecklistsOf (st_db s1) (cards_id (new1 ! k))" by blast
      with a l2 show "cardWritten ctx b (st_db s') (new1 ! k) (listCards l ! k)"
        by (rule cardWritten_kept)
    qed
    from w1' w2 have 3: "list_all2 (cardWritten ctx b (st_db s')) (new1 @ new2) (payloadCards (l # ls))"
      unfolding payloadCards_Cons by (rule list_all2_appendI)
    have 4: "\<forall>c \<in> set (map cards_id (db_cards (st_db s))).
               exportChecklistsOf (st_db s') c = exportChecklistsOf (st_db s) c"
    proof
      fix c
      assume c: "c \<in> set (map cards_id (db_cards (st_db s)))"
      then have "c \<in> set (map cards_id (db_cards (st_db s1)))" by (simp add: c1)
      with o2 have "exportChecklistsOf (st_db s') c = exportChecklistsOf (st_db s1) c" by blast
      moreover from o1 c have "exportChecklistsOf (st_db s1) c = exportChecklistsOf (st_db s) c"
        by blast
      ultimately show "exportChecklistsOf (st_db s') c = exportChecklistsOf (st_db s) c"
        by (rule trans)
    qed
    from l1 l2 have 5: "prefix (db_lists (st_db s)) (db_lists (st_db s'))" by (rule prefix_order.trans)
    from 0 1 2 3 4 5 show ?thesis by blast
  qed
qed

text \<open>The whole call, on a store that fails on checklists only.\<close>

lemma importLists_written:
  assumes cfo: "checklistFailuresOnly ctx" and "boardAccess userId publicId d = Inr board"
    and names: "\<forall>l \<in> set ls. trim (listName l) \<noteq> []"
    and cref: "checklistsRef d" and iref: "itemsRef d"
  shows "\<exists>r d' new. importLists ctx userId publicId ls d = (Inr r, d')
           \<and> db_cards d' = db_cards d @ new
           \<and> list_all2 (cardWritten ctx (boards_id board) d') new (payloadCards ls)"
proof -
  let ?b = "boards_id board"
  let ?i = "fresh_id (map imports_id (db_imports d))"
  have "ctx_outcome ctx ImportCreate (db_tick d) = Returns"
    using cfo by (auto simp: checklistFailuresOnly_def)
  then obtain d1 where ic: "importRepo_create ctx ''json'' userId d = (Inr (Some ?i), d1)"
    by (simp add: importRepo_create_def store_call_returns)
  from importRepo_create_Some[OF ic] have i0: "?i \<noteq> 0" by simp
  from importRepo_create_changes[OF ic] have t1:
    "db_cards d1 = db_cards d" "db_lists d1 = db_lists d"
    "db_checklists d1 = db_checklists d" "db_checklistItems d1 = db_checklistItems d"
    by (simp_all add: changes_def grows_def)
  from resolveLabels_succeeds[OF cfo] obtain lm d2 where
    rl: "resolveLabels ctx userId ?b ?i ls d1 = (Inr lm, d2)" by blast
  from resolveLabels_changes[OF rl] have t2:
    "db_cards d2 = db_cards d" "db_lists d2 = db_lists d1"
    "db_checklists d2 = db_checklists d" "db_checklistItems d2 = db_checklistItems d"
    by (simp_all add: changes_def grows_def t1)
  let ?s0 = "initialState ?b d1 d2"
  have inv: "itemsRef (st_db ?s0)" "checklistsRef (st_db ?s0)" "knownLists ?b ?s0"
    using cref iref
    by (simp_all add: initialState_def itemsRef_def checklistsRef_def knownLists_def t2
        boardLists_tables[OF t2(2)])
  from processLists_written[OF cfo names inv, of userId ?i lm] obtain s' new where
    pl: "processLists ctx userId ?b ?i lm ls ?s0 = (Inr (), s')"
    and c: "db_cards (st_db s') = db_cards (st_db ?s0) @ new"
    and w: "list_all2 (cardWritten ctx ?b (st_db s')) new (payloadCards ls)"
    by blast
  let ?d' = "importRepo_update Success ?i (st_db s')"
  from rl pl have "tryImport ctx userId ?b ?i ls d1 =
      (Inr \<lparr>cardsCreated = length (st_allCreatedCards s'), listsProcessed = length ls,
            warnings = st_warnings s'\<rparr>, ?d')"
    by (simp add: tryImport_def initialState_def)
  with assms(2) ic i0 have run: "importLists ctx userId publicId ls d =
      (Inr \<lparr>cardsCreated = length (st_allCreatedCards s'), listsProcessed = length ls,
            warnings = st_warnings s'\<rparr>, ?d')"
    by (simp add: importLists_def)
  have same: "db_cards ?d' = db_cards (st_db s')" "db_lists ?d' = db_lists (st_db s')"
    "db_checklists ?d' = db_checklists (st_db s')"
    "db_checklistItems ?d' = db_checklistItems (st_db s')"
    by (simp_all add: importRepo_update_def)
  from c have 1: "db_cards ?d' = db_cards d @ new" by (simp add: same initialState_def t2)
  have 2: "list_all2 (cardWritten ctx ?b ?d') new (payloadCards ls)"
    using w
  proof (rule list_all2_mono)
    fix row p
    assume "cardWritten ctx ?b (st_db s') row p"
    moreover have "prefix (db_lists (st_db s')) (db_lists ?d')" by (simp add: same)
    moreover have "exportChecklistsOf ?d' (cards_id row) = exportChecklistsOf (st_db s') (cards_id row)"
      by (rule exportChecklistsOf_tables) (simp_all add: same)
    ultimately show "cardWritten ctx ?b ?d' row p" by (rule cardWritten_kept)
  qed
  from run 1 2 show ?thesis by blast
qed

text \<open>
  Claim C9. On a store that does not raise and whose only failures are creations of
  checklists and of checklist items that return nothing, every import of lists with
  names (by a caller with access to the board) completes: it returns its result, counts
  every card of the payload, and the batch is marked successful. The cards table gains
  one row for each card of the payload, in the order of the payload. If the checklists
  and the items of the store refer to cards and checklists of the store, then each of
  these rows has the position of its card in its list as index, its title and
  description, and the identifier of a list of the board that has the name of the card's
  list; and the checklists that the export reads for it are those of the payload
  without the ones whose creation returned nothing (these are passed over with their
  items), each with its items without the ones whose creation returned nothing.
\<close>

theorem checklist_failures_are_skipped:
  assumes "checklistFailuresOnly ctx" and "boardAccess userId publicId d = Inr board"
    and "\<forall>l \<in> set ls. trim (listName l) \<noteq> []"
  shows "\<exists>r d' new. importLists ctx userId publicId ls d = (Inr r, d')
           \<and> cardsCreated r = totalCards ls \<and> listsProcessed r = length ls
           \<and> batchStatus (fresh_id (map imports_id (db_imports d))) d' = [Success]
           \<and> db_cards d' = db_cards d @ new \<and> length new = totalCards ls
           \<and> (checklistsRef d \<and> itemsRef d
                \<longrightarrow> list_all2 (cardWritten ctx (boards_id board) d') new (payloadCards ls))"
proof -
  from importLists_succeeds[OF assms] obtain r d' where
    run: "importLists ctx userId publicId ls d = (Inr r, d')"
    and k: "cardsCreated r = totalCards ls" "listsProcessed r = length ls"
           "length (db_cards d') = length (db_cards d) + totalCards ls"
           "batchStatus (fresh_id (map imports_id (db_imports d))) d' = [Success]"
    by blast
  have pre: "prefix (db_cards d) (db_cards d')"
  proof -
    obtain r0 d1 where ic: "importRepo_create ctx ''json'' userId d = (r0, d1)"
      by (cases "importRepo_create ctx ''json'' userId d")
    from importRepo_create_changes[OF ic] have c1: "db_cards d1 = db_cards d"
      by (simp add: changes_def grows_def)
    from run assms(2) ic obtain i where
      ti: "tryImport ctx userId (boards_id board) i ls d1 = (Inr r, d')"
      by (auto simp: importLists_def split: sum.splits option.splits if_splits prod.splits)
    then obtain lm d2 s' where
      rl: "resolveLabels ctx userId (boards_id board) i ls d1 = (Inr lm, d2)"
      and pl: "processLists ctx userId (boards_id board) i lm ls
                 (initialState (boards_id board) d1 d2) = (Inr (), s')"
      and d': "d' = importRepo_update Success i (st_db s')"
      by (auto simp: tryImport_def initialState_def split: sum.splits prod.splits)
    from resolveLabels_changes[OF rl] have c2: "db_cards d2 = db_cards d1"
      by (simp add: changes_def grows_def)
    from processLists_changes[OF pl] have "prefix (db_cards d2) (db_cards (st_db s'))"
      by (simp add: changes_def grows_def initialState_def)
    with c1 c2 d' show ?thesis by (simp add: importRepo_update_def)
  qed
  then obtain new where new: "db_cards d' = db_cards d @ new" by (auto simp: prefix_def)
  with k(3) have len: "length new = totalCards ls" by simp
  have "list_all2 (cardWritten ctx (boards_id board) d') new (payloadCards ls)"
    if "checklistsRef d" "itemsRef d"
  proof -
    from importLists_written[OF assms that] obtain r2 d2 new2 where
      "importLists ctx userId publicId ls d = (Inr r2, d2)"
      "db_cards d2 = db_cards d @ new2"
      "list_all2 (cardWritten ctx (boards_id board) d2) new2 (payloadCards ls)"
      by blast
    with run new show ?thesis by simp
  qed
  with run k new len show ?thesis by blast
qed

theorem checklist_failures_are_skipped_witness:
  "(\<exists>r new. importLists ctxSkip ''u1'' ''board0000001'' [checklistList] db0
               = (Inr r, snd (importLists ctxSkip ''u1'' ''board0000001'' [checklistList] db0))
       \<and> cardsCreated r = totalCards [checklistList] \<and> listsProcessed r = length [checklistList]
       \<and> batchStatus 1 (snd (importLists ctxSkip ''u1'' ''board0000001'' [checklistList] db0))
           = [Success]
       \<and> db_cards (snd (importLists ctxSkip ''u1'' ''board0000001'' [checklistList] db0))
           = db_cards db0 @ new
       \<and> length new = totalCards [checklistList]
       \<and> list_all2 (cardWritten ctxSkip 1
                      (snd (importLists ctxSkip ''u1'' ''board0000001'' [checklistList] db0)))
            new (payloadCards [checklistList]))
   \<and> exportChecklistsOf (snd (importLists ctxSkip ''u1'' ''board0000001'' [checklistList] db0)) 1
       = [\<lparr>checklist_name = ''second'', checklist_items = []\<rparr>]
   \<and> survivingChecklists ctxSkip 4 (card_checklists (hd (list_cards checklistList)))
       = [\<lparr>checklist_name = ''second'', checklist_items = []\<rparr>]"
proof -
  let ?R = "importLists ctxSkip ''u1'' ''board0000001'' [checklistList] db0"
  let ?board = "\<lparr>boards_id = 1, boards_publicId = ''board0000001'', boards_workspaceId = 1\<rparr>"
  have a1: "checklistFailuresOnly ctxSkip"
    by (simp add: checklistFailuresOnly_def ctxSkip_def ctx0_def)
  have a2: "boardAccess ''u1'' ''board0000001'' db0 = Inr ?board"
    by code_simp
  have a3: "\<forall>l \<in> set [checklistList]. trim (listName l) \<noteq> []"
    by (simp add: checklistList_def trim_def isSpace_def whiteSpace_def)
  have refs: "checklistsRef db0" "itemsRef db0"
    by (simp_all add: checklistsRef_def itemsRef_def db0_def)
  have fi: "fresh_id (map imports_id (db_imports db0)) = 1" by code_simp
  from checklist_failures_are_skipped[OF a1 a2 a3] obtain r d' new where
    run: "?R = (Inr r, d')"
    and k: "cardsCreated r = totalCards [checklistList]" "listsProcessed r = length [checklistList]"
       "batchStatus (fresh_id (map imports_id (db_imports db0))) d' = [Success]"
       "db_cards d' = db_cards db0 @ new" "length new = totalCards [checklistList]"
       "checklistsRef db0 \<and> itemsRef db0
          \<longrightarrow> list_all2 (cardWritten ctxSkip (boards_id ?board) d') new (payloadCards [checklistList])"
    by blast
  from run have d': "d' = snd ?R" by simp
  from k(6) refs have w: "list_all2 (cardWritten ctxSkip 1 d') new (payloadCards [checklistList])"
    by simp
  have A: "\<exists>r new. ?R = (Inr r, snd ?R)
       \<and> cardsCreated r = totalCards [checklistList] \<and> listsProcessed r = length [checklistList]
       \<and> batchStatus 1 (snd ?R) = [Success]
       \<and> db_cards (snd ?R) = db_cards db0 @ new
       \<and> length new = totalCards [checklistList]
       \<and> list_all2 (cardWritten ctxSkip 1 (snd ?R)) new (payloadCards [checklistList])"
    using run k(1-5) w unfolding fi d'[symmetric] by blast
  have B: "exportChecklistsOf (snd ?R) 1 = [\<lparr>checklist_name = ''second'', checklist_items = []\<rparr>]"
    by code_simp
  have C: "survivingChecklists ctxSkip 4 (card_checklists (hd (list_cards checklistList)))
       = [\<lparr>checklist_name = ''second'', checklist_items = []\<rparr>]"
    by code_simp
  from A B C show ?thesis by (intro conjI)
qed

end
